(* ===== verification/NP_Prelude.thy ===== *)
theory NP_Prelude
  imports Main "HOL-Library.Word"
begin

text \<open>
  Shared vocabulary of the NetPIPE development: the machine types of the C sources, their
  little-endian memory representation, the network byte order of \<open>htonl\<close>, the errors a C
  function can end in, and a byte-addressed heap with the checks that make an out-of-bounds
  access, an overlapping \<open>memcpy\<close> or a bad \<open>free\<close> visible as a value.
\<close>

unbundle bit_operations_syntax

section \<open>Machine types\<close>

type_synonym byte = "8 word"
type_synonym u32 = "32 word"
type_synonym u64 = "64 word"

text \<open>Addresses are natural numbers; 0 is the null pointer.\<close>

type_synonym addr = nat

abbreviation (input) NULL :: addr where "NULL \<equiv> 0"

named_theorems heap_simps \<open>rewrite rules for loads and stores\<close>
named_theorems prog_simps \<open>rewrite rules for interaction programs\<close>

text \<open>
  The bytes of a 32-bit object in memory, lowest address first, on the little-endian hosts
  the sources are written for.
\<close>

definition le_bytes :: "u32 \<Rightarrow> byte list" where
  "le_bytes w = [ucast w, ucast (drop_bit 8 w), ucast (drop_bit 16 w), ucast (drop_bit 24 w)]"

definition le_word :: "byte list \<Rightarrow> u32" where
  "le_word bs = (case bs of
      [a, b, c, d] \<Rightarrow> ucast a OR push_bit 8 (ucast b) OR push_bit 16 (ucast c) OR push_bit 24 (ucast d)
    | _ \<Rightarrow> 0)"

text \<open>\<open>htonl\<close> and \<open>ntohl\<close> reverse the bytes of the object on such a host.\<close>

definition htonl :: "u32 \<Rightarrow> u32" where
  "htonl w = le_word (rev (le_bytes w))"

abbreviation ntohl :: "u32 \<Rightarrow> u32" where "ntohl \<equiv> htonl"

lemma unat_u32_less: "unat (w :: u32) < 2 ^ 32"
  using unsigned_less [of w] by simp

lemma length_le_bytes [simp]: "length (le_bytes w) = 4"
  by (simp add: le_bytes_def)

lemma le_bytes_not_Nil [simp]: "le_bytes w \<noteq> []"
  by (simp add: le_bytes_def)

lemma bit_above_byte: "8 \<le> n \<Longrightarrow> \<not> bit (b :: byte) n"
  using impossible_bit [of n b] by simp

lemma le_word_le_bytes [simp]: "le_word (le_bytes w) = w"
proof (rule bit_word_eqI)
  fix n :: nat
  assume "n < LENGTH(32)"
  then consider "n < 8" | "8 \<le> n \<and> n < 16" | "16 \<le> n \<and> n < 24" | "24 \<le> n \<and> n < 32"
    by (simp, linarith)
  then show "bit (le_word (le_bytes w)) n \<longleftrightarrow> bit w n"
    by cases (auto simp: le_word_def le_bytes_def bit_simps)
qed

lemma length4_conv: "length bs = 4 \<Longrightarrow> \<exists>a b c d. bs = [a, b, c, d]"
  by (auto simp: numeral_eq_Suc length_Suc_conv)

lemma le_bytes_le_word [simp]:
  assumes "length bs = 4"
  shows "le_bytes (le_word bs) = bs"
proof -
  obtain a b c d where bs: "bs = [a, b, c, d]" using length4_conv [OF assms] by blast
  show ?thesis
    unfolding bs le_bytes_def le_word_def
    by (auto intro!: bit_word_eqI simp: bit_simps bit_above_byte)
qed

lemma le_bytes_inject [simp]: "le_bytes v = le_bytes w \<longleftrightarrow> v = w"
  by (metis le_word_le_bytes)

lemma le_bytes_htonl: "le_bytes (htonl w) = rev (le_bytes w)"
  by (simp add: htonl_def)

lemma ntohl_htonl [simp]: "ntohl (htonl w) = w"
  by (simp add: htonl_def)

section \<open>How a C function ends early\<close>

text \<open>
  \<open>Exit n\<close> is a call of \<open>exit(n)\<close>; the other values are behaviour the C standard leaves
  undefined, kept apart so that a theorem that a function succeeds also says it does none of
  it.  \<open>OutOfFuel\<close> ends a loop that the sources do not bound after the number of rounds the
  caller of the model allows.
\<close>

datatype cerr =
    Exit int
  | BadAccess
  | BadFree
  | Overlap
  | BadConversion
  | Overflow
  | OutOfFuel

type_synonym 'a res = "cerr + 'a"

definition res_bind :: "'a res \<Rightarrow> ('a \<Rightarrow> 'b res) \<Rightarrow> 'b res" where
  "res_bind m f = (case m of Inl e \<Rightarrow> Inl e | Inr x \<Rightarrow> f x)"

lemma res_bind_simps [simp]:
  "res_bind (Inl e) f = Inl e"
  "res_bind (Inr x) f = f x"
  by (simp_all add: res_bind_def)

lemma res_bind_Inr: "res_bind m f = Inr y \<longleftrightarrow> (\<exists>x. m = Inr x \<and> f x = Inr y)"
  by (cases m) auto

lemma res_bind_cong [fundef_cong]:
  "m = m' \<Longrightarrow> (\<And>x. m' = Inr x \<Longrightarrow> f x = f' x) \<Longrightarrow> res_bind m f = res_bind m' f'"
  by (cases m') auto

text \<open>A product of two \<open>int\<close> values.\<close>

definition cmul :: "int \<Rightarrow> int \<Rightarrow> int res" where
  "cmul a b = (if - (2 ^ 31) \<le> a * b \<and> a * b < 2 ^ 31 then Inr (a * b) else Inl Overflow)"

text \<open>\<open>for (i = a; i < a + k; i++)\<close> with a body that may fail.\<close>

primrec for_up :: "nat \<Rightarrow> nat \<Rightarrow> (nat \<Rightarrow> 's \<Rightarrow> 's res) \<Rightarrow> 's \<Rightarrow> 's res" where
  "for_up 0 a f s = Inr s"
| "for_up (Suc k) a f s = res_bind (f a s) (for_up k (Suc a) f)"

text \<open>A body that always succeeds and keeps an indexed invariant.\<close>

lemma for_up_rule:
  assumes "P a s"
    and "\<And>i s. a \<le> i \<Longrightarrow> i < a + k \<Longrightarrow> P i s \<Longrightarrow> \<exists>s'. f i s = Inr s' \<and> P (Suc i) s'"
  shows "\<exists>s'. for_up k a f s = Inr s' \<and> P (a + k) s'"
  using assms
proof (induction k arbitrary: a s)
  case (Suc k)
  from Suc.prems(2) [of a s] Suc.prems(1) obtain s' where s': "f a s = Inr s'" "P (Suc a) s'"
    by auto
  have "\<exists>s''. for_up k (Suc a) f s' = Inr s'' \<and> P (Suc a + k) s''"
    using s'(2) by (rule Suc.IH) (use Suc.prems(2) in auto)
  with s' show ?case by simp
qed simp

section \<open>Lists\<close>

lemma map_upt_eq_iff:
  "map f [a..<a + n] = map g [b..<b + n] \<longleftrightarrow> (\<forall>i<n. f (a + i) = g (b + i))"
  by (auto simp: list_eq_iff_nth_eq)

lemma sublist_conv: "i + k \<le> length xs \<Longrightarrow> take k (drop i xs) = map (\<lambda>j. xs ! (i + j)) [0..<k]"
  by (auto simp: list_eq_iff_nth_eq)

section \<open>The heap\<close>

text \<open>
  \<open>hbytes\<close> is the contents of memory, \<open>hblocks\<close> the live blocks (base address and size).
  An access of \<open>n\<close> bytes is defined behaviour when it falls inside one live block.
\<close>

record cheap =
  hbytes :: "addr \<Rightarrow> byte"
  hblocks :: "(addr \<times> nat) list"

definition valid :: "cheap \<Rightarrow> addr \<Rightarrow> nat \<Rightarrow> bool" where
  "valid h a n \<longleftrightarrow> n = 0 \<or> list_ex (\<lambda>(b, k). b \<le> a \<and> a + n \<le> b + k) (hblocks h)"

definition load :: "cheap \<Rightarrow> addr \<Rightarrow> nat \<Rightarrow> byte list" where
  "load h a n = map (hbytes h) [a..<a + n]"

definition store :: "cheap \<Rightarrow> addr \<Rightarrow> byte list \<Rightarrow> cheap" where
  "store h a bs = h\<lparr>hbytes := (\<lambda>x. if a \<le> x \<and> x < a + length bs then bs ! (x - a) else hbytes h x)\<rparr>"

definition cload :: "cheap \<Rightarrow> addr \<Rightarrow> nat \<Rightarrow> byte list res" where
  "cload h a n = (if valid h a n then Inr (load h a n) else Inl BadAccess)"

definition cstore :: "cheap \<Rightarrow> addr \<Rightarrow> byte list \<Rightarrow> cheap res" where
  "cstore h a bs = (if valid h a (length bs) then Inr (store h a bs) else Inl BadAccess)"

definition disjoint_ranges :: "addr \<Rightarrow> nat \<Rightarrow> addr \<Rightarrow> nat \<Rightarrow> bool" where
  "disjoint_ranges a n b m \<longleftrightarrow> n = 0 \<or> m = 0 \<or> a + n \<le> b \<or> b + m \<le> a"

text \<open>\<open>memcpy(dst, src, n)\<close>: both ranges valid, and not overlapping.\<close>

definition memcpy :: "cheap \<Rightarrow> addr \<Rightarrow> addr \<Rightarrow> nat \<Rightarrow> cheap res" where
  "memcpy h dst src n =
     (if \<not> (valid h dst n \<and> valid h src n) then Inl BadAccess
      else if \<not> disjoint_ranges dst n src n then Inl Overlap
      else Inr (store h dst (load h src n)))"

text \<open>
  The allocator is a parameter: \<open>alloc h n\<close> is the address that \<open>malloc(n)\<close> returns in heap
  \<open>h\<close>, 0 for failure.  \<open>alloc_ok\<close> is what the C standard says of it: a returned block is
  disjoint from every live block, also when its size is 0.
\<close>

type_synonym allocator = "cheap \<Rightarrow> nat \<Rightarrow> addr"

definition malloc :: "allocator \<Rightarrow> cheap \<Rightarrow> nat \<Rightarrow> addr \<times> cheap" where
  "malloc alloc h n =
     (let p = alloc h n in if p = NULL then (NULL, h) else (p, h\<lparr>hblocks := (p, n) # hblocks h\<rparr>))"

definition alloc_ok :: "allocator \<Rightarrow> bool" where
  "alloc_ok alloc \<longleftrightarrow>
     (\<forall>h n. alloc h n \<noteq> NULL \<longrightarrow>
        (\<forall>(b, k) \<in> set (hblocks h). disjoint_ranges (alloc h n) (max 1 n) b (max 1 k)))"

text \<open>\<open>free(p)\<close>: \<open>p\<close> must be the base of a live block.\<close>

definition free :: "cheap \<Rightarrow> addr \<Rightarrow> cheap res" where
  "free h p = (if p \<in> fst ` set (hblocks h)
               then Inr (h\<lparr>hblocks := filter (\<lambda>(b, k). b \<noteq> p) (hblocks h)\<rparr>) else Inl BadFree)"

subsection \<open>Loads and stores\<close>

lemma length_load [simp]: "length (load h a n) = n"
  by (simp add: load_def)

lemma load_0 [simp]: "load h a 0 = []"
  by (simp add: load_def)

lemma nth_load [simp]: "i < n \<Longrightarrow> load h a n ! i = hbytes h (a + i)"
  by (simp add: load_def)

lemma hblocks_store [simp]: "hblocks (store h a bs) = hblocks h"
  by (simp add: store_def)

lemma valid_store [simp]: "valid (store h a bs) b n = valid h b n"
  by (simp add: valid_def)

lemma valid_0 [simp]: "valid h a 0"
  by (simp add: valid_def)

lemma hbytes_store [heap_simps]:
  "hbytes (store h a bs) x = (if a \<le> x \<and> x < a + length bs then bs ! (x - a) else hbytes h x)"
  by (simp add: store_def)

lemma load_eq_iff: "load h a n = bs \<longleftrightarrow> length bs = n \<and> (\<forall>i<n. hbytes h (a + i) = bs ! i)"
  by (auto simp: list_eq_iff_nth_eq)

lemma load_store_same [heap_simps]: "load (store h a bs) a (length bs) = bs"
  by (rule nth_equalityI) (simp_all add: hbytes_store)

lemma load_store_disjoint [heap_simps]:
  "disjoint_ranges a (length bs) b n \<Longrightarrow> load (store h a bs) b n = load h b n"
  by (rule nth_equalityI) (auto simp: hbytes_store disjoint_ranges_def)

lemma disjoint_ranges_sym: "disjoint_ranges a n b m \<longleftrightarrow> disjoint_ranges b m a n"
  by (auto simp: disjoint_ranges_def)

lemma valid_sub: "valid h a n \<Longrightarrow> i + k \<le> n \<Longrightarrow> valid h (a + i) k"
  by (auto simp: valid_def list_ex_iff) fastforce

lemma valid_sub0: "valid h a n \<Longrightarrow> k \<le> n \<Longrightarrow> valid h a k"
  using valid_sub [of h a n 0 k] by simp

lemma cheap_eqI:
  "hblocks h = hblocks (h' :: cheap) \<Longrightarrow> (\<And>x. hbytes h x = hbytes h' x) \<Longrightarrow> h = h'"
  by (cases h, cases h') auto

lemma store_Nil [simp]: "store h a [] = h"
  by (rule cheap_eqI) (auto simp: heap_simps)

lemma store_append: "store (store h a xs) (a + length xs) ys = store h a (xs @ ys)"
  by (rule cheap_eqI) (auto simp: heap_simps nth_append)

lemma store_append': "b = a + length xs \<Longrightarrow> store (store h a xs) b ys = store h a (xs @ ys)"
  by (simp add: store_append)

lemma load_append: "load h a (n + m) = load h a n @ load h (a + n) m"
  by (auto simp: list_eq_iff_nth_eq nth_append)

lemma load_split: "k \<le> n \<Longrightarrow> load h a n = load h a k @ load h (a + k) (n - k)"
  using load_append [of h a k "n - k"] by simp

lemma load_drop: "k \<le> n \<Longrightarrow> drop k (load h a n) = load h (a + k) (n - k)"
  by (auto simp: list_eq_iff_nth_eq add.assoc)

lemma load_take: "k \<le> n \<Longrightarrow> take k (load h a n) = load h a k"
  by (auto simp: list_eq_iff_nth_eq)

lemma load_sub: "i + k \<le> n \<Longrightarrow> take k (drop i (load h a n)) = load h (a + i) k"
  by (auto simp: list_eq_iff_nth_eq add.assoc)

lemma cstore_ok [simp]: "valid h a (length bs) \<Longrightarrow> cstore h a bs = Inr (store h a bs)"
  by (simp add: cstore_def)

lemma cload_ok [simp]: "valid h a n \<Longrightarrow> cload h a n = Inr (load h a n)"
  by (simp add: cload_def)

lemma memcpy_ok:
  "valid h dst n \<Longrightarrow> valid h src n \<Longrightarrow> disjoint_ranges dst n src n \<Longrightarrow>
   memcpy h dst src n = Inr (store h dst (load h src n))"
  by (simp add: memcpy_def)

subsection \<open>Allocation\<close>

lemma malloc_fresh:
  assumes "alloc_ok alloc" and "malloc alloc h n = (p, h')" and "p \<noteq> NULL"
  shows "hblocks h' = (p, n) # hblocks h" "hbytes h' = hbytes h"
    and "\<And>b k. (b, k) \<in> set (hblocks h) \<Longrightarrow> disjoint_ranges p n b k \<and> p \<noteq> b"
proof -
  from assms(2,3) have p: "p = alloc h n" and h': "h' = h\<lparr>hblocks := (p, n) # hblocks h\<rparr>"
    by (auto simp: malloc_def Let_def split: if_splits)
  show "hblocks h' = (p, n) # hblocks h" "hbytes h' = hbytes h" by (simp_all add: h')
  show "disjoint_ranges p n b k \<and> p \<noteq> b" if "(b, k) \<in> set (hblocks h)" for b k
    using assms(1,3) that unfolding alloc_ok_def p by (fastforce simp: disjoint_ranges_def)
qed

lemma valid_block: "(p, n) \<in> set (hblocks h) \<Longrightarrow> valid h p n"
  by (auto simp: valid_def list_ex_iff)

lemma valid_Cons:
  "hblocks h' = blk # hblocks h \<Longrightarrow> valid h a n \<Longrightarrow> valid h' a n"
  by (auto simp: valid_def)

end
