(* ===== verification/NP_Prog.thy ===== *)
theory NP_Prog
  imports NP_Prelude
begin

text \<open>
  C code that talks to the world outside the repository (the socket calls, MPI, the clock) as
  an interaction program: a tree whose inner nodes are the external calls the code makes, each
  with a continuation that takes whatever the call returned.  Nothing is assumed here about
  what a call returns.  A program is run against a list of replies by \<open>feed\<close>; the theories on
  the network give the calls a semantics.
\<close>

section \<open>Interaction programs\<close>

text \<open>
  \<open>Clock\<close> is \<open>gettimeofday\<close>, which the module-independent code calls; its reply is the pair
  of seconds and microseconds.  \<open>Call e k\<close> is any external call of a communication module.
\<close>

datatype ('e, 'r, 'a) prog =
    Ret 'a
  | Abort cerr
  | Call 'e "'r \<Rightarrow> ('e, 'r, 'a) prog"
  | Clock "int \<times> int \<Rightarrow> ('e, 'r, 'a) prog"

primrec andThen :: "('e, 'r, 'a) prog \<Rightarrow> ('a \<Rightarrow> ('e, 'r, 'b) prog) \<Rightarrow> ('e, 'r, 'b) prog" where
  "andThen (Ret x) f = f x"
| "andThen (Abort e) f = Abort e"
| "andThen (Call e k) f = Call e (\<lambda>r. andThen (k r) f)"
| "andThen (Clock k) f = Clock (\<lambda>t. andThen (k t) f)"

text \<open>A computation that makes no external call, as a program.\<close>

definition lift :: "'a res \<Rightarrow> ('e, 'r, 'a) prog" where
  "lift m = (case m of Inl e \<Rightarrow> Abort e | Inr x \<Rightarrow> Ret x)"

definition call :: "'e \<Rightarrow> ('e, 'r, 'r) prog" where
  "call e = Call e Ret"

lemma lift_simps [simp]: "lift (Inl e) = Abort e" "lift (Inr x) = Ret x"
  by (simp_all add: lift_def)

lemma andThen_call [simp]: "andThen (call e) f = Call e f"
  by (simp add: call_def)

lemma andThen_assoc [simp]: "andThen (andThen p f) g = andThen p (\<lambda>x. andThen (f x) g)"
  by (induction p) auto

lemma andThen_Ret [simp]: "andThen p Ret = p"
  by (induction p) auto

lemma andThen_cong [fundef_cong]:
  "p = p' \<Longrightarrow> (\<And>x. f x = f' x) \<Longrightarrow> andThen p f = andThen p' f'"
  by (metis ext)

section \<open>Running a program against given replies\<close>

text \<open>
  \<open>feed p rs ts\<close> answers the external calls of \<open>p\<close> with the replies \<open>rs\<close> and its clock reads
  with \<open>ts\<close>, in order.  The result is what is left of the program (\<open>Ret\<close> or \<open>Abort\<close> when it
  has ended, the waiting call when the replies ran out) and the calls that were made.
\<close>

fun feed :: "('e, 'r, 'a) prog \<Rightarrow> 'r list \<Rightarrow> (int \<times> int) list \<Rightarrow> ('e, 'r, 'a) prog \<times> 'e list" where
  "feed (Ret x) rs ts = (Ret x, [])"
| "feed (Abort e) rs ts = (Abort e, [])"
| "feed (Call e k) [] ts = (Call e k, [])"
| "feed (Call e k) (r # rs) ts = (let (p, es) = feed (k r) rs ts in (p, e # es))"
| "feed (Clock k) rs [] = (Clock k, [])"
| "feed (Clock k) rs (t # ts) = feed (k t) rs ts"

section \<open>Programs against every environment\<close>

text \<open>At most \<open>n\<close> calls, whatever the replies.\<close>

inductive calls_le :: "nat \<Rightarrow> ('e, 'r, 'a) prog \<Rightarrow> bool" where
  ret: "calls_le n (Ret x)"
| abort: "calls_le n (Abort e)"
| call: "(\<And>r. calls_le n (k r)) \<Longrightarrow> calls_le (Suc n) (Call e k)"

definition ended :: "('e, 'r, 'a) prog \<Rightarrow> bool" where
  "ended p = (case p of Ret _ \<Rightarrow> True | Abort _ \<Rightarrow> True | _ \<Rightarrow> False)"

lemma ended_simps [simp]: "ended (Ret x)" "ended (Abort e)" "\<not> ended (Call c k)" "\<not> ended (Clock l)"
  by (simp_all add: ended_def)

lemma feed_Call [simp]:
  "fst (feed (Call e k) (r # rs) ts) = fst (feed (k r) rs ts)"
  "snd (feed (Call e k) (r # rs) ts) = e # snd (feed (k r) rs ts)"
  by (simp_all add: case_prod_beta)

lemma calls_le_ended: "calls_le n p \<Longrightarrow> n \<le> length rs \<Longrightarrow>
    ended (fst (feed p rs ts)) \<and> length (snd (feed p rs ts)) \<le> n"
proof (induction arbitrary: rs rule: calls_le.induct)
  case (call n k e)
  from call.prems obtain r rs' where "rs = r # rs'" "n \<le> length rs'" by (cases rs) auto
  then show ?case using call.IH [of rs' r] by (simp del: feed.simps)
qed simp_all

lemma calls_le_mono: "calls_le n p \<Longrightarrow> n \<le> m \<Longrightarrow> calls_le m p"
proof (induction arbitrary: m rule: calls_le.induct)
  case (call n k e)
  then obtain m' where "m = Suc m'" "n \<le> m'" by (cases m) auto
  with call.IH show ?case by (auto intro: calls_le.call)
qed (auto intro: calls_le.intros)

lemma calls_le_andThen: "calls_le n p \<Longrightarrow> (\<And>x. calls_le m (f x)) \<Longrightarrow> calls_le (n + m) (andThen p f)"
proof (induction rule: calls_le.induct)
  case (ret n x)
  then show ?case using calls_le_mono [of m "f x" "n + m"] by simp
qed (auto intro: calls_le.intros)

lemma calls_le_then: "calls_le n p \<Longrightarrow> (\<And>x. calls_le 0 (f x)) \<Longrightarrow> calls_le n (andThen p f)"
  using calls_le_andThen [of n p 0 f] by simp

lemma calls_le_lift [simp]: "calls_le n (lift m)"
  by (cases m) (auto intro: calls_le.intros)

text \<open>Every value a program can return, whatever the replies.\<close>

inductive returns :: "('a \<Rightarrow> bool) \<Rightarrow> ('e, 'r, 'a) prog \<Rightarrow> bool" for P where
  ret: "P x \<Longrightarrow> returns P (Ret x)"
| abort: "returns P (Abort e)"
| call: "(\<And>r. returns P (k r)) \<Longrightarrow> returns P (Call e k)"
| clock: "(\<And>t. returns P (k t)) \<Longrightarrow> returns P (Clock k)"

lemma returns_andThen: "returns P p \<Longrightarrow> (\<And>x. P x \<Longrightarrow> returns Q (f x)) \<Longrightarrow> returns Q (andThen p f)"
  by (induction rule: returns.induct) (auto intro: returns.intros)

lemma returns_mono: "returns P p \<Longrightarrow> (\<And>x. P x \<Longrightarrow> Q x) \<Longrightarrow> returns Q p"
  by (induction rule: returns.induct) (auto intro: returns.intros)

lemma returns_feed: "returns P p \<Longrightarrow> fst (feed p rs ts) = Ret x \<Longrightarrow> P x"
proof (induction arbitrary: rs ts rule: returns.induct)
  case (call k e)
  then show ?case by (cases rs) (auto simp del: feed.simps(4))
next
  case (clock k)
  then show ?case by (cases ts) auto
qed auto

lemma returns_lift: "(\<And>x. m = Inr x \<Longrightarrow> P x) \<Longrightarrow> returns P (lift m)"
  by (cases m) (auto intro: returns.intros)

section \<open>Programs against a device with a state\<close>

text \<open>
  A device that the calls of a program go to: \<open>d_legal e s\<close> says that its documentation allows the
  call \<open>e\<close> when the device is in the state \<open>s\<close>, \<open>d_adm e s r\<close> that it may then reply \<open>r\<close>, and
  \<open>d_upd e r s\<close> is its state afterwards.  The state is not known to the program.
\<close>

record ('e, 'r, 's) device =
  d_legal :: "'e \<Rightarrow> 's \<Rightarrow> bool"
  d_adm :: "'e \<Rightarrow> 's \<Rightarrow> 'r \<Rightarrow> bool"
  d_upd :: "'e \<Rightarrow> 'r \<Rightarrow> 's \<Rightarrow> 's"

text \<open>
  \<open>wp D E Q p s\<close>: run on \<open>D\<close> from \<open>s\<close>, the program makes legal calls only, whatever admissible
  replies it gets; when it returns \<open>Q\<close> holds of the value and the state, when it aborts \<open>E\<close>.
\<close>

primrec wp :: "('e, 'r, 's) device \<Rightarrow> (cerr \<Rightarrow> 's \<Rightarrow> bool) \<Rightarrow> ('a \<Rightarrow> 's \<Rightarrow> bool) \<Rightarrow> ('e, 'r, 'a) prog \<Rightarrow> 's \<Rightarrow> bool" where
  "wp D E Q (Ret x) s \<longleftrightarrow> Q x s"
| "wp D E Q (Abort e) s \<longleftrightarrow> E e s"
| "wp D E Q (Call e k) s \<longleftrightarrow> d_legal D e s \<and> (\<forall>r. d_adm D e s r \<longrightarrow> wp D E Q (k r) (d_upd D e r s))"
| "wp D E Q (Clock k) s \<longleftrightarrow> (\<forall>t. wp D E Q (k t) s)"

lemma wp_andThen [simp]: "wp D E Q (andThen p f) s \<longleftrightarrow> wp D E (\<lambda>x. wp D E Q (f x)) p s"
  by (induction p arbitrary: s) simp_all

lemma wp_mono: "wp D E Q p s \<Longrightarrow> (\<And>x s. Q x s \<Longrightarrow> Q' x s) \<Longrightarrow> (\<And>e s. E e s \<Longrightarrow> E' e s) \<Longrightarrow> wp D E' Q' p s"
  by (induction p arbitrary: s) auto

lemma wp_then: "wp D E Q p s \<Longrightarrow> (\<And>x s. Q x s \<Longrightarrow> wp D E Q' (f x) s) \<Longrightarrow> wp D E Q' (andThen p f) s"
  by (simp add: wp_mono)

lemma wp_if [simp]: "wp D E Q (if b then p else p') s \<longleftrightarrow> (if b then wp D E Q p s else wp D E Q p' s)"
  by simp

text \<open>The runs of a program on a device, and what \<open>wp\<close> says of them.\<close>

inductive runs :: "('e, 'r, 's) device \<Rightarrow> ('e, 'r, 'a) prog \<Rightarrow> 's \<Rightarrow> ('e, 'r, 'a) prog \<Rightarrow> 's \<Rightarrow> bool" for D where
  here: "runs D p s p s"
| call: "d_adm D e s r \<Longrightarrow> runs D (k r) (d_upd D e r s) p s' \<Longrightarrow> runs D (Call e k) s p s'"
| clock: "runs D (k t) s p s' \<Longrightarrow> runs D (Clock k) s p s'"

text \<open>The run that given replies lead to, as far as they are admissible.\<close>

fun drive :: "('e, 'r, 's) device \<Rightarrow> ('e, 'r, 'a) prog \<Rightarrow> 'r list \<Rightarrow> 's \<Rightarrow> ('e, 'r, 'a) prog \<times> 's" where
  "drive D (Call e k) (r # rs) s = (if d_adm D e s r then drive D (k r) rs (d_upd D e r s) else (Call e k, s))"
| "drive D p rs s = (p, s)"

lemma drive_runs: "runs D p s (fst (drive D p rs s)) (snd (drive D p rs s))"
  by (induction D p rs s rule: drive.induct) (auto intro: runs.intros)

fun conf_ok :: "('e, 'r, 's) device \<Rightarrow> (cerr \<Rightarrow> 's \<Rightarrow> bool) \<Rightarrow> ('a \<Rightarrow> 's \<Rightarrow> bool) \<Rightarrow> ('e, 'r, 'a) prog \<Rightarrow> 's \<Rightarrow> bool" where
  "conf_ok D E Q (Ret x) s \<longleftrightarrow> Q x s"
| "conf_ok D E Q (Abort e) s \<longleftrightarrow> E e s"
| "conf_ok D E Q (Call e k) s \<longleftrightarrow> d_legal D e s"
| "conf_ok D E Q (Clock k) s \<longleftrightarrow> True"

lemma wp_runs: "runs D p s p' s' \<Longrightarrow> wp D E Q p s \<Longrightarrow> conf_ok D E Q p' s'"
proof (induction rule: runs.induct)
  case (here p s)
  then show ?case by (cases p) simp_all
qed (simp_all del: split_paired_All)

section \<open>Programs and scripts\<close>

text \<open>
  A script is a list of abstract actions.  \<open>acc e s R\<close> says that the call \<open>e\<close> is the next thing
  the script \<open>s\<close> asks for; \<open>R r s'\<close> holds for each reply \<open>r\<close> the environment may give and
  the rest \<open>s'\<close> of the script after it.  A program obeys a script when it makes exactly the
  calls the script asks for, whatever the replies, and then returns a value with \<open>Q\<close>.
\<close>

type_synonym ('e, 'r, 's) accepts = "'e \<Rightarrow> 's list \<Rightarrow> ('r \<Rightarrow> 's list \<Rightarrow> bool) \<Rightarrow> bool"

inductive obeys :: "('e, 'r, 's) accepts \<Rightarrow> ('a \<Rightarrow> bool) \<Rightarrow> ('e, 'r, 'a) prog \<Rightarrow> 's list \<Rightarrow> bool" for acc Q where
  ret: "Q x \<Longrightarrow> obeys acc Q (Ret x) []"
| clock: "(\<And>c. obeys acc Q (k c) t) \<Longrightarrow> obeys acc Q (Clock k) t"
| call: "acc e s R \<Longrightarrow> (\<And>r s'. R r s' \<Longrightarrow> obeys acc Q (k r) s') \<Longrightarrow> obeys acc Q (Call e k) s"

text \<open>What a call does to a script does not depend on what follows in it.\<close>

definition framed :: "('e, 'r, 's) accepts \<Rightarrow> bool" where
  "framed acc \<longleftrightarrow> (\<forall>e s R t. acc e s R \<longrightarrow>
     (\<exists>R'. acc e (s @ t) R' \<and> (\<forall>r u. R' r u \<longrightarrow> (\<exists>s'. R r s' \<and> u = s' @ t))))"

lemma obeys_andThen:
  assumes "framed acc" and "obeys acc P p s" and "\<And>x. P x \<Longrightarrow> obeys acc Q (f x) t"
  shows "obeys acc Q (andThen p f) (s @ t)"
  using assms(2)
proof (induction rule: obeys.induct)
  case (ret x)
  then show ?case using assms(3) by simp
next
  case (clock k s)
  then show ?case by (auto intro: obeys.clock)
next
  case (call e s R k)
  from assms(1) call.hyps(1) obtain R' where R': "acc e (s @ t) R'"
    "\<And>r u. R' r u \<Longrightarrow> \<exists>s'. R r s' \<and> u = s' @ t"
    unfolding framed_def by meson
  have "obeys acc Q (andThen (k r) f) u" if "R' r u" for r u
    using R'(2) [OF that] call.IH by blast
  with R'(1) show ?case by (auto intro: obeys.call)
qed

lemma obeys_mono: "obeys acc P p t \<Longrightarrow> (\<And>x. P x \<Longrightarrow> Q x) \<Longrightarrow> obeys acc Q p t"
  by (induction rule: obeys.induct) (auto intro: obeys.intros)

section \<open>Runs that end\<close>

text \<open>Every run from \<open>s\<close> is finite, and where it cannot go on \<open>Q\<close> holds.\<close>

inductive ends_in :: "('s \<Rightarrow> 's \<Rightarrow> bool) \<Rightarrow> ('s \<Rightarrow> bool) \<Rightarrow> 's \<Rightarrow> bool" for step Q where
  "(\<And>s'. step s s' \<Longrightarrow> ends_in step Q s') \<Longrightarrow> (\<exists>s'. step s s') \<or> Q s \<Longrightarrow> ends_in step Q s"

text \<open>An invariant under which a run never gets stuck, over steps that decrease.\<close>

lemma ends_in_rule:
  assumes "wf r" and "\<And>s s'. step s s' \<Longrightarrow> (s', s) \<in> r"
    and "\<And>s s'. I s \<Longrightarrow> step s s' \<Longrightarrow> I s'" and "\<And>s. I s \<Longrightarrow> (\<exists>s'. step s s') \<or> Q s" and "I s"
  shows "ends_in step Q s"
  using assms(1,5)
proof (induction s rule: wf_induct_rule)
  case (less s)
  show ?case
    by (rule ends_in.intros) (use less assms(2-4) in blast)+
qed

text \<open>The continuations of a program are below it in a well-founded order.\<close>

inductive sub :: "('e, 'r, 'a) prog \<Rightarrow> ('e, 'r, 'a) prog \<Rightarrow> bool" where
  "sub (k r) (Call e k)"
| "sub (k c) (Clock k)"

lemma wfp_sub: "wfp (sub :: ('e, 'r, 'a) prog \<Rightarrow> _)"
proof (rule wfpUNIVI)
  fix P :: "('e, 'r, 'a) prog \<Rightarrow> bool" and p
  assume IH: "\<forall>x. (\<forall>y. sub y x \<longrightarrow> P y) \<longrightarrow> P x"
  show "P p"
  proof (induction p)
    case (Ret x)
    then show ?case using IH by (auto elim: sub.cases)
  next
    case (Abort e)
    then show ?case using IH by (auto elim: sub.cases)
  next
    case (Call e k)
    have "sub y (Call e k) \<Longrightarrow> P y" for y by (erule sub.cases) (auto intro: Call)
    then show ?case using IH by blast
  next
    case (Clock k)
    have "sub y (Clock k) \<Longrightarrow> P y" for y by (erule sub.cases) (auto intro: Clock)
    then show ?case using IH by blast
  qed
qed

section \<open>Messages\<close>

text \<open>What the code prints: the format string and the arguments.\<close>

datatype carg = AInt int | AStr string

datatype msg = Msg string "carg list"

end
