(* ===== verification/NP_Types.thy ===== *)
theory NP_Types
  imports NP_Prog Complex_Main
begin

text \<open>
  The structures of \<open>netpipe.h\<close> and the state that a NetPIPE process keeps.  \<open>'p\<close> is the
  protocol structure of the module that is compiled in, \<open>'g\<close> the module's static variables.
\<close>

section \<open>Constants and structures of netpipe.h\<close>

definition MEMSIZE :: int where "MEMSIZE = 10000000"
definition DEFPORT :: int where "DEFPORT = 5002"

text \<open>\<open>MAX(x, y)\<close>\<close>

definition CMAX :: "int \<Rightarrow> int \<Rightarrow> int" where
  "CMAX x y = (if x > y then x else y)"

record 'p ArgStruct =
  cache :: int
  host :: string
  servicefd :: int
  commfd :: int
  port :: int
  r_buff :: addr
  r_buff_orig :: addr
  r_ptr :: addr
  r_ptr_saved :: addr
  s_buff :: addr
  s_buff_orig :: addr
  s_ptr :: addr
  bufflen :: int
  upper :: int
  tr :: int
  rcv :: int
  bidir :: int
  source_node :: int
  preburst :: int
  reset_conn :: int
  soffset :: int
  roffset :: int
  syncflag :: int
  use_sdp :: int
  prot :: 'p

text \<open>
  The \<open>Netpipe\<close> object; the fields that no modelled function reads or writes (the output file,
  the command-line leftovers and the timing variables) are left out.
\<close>

record 'p Netpipe =
  args :: "'p ArgStruct"
  outname :: string
  len_buf_align :: int
  asyncReceive :: int
  bufalign :: int
  streamopt :: int
  integCheck :: int

text \<open>
  The state of a process: the object, the heap, the global \<open>lfsr_data\<close> of \<open>netpipe.c\<close>, the
  static \<open>flag\<close> of \<open>flushcache\<close>, the module's statics, and what has been printed.
\<close>

record ('p, 'g) world =
  self :: "'p Netpipe"
  heap :: cheap
  lfsr_data :: u32
  fcflag :: int
  glob :: 'g
  out :: "msg list"

abbreviation p_of :: "('p, 'g) world \<Rightarrow> 'p ArgStruct" where
  "p_of w \<equiv> args (self w)"

definition upd_args :: "('p ArgStruct \<Rightarrow> 'p ArgStruct) \<Rightarrow> ('p, 'g) world \<Rightarrow> ('p, 'g) world" where
  "upd_args f w = w\<lparr>self := (self w)\<lparr>args := f (args (self w))\<rparr>\<rparr>"

definition upd_heap :: "cheap \<Rightarrow> ('p, 'g) world \<Rightarrow> ('p, 'g) world" where
  "upd_heap h w = w\<lparr>heap := h\<rparr>"

definition printf :: "string \<Rightarrow> carg list \<Rightarrow> ('p, 'g) world \<Rightarrow> ('p, 'g) world" where
  "printf s as w = w\<lparr>out := out w @ [Msg s as]\<rparr>"

lemma upd_args_simps [simp]:
  "p_of (upd_args f w) = f (p_of w)"
  "heap (upd_args f w) = heap w"
  "lfsr_data (upd_args f w) = lfsr_data w"
  "fcflag (upd_args f w) = fcflag w"
  "glob (upd_args f w) = glob w"
  "out (upd_args f w) = out w"
  "asyncReceive (self (upd_args f w)) = asyncReceive (self w)"
  by (simp_all add: upd_args_def)

lemma upd_heap_simps [simp]:
  "self (upd_heap h w) = self w"
  "heap (upd_heap h w) = h"
  "lfsr_data (upd_heap h w) = lfsr_data w"
  "fcflag (upd_heap h w) = fcflag w"
  "glob (upd_heap h w) = glob w"
  "out (upd_heap h w) = out w"
  by (simp_all add: upd_heap_def)

lemma printf_simps [simp]:
  "self (printf s as w) = self w"
  "heap (printf s as w) = heap w"
  "lfsr_data (printf s as w) = lfsr_data w"
  "glob (printf s as w) = glob w"
  "out (printf s as w) = out w @ [Msg s as]"
  by (simp_all add: printf_def)

text \<open>Store bytes through a pointer, in a program.\<close>

definition put_bytes :: "('p, 'g) world \<Rightarrow> addr \<Rightarrow> byte list \<Rightarrow> ('p, 'g) world res" where
  "put_bytes w a bs = res_bind (cstore (heap w) a bs) (\<lambda>h. Inr (upd_heap h w))"

lemma put_bytes_ok [simp]:
  "valid (heap w) a (length bs) \<Longrightarrow> put_bytes w a bs = Inr (upd_heap (store (heap w) a bs) w)"
  by (simp add: put_bytes_def)

lemma upd_heap_upd_heap [simp]: "upd_heap h (upd_heap h' w) = upd_heap h w"
  by (simp add: upd_heap_def)

end
