(* ===== verification/Lfsr.thy ===== *)
theory Lfsr
  imports NP_Types
begin

text \<open>
  The linear feedback shift registers of \<open>netpipe.c\<close> and the two routines built on them:
  \<open>lfsrset\<close> fills a buffer with the register's output, \<open>lfsrcheck\<close> reports every word or byte
  of a buffer that differs from it.
\<close>

unbundle bit_operations_syntax

section \<open>The registers\<close>

definition lfsr32 :: "u32 \<Rightarrow> u32" where
  "lfsr32 s = drop_bit 1 s XOR (- (s AND 1) AND 0xD0000001)"

text \<open>
  \<open>lfsr58\<close> computes in 64 bits, because its constant has type \<open>unsigned long\<close>, but the negation
  \<open>-(lfsr_data & 1u)\<close> is a 32-bit one, zero-extended, and the result is stored back into the
  32-bit \<open>lfsr_data\<close>.
\<close>

definition lfsr58 :: "u32 \<Rightarrow> u32" where
  "lfsr58 s = ucast ((ucast (drop_bit 1 s) :: u64) XOR (ucast (- (s AND 1)) AND 0x200002000000000))"

definition lfsr23 :: "u32 \<Rightarrow> u32" where
  "lfsr23 s = drop_bit 1 s XOR (- (s AND 1) AND 0x400010)"

text \<open>The macro \<open>LFSR\<close>, \<open>lfsr23\<close> unless the build defines another, is a parameter below.\<close>

type_synonym lfsr = "u32 \<Rightarrow> u32"

section \<open>lfsrset and lfsrcheck\<close>

function lfsrset_words :: "lfsr \<Rightarrow> addr \<Rightarrow> nat \<Rightarrow> nat \<Rightarrow> cheap \<Rightarrow> u32 \<Rightarrow> (cheap \<times> u32) res" where
  "lfsrset_words LFSR s end i h d =
     (if i < end
      then let d' = LFSR d in
           res_bind (cstore h (s + 4 * (i div 4)) (le_bytes d')) (\<lambda>h'.
           lfsrset_words LFSR s end (i + 4) h' d')
      else Inr (h, d))"
  by pat_completeness auto
termination
  by (relation "measure (\<lambda>(L, s, e, i, h, d). e - i)") auto

function lfsrset_bytes :: "addr \<Rightarrow> nat \<Rightarrow> nat \<Rightarrow> u32 \<Rightarrow> nat \<Rightarrow> cheap \<Rightarrow> cheap res" where
  "lfsrset_bytes s end rem last_lfsr i h =
     (if i < rem
      then res_bind (cstore h (s + (i + end)) [le_bytes last_lfsr ! i])
             (\<lambda>h'. lfsrset_bytes s end rem last_lfsr (i + 1) h')
      else Inr h)"
  by pat_completeness auto
termination
  by (relation "measure (\<lambda>(s, e, r, d, i, h). r - i)") auto

declare lfsrset_words.simps [simp del] lfsrset_bytes.simps [simp del]

definition lfsrset :: "lfsr \<Rightarrow> addr \<Rightarrow> int \<Rightarrow> u64 \<Rightarrow> ('p, 'g) world \<Rightarrow> ('p, 'g) world res" where
  "lfsrset LFSR s c n w =
     (let inc = 4;
          end = n AND NOT (inc - 1);
          rem = n AND (inc - 1)
      in res_bind (lfsrset_words LFSR s (unat end) 0 (heap w) (word_of_int c)) (\<lambda>(h, d).
         let last_lfsr = LFSR d
         in res_bind (lfsrset_bytes s (unat end) (unat rem) last_lfsr 0 h) (\<lambda>h'.
            Inr (w\<lparr>heap := h', lfsr_data := last_lfsr\<rparr>))))"

abbreviation mismatch :: "nat \<Rightarrow> addr \<Rightarrow> int \<Rightarrow> int \<Rightarrow> msg" where
  "mismatch i p expect got \<equiv>
     Msg ''DATA MISMATCH index %ld %p expect 0x%x got 0x%x''
       [AInt (int i), AInt (int p), AInt expect, AInt got]"

function lfsrcheck_words :: "lfsr \<Rightarrow> addr \<Rightarrow> nat \<Rightarrow> nat \<Rightarrow> cheap \<Rightarrow> u32 \<Rightarrow> msg list \<Rightarrow> (msg list \<times> u32) res" where
  "lfsrcheck_words LFSR s end i h d ms =
     (if i < end
      then let dat = s + 4 * (i div 4); d' = LFSR d in
           res_bind (cload h dat 4) (\<lambda>bs.
           lfsrcheck_words LFSR s end (i + 4) h d'
             (if le_word bs \<noteq> d' then ms @ [mismatch i dat (uint d') (uint (le_word bs))] else ms))
      else Inr (ms, d))"
  by pat_completeness auto
termination
  by (relation "measure (\<lambda>(L, s, e, i, h, d, ms). e - i)") auto

function lfsrcheck_bytes :: "addr \<Rightarrow> nat \<Rightarrow> nat \<Rightarrow> u32 \<Rightarrow> nat \<Rightarrow> cheap \<Rightarrow> msg list \<Rightarrow> msg list res" where
  "lfsrcheck_bytes s end rem last_lfsr i h ms =
     (if i < rem
      then let chrdat = s + (i + end) in
           res_bind (cload h chrdat 1) (\<lambda>bs.
           lfsrcheck_bytes s end rem last_lfsr (i + 1) h
             (if bs ! 0 \<noteq> le_bytes last_lfsr ! i
              then ms @ [mismatch (i + end) chrdat (sint (le_bytes last_lfsr ! i)) (sint (bs ! 0))]
              else ms))
      else Inr ms)"
  by pat_completeness auto
termination
  by (relation "measure (\<lambda>(s, e, r, d, i, h, ms). r - i)") auto

declare lfsrcheck_words.simps [simp del] lfsrcheck_bytes.simps [simp del]

definition lfsrcheck :: "lfsr \<Rightarrow> addr \<Rightarrow> int \<Rightarrow> u64 \<Rightarrow> ('p, 'g) world \<Rightarrow> ('p, 'g) world res" where
  "lfsrcheck LFSR s c n w =
     (let inc = 4;
          end = n AND NOT (inc - 1);
          rem = n AND (inc - 1)
      in res_bind (lfsrcheck_words LFSR s (unat end) 0 (heap w) (word_of_int c) []) (\<lambda>(ms, d).
         let last_lfsr = LFSR d
         in res_bind (lfsrcheck_bytes s (unat end) (unat rem) last_lfsr 0 (heap w) ms) (\<lambda>ms'.
            Inr (w\<lparr>lfsr_data := last_lfsr, out := out w @ ms'\<rparr>))))"

section \<open>The contract of a register\<close>

text \<open>
  What the callers rely on: the register maps a set of states to itself, one to one, and only
  the zero state goes to zero.
\<close>

locale shift_register =
  fixes step :: lfsr and states :: "u32 set"
  assumes closed: "s \<in> states \<Longrightarrow> step s \<in> states"
    and one_to_one: "inj_on step states"
    and zero_state: "0 \<in> states"
    and step_zero: "step 0 = 0"
begin

lemma step_eq_0: "s \<in> states \<Longrightarrow> step s = 0 \<longleftrightarrow> s = 0"
  using one_to_one zero_state step_zero by (metis inj_on_eq_iff)

lemma iterate_closed: "s \<in> states \<Longrightarrow> (step ^^ n) s \<in> states"
  by (induction n) (auto simp: closed)

lemma never_zero: "s \<in> states \<Longrightarrow> s \<noteq> 0 \<Longrightarrow> (step ^^ n) s \<noteq> 0"
  by (induction n) (auto simp: step_eq_0 iterate_closed)

lemma iterate_inj: "s \<in> states \<Longrightarrow> t \<in> states \<Longrightarrow> (step ^^ n) s = (step ^^ n) t \<longleftrightarrow> s = t"
proof (induction n)
  case (Suc n)
  then show ?case
    using iterate_closed [of s n] iterate_closed [of t n] one_to_one by (auto simp: inj_on_eq_iff)
qed simp

end

lemma neg_lsb: "- (s AND 1 :: u32) = (if bit s 0 then - 1 else 0)"
  by (simp add: and_one_eq even_iff_mod_2_eq_zero bit_0)

lemma no_bit_32: "32 \<le> n \<Longrightarrow> \<not> bit (s :: u32) n"
  using impossible_bit [of n s] by simp

lemma u32_split_eqI:
  assumes "bit (s :: u32) 0 = bit t 0" and "drop_bit 1 s = drop_bit 1 t"
  shows "s = t"
proof (rule bit_word_eqI)
  fix n :: nat
  from assms(2) have "bit (drop_bit 1 s) m = bit (drop_bit 1 t) m" for m by simp
  then have "bit s (Suc m) = bit t (Suc m)" for m by (simp add: bit_drop_bit_eq)
  with assms(1) show "bit s n = bit t n" by (cases n) auto
qed

lemma xor_right_cancel: "a XOR m = b XOR m \<longleftrightarrow> a = (b :: u32)"
  by (metis xor.assoc xor_self_eq xor.right_neutral)

lemma inj_lfsr32: "inj lfsr32"
proof (rule injI)
  fix s t assume e: "lfsr32 s = lfsr32 t"
  have "bit (lfsr32 x) 31 = bit x 0" for x
    by (simp add: lfsr32_def neg_lsb bit_simps no_bit_32)
  with e have b: "bit s 0 = bit t 0" by metis
  with e have "drop_bit 1 s = drop_bit 1 t"
    by (simp add: lfsr32_def neg_lsb xor_right_cancel split: if_splits)
  with b show "s = t" by (rule u32_split_eqI)
qed

definition states23 :: "u32 set" where
  "states23 = {s. \<forall>n\<ge>23. \<not> bit s n}"

lemma bit_mask23: "23 \<le> n \<Longrightarrow> \<not> bit (0x400010 :: u32) n"
proof -
  have "take_bit 23 (0x400010 :: u32) = 0x400010" by simp
  then have "bit (0x400010 :: u32) n \<Longrightarrow> n < 23" by (metis bit_take_bit_iff)
  then show "23 \<le> n \<Longrightarrow> \<not> bit (0x400010 :: u32) n" by auto
qed

lemma states23_iff: "s \<in> states23 \<longleftrightarrow> s < 2 ^ 23"
proof -
  have "s \<in> states23 \<longleftrightarrow> take_bit 23 s = s"
  proof
    assume "s \<in> states23"
    then show "take_bit 23 s = s"
      by (intro bit_word_eqI) (auto simp: states23_def bit_take_bit_iff not_le)
  next
    assume "take_bit 23 s = s"
    then have "bit s n \<Longrightarrow> n < 23" for n by (metis bit_take_bit_iff)
    then show "s \<in> states23" unfolding states23_def mem_Collect_eq by (meson not_le)
  qed
  also have "\<dots> \<longleftrightarrow> unat s mod 2 ^ 23 = unat s"
    by (metis take_bit_eq_mod unsigned_take_bit_eq unsigned_word_eqI)
  also have "\<dots> \<longleftrightarrow> s < 2 ^ 23"
    by (simp add: word_less_nat_alt mod_eq_self_iff_div_eq_0 div_eq_0_iff)
  finally show ?thesis .
qed

lemma lfsr23_closed: "s \<in> states23 \<Longrightarrow> lfsr23 s \<in> states23"
  using bit_mask23 by (auto simp: states23_def lfsr23_def neg_lsb bit_simps)

lemma inj_lfsr23: "inj_on lfsr23 states23"
proof (rule inj_onI)
  fix s t assume st: "s \<in> states23" "t \<in> states23" and e: "lfsr23 s = lfsr23 t"
  have "bit (lfsr23 x) 22 = bit x 0" if "x \<in> states23" for x
    using that by (simp add: lfsr23_def neg_lsb bit_simps states23_def)
  with e st have b: "bit s 0 = bit t 0" by metis
  with e have "drop_bit 1 s = drop_bit 1 t"
    by (simp add: lfsr23_def neg_lsb xor_right_cancel split: if_splits)
  with b show "s = t" by (rule u32_split_eqI)
qed

interpretation lfsr32: shift_register lfsr32 UNIV
  by unfold_locales (simp_all add: inj_lfsr32 lfsr32_def)

interpretation lfsr23: shift_register lfsr23 states23
  by unfold_locales (simp_all add: inj_lfsr23 lfsr23_closed, simp_all add: lfsr23_def states23_def)

section \<open>What the routines compute\<close>

text \<open>
  Byte \<open>i\<close> of the register's output for a seed, and the first \<open>n\<close> bytes: the reference that
  the word-at-a-time routines are compared with.
\<close>

definition lfsr_byte :: "lfsr \<Rightarrow> u32 \<Rightarrow> nat \<Rightarrow> byte" where
  "lfsr_byte L c i = le_bytes ((L ^^ Suc (i div 4)) c) ! (i mod 4)"

definition pattern :: "lfsr \<Rightarrow> u32 \<Rightarrow> nat \<Rightarrow> byte list" where
  "pattern L c n = map (lfsr_byte L c) [0..<n]"

lemma length_pattern [simp]: "length (pattern L c n) = n"
  by (simp add: pattern_def)

lemma nth_pattern [simp]: "i < n \<Longrightarrow> pattern L c n ! i = lfsr_byte L c i"
  by (simp add: pattern_def)

lemma pattern_0 [simp]: "pattern L c 0 = []"
  by (simp add: pattern_def)

lemma lfsr_byte_shift: "lfsr_byte L c (i + 4) = lfsr_byte L (L c) i"
  by (simp add: lfsr_byte_def funpow_swap1)

lemma lfsr_byte_first: "i < 4 \<Longrightarrow> lfsr_byte L c i = le_bytes (L c) ! i"
  by (simp add: lfsr_byte_def)

lemma pattern_word: "pattern L c (4 + n) = le_bytes (L c) @ pattern L (L c) n"
proof (rule nth_equalityI)
  fix i assume "i < length (pattern L c (4 + n))"
  then show "pattern L c (4 + n) ! i = (le_bytes (L c) @ pattern L (L c) n) ! i"
    using lfsr_byte_shift [of L c "i - 4"] by (auto simp: nth_append lfsr_byte_first)
qed simp

lemma pattern_tail:
  assumes "r \<le> 4"
  shows "pattern L c (4 * j + r) = pattern L c (4 * j) @ take r (le_bytes (L ((L ^^ j) c)))"
proof (rule nth_equalityI)
  fix i assume "i < length (pattern L c (4 * j + r))"
  then have i: "i < 4 * j + r" by simp
  show "pattern L c (4 * j + r) ! i
      = (pattern L c (4 * j) @ take r (le_bytes (L ((L ^^ j) c)))) ! i"
  proof (cases "i < 4 * j")
    case True
    with i show ?thesis by (simp add: nth_append)
  next
    case False
    define d where "d = i - 4 * j"
    from False i assms have "i = d + 4 * j" "d < 4" "d < r" by (auto simp: d_def)
    then show ?thesis by (simp add: nth_append lfsr_byte_def)
  qed
qed (use assms in simp)

lemma unat_low2: "unat (n AND 3 :: u64) = unat n mod 4"
proof -
  have "take_bit 2 n = n AND 3" by (simp add: take_bit_eq_mask mask_eq_exp_minus_1)
  moreover have "unat (take_bit 2 n) = unat n mod 4"
    by (subst unsigned_take_bit_eq) (simp add: take_bit_eq_mod)
  ultimately show ?thesis by simp
qed

lemma unat_high62: "unat (n AND - 4 :: u64) = 4 * (unat n div 4)"
proof -
  have "n - (n AND 3) = n AND NOT (n AND 3)"
    by (rule disjunctive_diff_eq_and_not) (rule bit_word_eqI, auto simp: bit_simps)
  also have "\<dots> = n AND NOT 3" by (rule bit_word_eqI) (auto simp: bit_simps)
  also have "NOT 3 = (- 4 :: u64)" by simp
  finally have eq: "n AND - 4 = n - (n AND 3)" ..
  have "unat (n - (n AND 3)) = unat n - unat (n AND 3)"
    by (rule unat_sub) (simp only: word_le_nat_alt unat_low2 mod_less_eq_dividend)
  then show ?thesis by (simp only: eq unat_low2 minus_mod_eq_mult_div)
qed

lemma lfsrset_words_spec:
  "valid h (s + 4 * k) (4 * j) \<Longrightarrow>
   lfsrset_words L s (4 * (k + j)) (4 * k) h d
     = Inr (store h (s + 4 * k) (pattern L d (4 * j)), (L ^^ j) d)"
proof (induction j arbitrary: k h d)
  case 0
  then show ?case by (simp add: lfsrset_words.simps)
next
  case (Suc j)
  let ?h = "store h (s + 4 * k) (le_bytes (L d))"
  from Suc.prems have v: "valid h (s + 4 * k) 4" by (rule valid_sub0) simp
  have v2: "valid ?h (s + 4 * Suc k) (4 * j)"
    using valid_sub [OF Suc.prems, of 4 "4 * j"] by (simp add: add.commute add.left_commute)
  have IH: "lfsrset_words L s (4 * (Suc k + j)) (4 * Suc k) ?h (L d)
    = Inr (store ?h (s + 4 * Suc k) (pattern L (L d) (4 * j)), (L ^^ j) (L d))"
    by (rule Suc.IH [OF v2])
  have "store ?h (s + 4 * Suc k) (pattern L (L d) (4 * j))
      = store h (s + 4 * k) (le_bytes (L d) @ pattern L (L d) (4 * j))"
    by (rule store_append') simp
  also have "\<dots> = store h (s + 4 * k) (pattern L d (4 * Suc j))"
    using pattern_word [of L d "4 * j"] by simp
  finally have st: "store ?h (s + 4 * Suc k) (pattern L (L d) (4 * j))
      = store h (s + 4 * k) (pattern L d (4 * Suc j))" .
  have "lfsrset_words L s (4 * (k + Suc j)) (4 * k) h d
      = lfsrset_words L s (4 * (Suc k + j)) (4 * Suc k) ?h (L d)"
    using v by (subst lfsrset_words.simps) (simp add: Let_def add.commute)
  then show ?case by (simp only: IH st) (simp add: funpow_swap1)
qed

lemma lfsrset_bytes_spec:
  "valid h (s + e + i) (r - i) \<Longrightarrow> r \<le> 4 \<Longrightarrow>
   lfsrset_bytes s e r d i h = Inr (store h (s + e + i) (drop i (take r (le_bytes d))))"
proof (induction "r - i" arbitrary: i h)
  case 0
  then show ?case by (simp add: lfsrset_bytes.simps)
next
  case (Suc m)
  let ?b = "le_bytes d ! i"
  let ?h = "store h (s + e + i) [?b]"
  from Suc.hyps Suc.prems have i: "i < r" "i < length (take r (le_bytes d))" by auto
  from Suc.prems(1) have v: "valid h (s + e + i) 1" by (rule valid_sub0) (use i in simp)
  have "valid ?h (s + e + (i + 1)) (r - (i + 1))"
    using valid_sub [OF Suc.prems(1), of 1 "r - (i + 1)"] i by (simp add: add.assoc)
  then have IH: "lfsrset_bytes s e r d (i + 1) ?h
      = Inr (store ?h (s + e + (i + 1)) (drop (i + 1) (take r (le_bytes d))))"
    using Suc.hyps Suc.prems(2) by simp
  have "drop i (take r (le_bytes d)) = [?b] @ drop (i + 1) (take r (le_bytes d))"
    using Cons_nth_drop_Suc [OF i(2)] i by simp
  moreover have "store ?h (s + e + (i + 1)) (drop (i + 1) (take r (le_bytes d)))
      = store h (s + e + i) ([?b] @ drop (i + 1) (take r (le_bytes d)))"
    by (rule store_append') simp
  moreover have "lfsrset_bytes s e r d i h = lfsrset_bytes s e r d (i + 1) ?h"
    using v i by (subst lfsrset_bytes.simps) (simp add: ac_simps)
  ultimately show ?case by (simp only: IH)
qed

text \<open>\<open>lfsrset\<close> writes exactly the reference pattern, byte tail included.\<close>

lemma lfsrset_spec:
  assumes "valid (heap w) s (unat n)"
  shows "lfsrset L s c n w =
    Inr (w\<lparr>heap := store (heap w) s (pattern L (word_of_int c) (unat n)),
           lfsr_data := (L ^^ Suc (unat n div 4)) (word_of_int c)\<rparr>)"
proof -
  define j r where "j = unat n div 4" and "r = unat n mod 4"
  have n: "unat n = 4 * j + r" and r: "r \<le> 4" by (simp_all add: j_def r_def)
  let ?h = "store (heap w) s (pattern L (word_of_int c) (4 * j))"
  let ?d = "L ((L ^^ j) (word_of_int c))"
  have w: "lfsrset_words L s (4 * j) 0 (heap w) (word_of_int c)
      = Inr (?h, (L ^^ j) (word_of_int c))"
    using lfsrset_words_spec [of "heap w" s 0 j L "word_of_int c"] valid_sub0 [OF assms, of "4 * j"]
    by (simp add: n)
  have "valid ?h (s + 4 * j + 0) (r - 0)"
    using valid_sub [OF assms, of "4 * j" r] by (simp add: n)
  then have "lfsrset_bytes s (4 * j) r ?d 0 ?h
      = Inr (store ?h (s + 4 * j + 0) (drop 0 (take r (le_bytes ?d))))"
    using r by (rule lfsrset_bytes_spec)
  also have "store ?h (s + 4 * j + 0) (drop 0 (take r (le_bytes ?d)))
      = store (heap w) s (pattern L (word_of_int c) (4 * j) @ take r (le_bytes ?d))"
    unfolding drop_0 by (rule store_append') simp
  also have "\<dots> = store (heap w) s (pattern L (word_of_int c) (unat n))"
    by (simp add: n pattern_tail [OF r])
  finally show ?thesis
    by (simp add: lfsrset_def unat_low2 unat_high62 w flip: j_def r_def)
qed

lemma lfsrcheck_words_spec:
  "valid h (s + 4 * k) (4 * j) \<Longrightarrow>
   \<exists>ms'. lfsrcheck_words L s (4 * (k + j)) (4 * k) h d ms = Inr (ms @ ms', (L ^^ j) d) \<and>
         (ms' = [] \<longleftrightarrow> load h (s + 4 * k) (4 * j) = pattern L d (4 * j))"
proof (induction j arbitrary: k d ms)
  case 0
  then show ?case by (simp add: lfsrcheck_words.simps)
next
  case (Suc j)
  let ?b = "load h (s + 4 * k) 4"
  let ?m = "if le_word ?b \<noteq> L d
    then [mismatch (4 * k) (s + 4 * k) (uint (L d)) (uint (le_word ?b))] else []"
  from Suc.prems have v: "valid h (s + 4 * k) 4" by (rule valid_sub0) simp
  have "valid h (s + 4 * Suc k) (4 * j)"
    using valid_sub [OF Suc.prems, of 4 "4 * j"] by (simp add: add.commute add.left_commute)
  then obtain ms' where IH: "lfsrcheck_words L s (4 * (Suc k + j)) (4 * Suc k) h (L d) (ms @ ?m)
      = Inr ((ms @ ?m) @ ms', (L ^^ j) (L d))"
    and ms': "ms' = [] \<longleftrightarrow> load h (s + 4 * Suc k) (4 * j) = pattern L (L d) (4 * j)"
    using Suc.IH by blast
  have eq: "lfsrcheck_words L s (4 * (k + Suc j)) (4 * k) h d ms
      = Inr (ms @ ?m @ ms', (L ^^ Suc j) d)"
    using v IH by (subst lfsrcheck_words.simps)
      (auto simp: Let_def add.commute funpow_swap1 split: if_splits)
  have "load h (s + 4 * k) (4 * Suc j) = ?b @ load h (s + 4 * Suc k) (4 * j)"
    using load_append [of h "s + 4 * k" 4 "4 * j"] by (simp add: ac_simps)
  then have "load h (s + 4 * k) (4 * Suc j) = pattern L d (4 * Suc j) \<longleftrightarrow>
      ?b = le_bytes (L d) \<and> load h (s + 4 * Suc k) (4 * j) = pattern L (L d) (4 * j)"
    using pattern_word [of L d "4 * j"] by simp
  also have "?b = le_bytes (L d) \<longleftrightarrow> ?m = []"
    by (metis le_bytes_le_word le_word_le_bytes length_load list.distinct(1))
  finally show ?case using eq ms' by auto
qed

lemma lfsrcheck_bytes_spec:
  "valid h (s + e + i) (r - i) \<Longrightarrow> r \<le> 4 \<Longrightarrow>
   \<exists>ms'. lfsrcheck_bytes s e r d i h ms = Inr (ms @ ms') \<and>
         (ms' = [] \<longleftrightarrow> load h (s + e + i) (r - i) = drop i (take r (le_bytes d)))"
proof (induction "r - i" arbitrary: i ms)
  case 0
  then show ?case by (simp add: lfsrcheck_bytes.simps)
next
  case (Suc m)
  let ?b = "hbytes h (s + e + i)"
  let ?m = "if ?b \<noteq> le_bytes d ! i
    then [mismatch (i + e) (s + (i + e)) (sint (le_bytes d ! i)) (sint ?b)] else []"
  from Suc.hyps Suc.prems have i: "i < r" "i < length (take r (le_bytes d))" by auto
  from Suc.prems(1) have v: "valid h (s + e + i) 1" by (rule valid_sub0) (use i in simp)
  have v1: "valid h (s + e + (i + 1)) (r - (i + 1))"
    using valid_sub [OF Suc.prems(1), of 1 "r - (i + 1)"] i by (simp add: add.assoc)
  have m: "m = r - (i + 1)" using Suc.hyps(2) by simp
  obtain ms' where IH: "lfsrcheck_bytes s e r d (i + 1) h (ms @ ?m) = Inr ((ms @ ?m) @ ms')"
    and ms': "ms' = [] \<longleftrightarrow> load h (s + e + (i + 1)) (r - (i + 1)) = drop (i + 1) (take r (le_bytes d))"
    using Suc.hyps(1) [OF m v1 Suc.prems(2)] by blast
  have v': "valid h (s + (i + e)) (Suc 0)" using v by (simp add: ac_simps)
  have eq: "lfsrcheck_bytes s e r d i h ms = Inr (ms @ ?m @ ms')"
    using v' i IH by (subst lfsrcheck_bytes.simps) (auto simp: Let_def ac_simps split: if_splits)
  have "load h (s + e + i) (r - i) = ?b # load h (s + e + (i + 1)) (r - (i + 1))"
    using load_split [of 1 "r - i" h "s + e + i"] i by (simp add: load_def)
  moreover have "drop i (take r (le_bytes d)) = le_bytes d ! i # drop (i + 1) (take r (le_bytes d))"
    using Cons_nth_drop_Suc [OF i(2)] i by simp
  ultimately have "load h (s + e + i) (r - i) = drop i (take r (le_bytes d)) \<longleftrightarrow> ?m @ ms' = []"
    using ms' by simp
  with eq show ?case by blast
qed

text \<open>
  \<open>lfsrcheck\<close> changes no memory, and prints nothing exactly when the buffer holds the pattern.
\<close>

lemma lfsrcheck_spec:
  assumes "valid (heap w) s (unat n)"
  shows "\<exists>ms. lfsrcheck L s c n w = Inr (w\<lparr>lfsr_data := (L ^^ Suc (unat n div 4)) (word_of_int c),
                                          out := out w @ ms\<rparr>) \<and>
              (ms = [] \<longleftrightarrow> load (heap w) s (unat n) = pattern L (word_of_int c) (unat n))"
proof -
  define j r where "j = unat n div 4" and "r = unat n mod 4"
  have n: "unat n = 4 * j + r" and r: "r \<le> 4" by (simp_all add: j_def r_def)
  let ?c = "word_of_int c"
  let ?d = "L ((L ^^ j) ?c)"
  obtain ms1 where w: "lfsrcheck_words L s (4 * j) 0 (heap w) ?c [] = Inr (ms1, (L ^^ j) ?c)"
    and ms1: "ms1 = [] \<longleftrightarrow> load (heap w) s (4 * j) = pattern L ?c (4 * j)"
    using lfsrcheck_words_spec [of "heap w" s 0 j L ?c "[]"] valid_sub0 [OF assms, of "4 * j"]
    by (auto simp: n)
  obtain ms2 where b: "lfsrcheck_bytes s (4 * j) r ?d 0 (heap w) ms1 = Inr (ms1 @ ms2)"
    and ms2: "ms2 = [] \<longleftrightarrow> load (heap w) (s + 4 * j) r = take r (le_bytes ?d)"
    using lfsrcheck_bytes_spec [of "heap w" s "4 * j" 0 r ?d ms1] valid_sub [OF assms, of "4 * j" r] r
    by (auto simp: n)
  have "load (heap w) s (unat n) = pattern L ?c (unat n) \<longleftrightarrow> ms1 @ ms2 = []"
    unfolding n load_append pattern_tail [OF r] using ms1 ms2 by simp
  moreover have "lfsrcheck L s c n w
      = Inr (w\<lparr>lfsr_data := (L ^^ Suc (unat n div 4)) ?c, out := out w @ ms1 @ ms2\<rparr>)"
    by (simp add: lfsrcheck_def unat_low2 unat_high62 w b flip: j_def r_def)
  ultimately show ?thesis by blast
qed

section \<open>Correctness of the routines\<close>

text \<open>A state with one live block of \<open>n\<close> bytes at address 1, for examples.\<close>

definition sample_world :: "nat \<Rightarrow> (unit, unit) world" where
  "sample_world n = \<lparr>self = \<lparr>args = \<lparr>cache = 0, host = [], servicefd = 0, commfd = 0, port = 0, r_buff = 1,
     r_buff_orig = 1, r_ptr = 1, r_ptr_saved = 1, s_buff = 1, s_buff_orig = 1, s_ptr = 1, bufflen = int n,
     upper = 0, tr = 0, rcv = 0, bidir = 0, source_node = 0, preburst = 0, reset_conn = 0, soffset = 0,
     roffset = 0, syncflag = 0, use_sdp = 0, prot = ()\<rparr>, outname = [], len_buf_align = 0, asyncReceive = 0,
     bufalign = 0, streamopt = 0, integCheck = 0\<rparr>,
     heap = \<lparr>hbytes = (\<lambda>_. 0), hblocks = [(1, n)]\<rparr>, lfsr_data = 0, fcflag = 0, glob = (), out = []\<rparr>"

lemma sample_valid: "k \<le> n \<Longrightarrow> valid (heap (sample_world n)) (Suc 0) k"
  by (simp add: sample_world_def valid_def)

text \<open>
  C4: A buffer filled by \<open>lfsrset\<close> passes \<open>lfsrcheck\<close> with the same seed and length, for every
  register and every length, also one that is not a multiple of four: neither routine touches
  memory outside the buffer, nothing is printed, and the buffer holds the register's output.
\<close>

theorem lfsrset_then_lfsrcheck:
  assumes "valid (heap w) s (unat n)"
  shows "res_bind (lfsrset L s c n w) (lfsrcheck L s c n)
    = Inr (w\<lparr>heap := store (heap w) s (pattern L (word_of_int c) (unat n)),
            lfsr_data := (L ^^ Suc (unat n div 4)) (word_of_int c)\<rparr>)"
proof -
  let ?h = "store (heap w) s (pattern L (word_of_int c) (unat n))"
  let ?w = "w\<lparr>heap := ?h, lfsr_data := (L ^^ Suc (unat n div 4)) (word_of_int c)\<rparr>"
  have "load ?h s (unat n) = pattern L (word_of_int c) (unat n)"
    using load_store_same [of "heap w" s "pattern L (word_of_int c) (unat n)"] by simp
  moreover have "valid (heap ?w) s (unat n)" using assms by simp
  ultimately have "lfsrcheck L s c n ?w = Inr (?w\<lparr>out := out w @ []\<rparr>)"
    using lfsrcheck_spec [of ?w s n L c] by auto
  then show ?thesis using assms by (simp add: lfsrset_spec)
qed

theorem lfsrset_then_lfsrcheck_witness:
  "res_bind (lfsrset lfsr23 1 98 6 (sample_world 10)) (lfsrcheck lfsr23 1 98 6)
    = Inr ((sample_world 10)\<lparr>heap := store (heap (sample_world 10)) 1 (pattern lfsr23 98 6),
            lfsr_data := lfsr23 (lfsr23 98)\<rparr>)"
  using lfsrset_then_lfsrcheck [of "sample_world 10" 1 6 lfsr23 98] by (simp add: sample_valid)

text \<open>
  C5: Damage is reported.  If a buffer was filled by \<open>lfsrset\<close> and one of its bytes has since
  changed, \<open>lfsrcheck\<close> prints at least one message, and leaves the memory as it is.
\<close>

theorem lfsrcheck_reports_damage:
  assumes "valid (heap w) s (unat n)" and "i < unat n"
    and "b \<noteq> pattern L (word_of_int c) (unat n) ! i"
  shows "\<exists>w1 w2 ms. lfsrset L s c n w = Inr w1 \<and>
    lfsrcheck L s c n (upd_heap (store (heap w1) (s + i) [b]) w1) = Inr w2 \<and>
    heap w2 = store (heap w1) (s + i) [b] \<and> out w2 = out w @ ms \<and> ms \<noteq> []"
proof -
  let ?p = "pattern L (word_of_int c) (unat n)"
  let ?w1 = "w\<lparr>heap := store (heap w) s ?p, lfsr_data := (L ^^ Suc (unat n div 4)) (word_of_int c)\<rparr>"
  let ?h = "store (heap ?w1) (s + i) [b]"
  have "load ?h s (unat n) ! i = b" using assms(2) by (simp add: hbytes_store)
  with assms(3) have "load ?h s (unat n) \<noteq> ?p" by metis
  moreover have "valid (heap (upd_heap ?h ?w1)) s (unat n)" using assms(1) by simp
  ultimately obtain ms where "lfsrcheck L s c n (upd_heap ?h ?w1) =
      Inr ((upd_heap ?h ?w1)\<lparr>lfsr_data := (L ^^ Suc (unat n div 4)) (word_of_int c), out := out w @ ms\<rparr>)"
      "ms \<noteq> []"
    using lfsrcheck_spec [of "upd_heap ?h ?w1" s n L c] by auto
  then show ?thesis using assms(1) by (simp add: lfsrset_spec)
qed

theorem lfsrcheck_reports_damage_witness:
  "\<exists>w1 w2 ms. lfsrset lfsr23 1 98 6 (sample_world 10) = Inr w1 \<and>
    lfsrcheck lfsr23 1 98 6 (upd_heap (store (heap w1) 6 [7]) w1) = Inr w2 \<and>
    heap w2 = store (heap w1) 6 [7] \<and> out w2 = out (sample_world 10) @ ms \<and> ms \<noteq> []"
proof -
  have "pattern lfsr23 98 6 ! 5 \<noteq> 7" by code_simp
  then show ?thesis
    using lfsrcheck_reports_damage [of "sample_world 10" 1 6 5 7 lfsr23 98]
    by (simp add: sample_valid)
qed

text \<open>
  Seeds are told apart.  Two different seeds of the 23-bit register give outputs that differ
  within the first four bytes, so a buffer of at least four bytes that still holds the pattern
  of one seed never passes the check for the other.
\<close>

theorem lfsr23_seeds_distinguished:
  assumes "c < 2 ^ 23" and "d < 2 ^ 23" and "4 \<le> n"
  shows "pattern lfsr23 c n = pattern lfsr23 d n \<longleftrightarrow> c = d"
proof
  assume e: "pattern lfsr23 c n = pattern lfsr23 d n"
  have "take 4 (pattern lfsr23 x n) = le_bytes (lfsr23 x)" for x
    using pattern_word [of lfsr23 x "n - 4"] assms(3) by simp
  with e have "lfsr23 c = lfsr23 d" by (metis le_bytes_inject)
  then show "c = d" using assms inj_lfsr23 by (simp add: states23_iff inj_on_eq_iff)
qed simp

theorem lfsr23_seeds_distinguished_witness: "pattern lfsr23 97 9 \<noteq> pattern lfsr23 98 9"
  using lfsr23_seeds_distinguished [of 97 98 9] by simp

lemma high_byte_0:
  assumes "(w :: u32) < 2 ^ 23"
  shows "le_bytes w ! 3 = 0"
proof -
  have "unat w < 2 ^ 24" using assms by (simp add: word_less_nat_alt)
  then have "drop_bit 24 w = 0" by (intro word_unat_eq_iff [THEN iffD2]) (simp add: drop_bit_eq_div unat_div_distrib)
  then show ?thesis by (simp add: le_bytes_def)
qed

text \<open>
  C38: The 23-bit register, started in a nonzero state below \<open>2^23\<close>, never reaches 0 and never
  leaves 23 bits.  So the words of the pattern are never 0, but the last byte of each of them always is.
\<close>

theorem lfsr23_never_zero:
  assumes "s < 2 ^ 23" and "s \<noteq> 0"
  shows "(lfsr23 ^^ n) s \<noteq> 0 \<and> (lfsr23 ^^ n) s < 2 ^ 23 \<and> le_bytes ((lfsr23 ^^ n) s) ! 3 = 0"
proof -
  have "(lfsr23 ^^ n) s < 2 ^ 23"
    using assms lfsr23.iterate_closed [of s n] by (simp add: states23_iff)
  moreover have "(lfsr23 ^^ n) s \<noteq> 0" using assms lfsr23.never_zero [of s n] by (simp add: states23_iff)
  ultimately show ?thesis using high_byte_0 by blast
qed

theorem lfsr23_never_zero_witness: "(lfsr23 ^^ 1000) 98 \<noteq> 0 \<and> (lfsr23 ^^ 1000) 98 < 2 ^ 23 \<and> le_bytes ((lfsr23 ^^ 1000) 98) ! 3 = 0"
  using lfsr23_never_zero [of 98 1000] by simp

text \<open>
  The register for the 64b/66b polynomial loses its feedback: the constant's low 32 bits are
  0, so each step only shifts right, and 32 steps take every state to 0.
\<close>

theorem lfsr58_dies: "lfsr58 s = drop_bit 1 s \<and> (lfsr58 ^^ 32) s = 0"
proof -
  have "take_bit 32 (0x200002000000000 :: u64) = 0" by simp
  then have low: "\<not> bit (0x200002000000000 :: u64) n" if "n < 32" for n
    using that by (metis bit_0_eq bit_take_bit_iff bot_apply bot_bool_def)
  have *: "lfsr58 t = drop_bit 1 t" for t :: u32
    by (rule bit_word_eqI) (use low in \<open>auto simp: lfsr58_def bit_simps neg_lsb\<close>)
  have "(lfsr58 ^^ n) s = drop_bit n s" for n
    by (induction n) (simp_all add: * drop_bit_drop_bit add.commute)
  then show ?thesis using * drop_bit_word_beyond [of 32 s] by simp
qed

end
