(* ===== verification/Buffers.thy ===== *)
theory Buffers
  imports Lfsr
begin

text \<open>
  The module-independent buffer routines of \<open>netpipe.c\<close>: cache flushing, the integrity data,
  alignment, the walking send and receive pointers, and the allocation, initialisation,
  checking and release of the message buffers.
\<close>

unbundle bit_operations_syntax

section \<open>mymemset and flushcache\<close>

definition mymemset :: "addr \<Rightarrow> int \<Rightarrow> int \<Rightarrow> cheap \<Rightarrow> cheap res" where
  "mymemset ptr c n h =
     for_up (nat n) 0 (\<lambda>i h. cstore h (ptr + 4 * i) (le_bytes (word_of_int c))) h"

text \<open>
  \<open>flushcache\<close> keeps a static flag and adds or subtracts 1; \<open>int\<close> arithmetic is two's
  complement here.
\<close>

definition add_words :: "addr \<Rightarrow> int \<Rightarrow> u32 \<Rightarrow> cheap \<Rightarrow> cheap res" where
  "add_words ptr n d h =
     for_up (nat n) 0 (\<lambda>i h.
       res_bind (cload h (ptr + 4 * i) 4) (\<lambda>bs.
       cstore h (ptr + 4 * i) (le_bytes (le_word bs + d)))) h"

definition flushcache :: "addr \<Rightarrow> int \<Rightarrow> ('p, 'g) world \<Rightarrow> ('p, 'g) world res" where
  "flushcache ptr n w =
     (let flag = (fcflag w + 1) mod 2
      in res_bind (if flag = 0 then add_words ptr n 1 (heap w) else add_words ptr n (- 1) (heap w))
           (\<lambda>h. Inr (w\<lparr>heap := h, fcflag := flag\<rparr>)))"

section \<open>Integrity data\<close>

text \<open>\<open>bufflen / sizeof(int)\<close>, an unsigned 64-bit division converted back to \<open>int\<close>.\<close>

definition num_segments :: "int \<Rightarrow> int" where
  "num_segments len = sint (ucast ((word_of_int len :: u64) div 4) :: u32)"

definition SetIntegrityData :: "('p, 'g) world \<Rightarrow> ('p, 'g) world res" where
  "SetIntegrityData w =
     res_bind
       (for_up (nat (num_segments (bufflen (p_of w)))) 0
          (\<lambda>i h. cstore h (s_ptr (p_of w) + 4 * i) (le_bytes (word_of_int (int i)))) (heap w))
       (\<lambda>h. Inr (upd_heap h w))"

text \<open>The loop of \<open>VerifyIntegrity\<close>: the index where it breaks, if it does.\<close>

primrec verify_loop :: "nat \<Rightarrow> nat \<Rightarrow> addr \<Rightarrow> cheap \<Rightarrow> (nat option) res" where
  "verify_loop 0 i p h = Inr None"
| "verify_loop (Suc k) i p h =
     res_bind (cload h (p + 4 * i) 4) (\<lambda>bs.
       if le_word bs \<noteq> word_of_int (int i) then Inr (Some i) else verify_loop k (Suc i) p h)"

definition VerifyIntegrity :: "('p, 'g) world \<Rightarrow> ('p, 'g) world res" where
  "VerifyIntegrity w =
     res_bind (verify_loop (nat (num_segments (bufflen (p_of w)))) 0 (r_ptr (p_of w)) (heap w))
       (\<lambda>broken. case broken of None \<Rightarrow> Inr w | Some i \<Rightarrow> Inl (Exit (- 1)))"

section \<open>Alignment and the walking pointers\<close>

definition AlignBuffer :: "addr \<Rightarrow> int \<Rightarrow> addr" where
  "AlignBuffer buff boundary =
     (if boundary = 0 then buff
      else unat ((word_of_nat buff :: u64)
             + (word_of_int boundary - word_of_nat buff mod word_of_int boundary)))"

definition AdvanceSendPtr :: "int \<Rightarrow> ('p, 'g) world \<Rightarrow> ('p, 'g) world" where
  "AdvanceSendPtr blocksize = upd_args (\<lambda>p.
     if int (s_ptr p) + blocksize < int (s_buff p) + MEMSIZE - blocksize
     then p\<lparr>s_ptr := nat (int (s_ptr p) + blocksize)\<rparr>
     else p\<lparr>s_ptr := s_buff p\<rparr>)"

definition AdvanceRecvPtr :: "int \<Rightarrow> ('p, 'g) world \<Rightarrow> ('p, 'g) world" where
  "AdvanceRecvPtr blocksize = upd_args (\<lambda>p.
     if int (r_ptr p) + blocksize < int (r_buff p) + MEMSIZE - blocksize
     then p\<lparr>r_ptr := nat (int (r_ptr p) + blocksize)\<rparr>
     else p\<lparr>r_ptr := r_buff p\<rparr>)"

definition SaveRecvPtr :: "('p, 'g) world \<Rightarrow> ('p, 'g) world" where
  "SaveRecvPtr = upd_args (\<lambda>p. p\<lparr>r_ptr_saved := r_ptr p\<rparr>)"

definition ResetRecvPtr :: "('p, 'g) world \<Rightarrow> ('p, 'g) world" where
  "ResetRecvPtr = upd_args (\<lambda>p. p\<lparr>r_ptr := r_ptr_saved p\<rparr>)"

section \<open>Message buffers\<close>

text \<open>An \<open>int\<close> passed where a \<open>size_t\<close> is expected.\<close>

definition size_t :: "int \<Rightarrow> u64" where
  "size_t n = word_of_int n"

text \<open>The characters \<open>'a'\<close> and \<open>'b'\<close> that seed the two patterns.\<close>

abbreviation (input) chr_a :: int where "chr_a \<equiv> 97"
abbreviation (input) chr_b :: int where "chr_b \<equiv> 98"

definition InitBufferData :: "lfsr \<Rightarrow> int \<Rightarrow> int \<Rightarrow> int \<Rightarrow> ('p, 'g) world \<Rightarrow> ('p, 'g) world res" where
  "InitBufferData L nbytes soff roff w =
     res_bind (lfsrset L (r_buff (p_of w)) chr_a (size_t (nbytes + CMAX soff roff)) w) (\<lambda>w.
     if cache (p_of w) \<noteq> 0
     then put_bytes w (nat (int (r_buff (p_of w)) + (nbytes + CMAX soff roff) - 1)) [0]
     else lfsrset L (s_buff (p_of w)) chr_b (size_t (nbytes + CMAX soff roff)) w)"

definition CheckBufferData :: "lfsr \<Rightarrow> int \<Rightarrow> int \<Rightarrow> int \<Rightarrow> ('p, 'g) world \<Rightarrow> ('p, 'g) world res" where
  "CheckBufferData L nbytes soff roff w =
     lfsrcheck L (r_buff (p_of w)) chr_b (size_t (nbytes + CMAX soff roff)) w"

definition MyMalloc :: "allocator \<Rightarrow> int \<Rightarrow> int \<Rightarrow> int \<Rightarrow> ('p, 'g) world \<Rightarrow> ('p, 'g) world res" where
  "MyMalloc alloc len soff roff w =
     (case malloc alloc (heap w) (unat (size_t (len + CMAX soff roff))) of (p, h) \<Rightarrow>
      if p = NULL then Inl (Exit (- 1))
      else let w = upd_args (\<lambda>a. a\<lparr>r_buff := p\<rparr>) (upd_heap h w) in
           if cache (p_of w) = 0
           then (case malloc alloc (heap w) (unat (size_t (len + soff))) of (q, h) \<Rightarrow>
                 if q = NULL then Inl (Exit (- 1))
                 else Inr (upd_args (\<lambda>a. a\<lparr>s_buff := q\<rparr>) (upd_heap h w)))
           else Inr w)"

definition FreeBuff :: "addr \<Rightarrow> addr \<Rightarrow> ('p, 'g) world \<Rightarrow> ('p, 'g) world res" where
  "FreeBuff buff1 buff2 w =
     res_bind (if buff1 \<noteq> NULL then free (heap w) buff1 else Inr (heap w)) (\<lambda>h.
     res_bind (if buff2 \<noteq> NULL then free h buff2 else Inr h) (\<lambda>h.
     Inr (upd_heap h w)))"

section \<open>Properties\<close>

lemma unat_size_t [simp]: "0 \<le> n \<Longrightarrow> n < 2 ^ 63 \<Longrightarrow> unat (size_t n) = nat n"
  by (simp add: size_t_def unat_eq_nat_uint uint_word_of_int_eq take_bit_int_eq_self)

lemma CMAX_00 [simp]: "CMAX 0 0 = 0"
  by (simp add: CMAX_def)

lemma num_segments_eq:
  assumes "0 \<le> len" and "len < 2 ^ 31"
  shows "num_segments len = len div 4"
proof -
  have "uint (word_of_int len :: u64) = len"
    using assms by (simp add: uint_word_of_int_eq take_bit_int_eq_self)
  then have "(word_of_int len :: u64) div 4 = word_of_int (len div 4)"
    by (simp add: word_div_def)
  moreover have "(ucast (word_of_int (len div 4) :: u64) :: u32) = word_of_int (len div 4)"
    by (simp add: unsigned_of_int take_bit_int_eq_self)
       (use assms in \<open>simp add: take_bit_int_eq_self\<close>)
  moreover have "sint (word_of_int (len div 4) :: u32) = len div 4"
    using assms by (simp add: sint_sbintrunc' signed_take_bit_int_eq_self)
  ultimately show ?thesis by (simp add: num_segments_def)
qed

subsection \<open>Word loops\<close>

text \<open>Writing consecutive 32-bit words \<open>f 0, f 1, \<dots>\<close> through a pointer.\<close>

definition words_bytes :: "(nat \<Rightarrow> u32) \<Rightarrow> nat \<Rightarrow> byte list" where
  "words_bytes f n = concat (map (\<lambda>i. le_bytes (f i)) [0..<n])"

lemma length_words_bytes [simp]: "length (words_bytes f n) = 4 * n"
  by (induction n) (simp_all add: words_bytes_def)

lemma words_bytes_Suc: "words_bytes f (Suc n) = words_bytes f n @ le_bytes (f n)"
  by (simp add: words_bytes_def)

lemma store_words:
  assumes "valid h p (4 * n)"
  shows "for_up n 0 (\<lambda>i h. cstore h (p + 4 * i) (le_bytes (f i))) h
    = Inr (store h p (words_bytes f n))"
proof -
  have "\<exists>h'. for_up n 0 (\<lambda>i h. cstore h (p + 4 * i) (le_bytes (f i))) h = Inr h' \<and>
      h' = store h p (words_bytes f (0 + n))"
  proof (rule for_up_rule)
    show "h = store h p (words_bytes f 0)" by (simp add: words_bytes_def)
  next
    fix i h' assume "i < 0 + n" and h': "h' = store h p (words_bytes f i)"
    then have "valid h' (p + 4 * i) 4" using valid_sub [OF assms, of "4 * i" 4] by simp
    moreover have "store h' (p + 4 * i) (le_bytes (f i)) = store h p (words_bytes f (Suc i))"
      unfolding h' words_bytes_Suc by (rule store_append') simp
    ultimately show "\<exists>h''. cstore h' (p + 4 * i) (le_bytes (f i)) = Inr h'' \<and>
        h'' = store h p (words_bytes f (Suc i))" by simp
  qed
  then show ?thesis by simp
qed

lemma nth_words_bytes: "i < n \<Longrightarrow> take 4 (drop (4 * i) (words_bytes f n)) = le_bytes (f i)"
proof (induction n)
  case (Suc n)
  then show ?case by (cases "i = n") (auto simp: words_bytes_Suc)
qed simp

lemma load_words_iff:
  "load h p (4 * n) = words_bytes f n \<longleftrightarrow> (\<forall>i<n. le_word (load h (p + 4 * i) 4) = f i)"
proof (induction n)
  case (Suc n)
  have "load h p (4 * Suc n) = load h p (4 * n) @ load h (p + 4 * n) 4"
    using load_append [of h p "4 * n" 4] by (simp add: add.commute)
  then have "load h p (4 * Suc n) = words_bytes f (Suc n) \<longleftrightarrow>
      load h p (4 * n) = words_bytes f n \<and> load h (p + 4 * n) 4 = le_bytes (f n)"
    by (simp add: words_bytes_Suc)
  also have "load h (p + 4 * n) 4 = le_bytes (f n) \<longleftrightarrow> le_word (load h (p + 4 * n) 4) = f n"
    by (metis le_bytes_le_word le_word_le_bytes length_load)
  finally show ?case using Suc by (auto simp: less_Suc_eq)
qed (simp add: words_bytes_def)

lemma mymemset_spec:
  "valid h ptr (4 * nat n) \<Longrightarrow>
   mymemset ptr c n h = Inr (store h ptr (words_bytes (\<lambda>_. word_of_int c) (nat n)))"
  by (simp add: mymemset_def store_words)

lemma add_words_spec:
  assumes "valid h p (4 * nat n)"
  shows "add_words p n d h
    = Inr (store h p (words_bytes (\<lambda>i. le_word (load h (p + 4 * i) 4) + d) (nat n)))"
proof -
  let ?f = "\<lambda>i. le_word (load h (p + 4 * i) 4) + d"
  have "\<exists>h'. add_words p n d h = Inr h' \<and> h' = store h p (words_bytes ?f (0 + nat n))"
    unfolding add_words_def
  proof (rule for_up_rule)
    show "h = store h p (words_bytes ?f 0)" by (simp add: words_bytes_def)
  next
    fix i h' assume i: "i < 0 + nat n" and h': "h' = store h p (words_bytes ?f i)"
    then have v: "valid h' (p + 4 * i) 4" using valid_sub [OF assms, of "4 * i" 4] by simp
    have "load h' (p + 4 * i) 4 = load h (p + 4 * i) 4"
      unfolding h' by (rule load_store_disjoint) (simp add: disjoint_ranges_def)
    moreover have "store h' (p + 4 * i) (le_bytes (?f i)) = store h p (words_bytes ?f (Suc i))"
      unfolding h' words_bytes_Suc by (rule store_append') simp
    ultimately show "\<exists>h''. res_bind (cload h' (p + 4 * i) 4)
        (\<lambda>bs. cstore h' (p + 4 * i) (le_bytes (le_word bs + d))) = Inr h'' \<and>
        h'' = store h p (words_bytes ?f (Suc i))" using v by simp
  qed
  then show ?thesis by simp
qed

lemma store_store_same: "length xs = length ys \<Longrightarrow> store (store h a xs) a ys = store h a ys"
  by (rule cheap_eqI) (auto simp: heap_simps)

lemma store_load_same: "store h a (load h a n) = h"
  by (rule cheap_eqI) (auto simp: heap_simps)

lemma load_words_sub: "load h p (4 * n) = words_bytes f n \<Longrightarrow> i < n \<Longrightarrow> le_word (load h (p + 4 * i) 4) = f i"
  by (simp add: load_words_iff)

lemma add_words_inverse:
  assumes "valid h p (4 * nat n)"
  shows "res_bind (add_words p n d h) (add_words p n (- d)) = Inr h"
proof -
  let ?f = "\<lambda>i. le_word (load h (p + 4 * i) 4) + d"
  let ?h = "store h p (words_bytes ?f (nat n))"
  let ?g = "\<lambda>i. le_word (load ?h (p + 4 * i) 4) + (- d)"
  have "load ?h p (4 * nat n) = words_bytes ?f (nat n)"
    using load_store_same [of h p "words_bytes ?f (nat n)"] by simp
  then have "?g i = le_word (load h (p + 4 * i) 4)" if "i < nat n" for i
    using load_words_sub [OF _ that, of ?h p ?f] by simp
  then have "words_bytes ?g (nat n) = words_bytes (\<lambda>i. le_word (load h (p + 4 * i) 4)) (nat n)"
    by (auto simp: words_bytes_def intro!: arg_cong [where f = concat])
  also have "\<dots> = load h p (4 * nat n)"
    using load_words_iff [of h p "nat n" "\<lambda>i. le_word (load h (p + 4 * i) 4)"] by simp
  finally have "store ?h p (words_bytes ?g (nat n)) = h"
    by (simp add: store_store_same store_load_same)
  with assms show ?thesis by (simp add: add_words_spec)
qed

subsection \<open>Integrity\<close>

lemma verify_loop_spec:
  "valid h (p + 4 * i) (4 * k) \<Longrightarrow>
   \<exists>b. verify_loop k i p h = Inr b \<and>
       (b = None \<longleftrightarrow> (\<forall>j. i \<le> j \<and> j < i + k \<longrightarrow> le_word (load h (p + 4 * j) 4) = word_of_int (int j)))"
proof (induction k arbitrary: i)
  case (Suc k)
  have v: "valid h (p + 4 * i) 4" using Suc.prems by (rule valid_sub0) simp
  have "valid h (p + 4 * Suc i) (4 * k)"
    using valid_sub [OF Suc.prems, of 4 "4 * k"] by (simp add: ac_simps)
  from Suc.IH [OF this] obtain b where b: "verify_loop k (Suc i) p h = Inr b"
    "b = None \<longleftrightarrow> (\<forall>j. Suc i \<le> j \<and> j < Suc i + k \<longrightarrow>
      le_word (load h (p + 4 * j) 4) = word_of_int (int j))"
    by blast
  have "(\<forall>j. i \<le> j \<and> j < i + Suc k \<longrightarrow> P j) \<longleftrightarrow>
      P i \<and> (\<forall>j. Suc i \<le> j \<and> j < Suc i + k \<longrightarrow> P j)" for P
    by (metis Suc_le_eq add_Suc add_Suc_right le_refl less_add_Suc1 less_imp_le nat_less_le)
  then show ?case using v b by simp
qed auto

lemma SetIntegrityData_spec:
  assumes "valid (heap w) (s_ptr (p_of w)) (4 * nat (num_segments (bufflen (p_of w))))"
  shows "SetIntegrityData w = Inr (upd_heap (store (heap w) (s_ptr (p_of w))
           (words_bytes (\<lambda>i. word_of_int (int i)) (nat (num_segments (bufflen (p_of w)))))) w)"
  using assms by (simp add: SetIntegrityData_def store_words)

lemma VerifyIntegrity_iff:
  assumes "valid (heap w) (r_ptr (p_of w)) (4 * nat (num_segments (bufflen (p_of w))))"
  shows "VerifyIntegrity w =
    (if load (heap w) (r_ptr (p_of w)) (4 * nat (num_segments (bufflen (p_of w))))
        = words_bytes (\<lambda>i. word_of_int (int i)) (nat (num_segments (bufflen (p_of w))))
     then Inr w else Inl (Exit (- 1)))"
proof -
  obtain b where "verify_loop (nat (num_segments (bufflen (p_of w)))) 0 (r_ptr (p_of w)) (heap w) = Inr b"
    and "b = None \<longleftrightarrow> (\<forall>j. 0 \<le> j \<and> j < 0 + nat (num_segments (bufflen (p_of w))) \<longrightarrow>
      le_word (load (heap w) (r_ptr (p_of w) + 4 * j) 4) = word_of_int (int j))"
    using verify_loop_spec [of "heap w" "r_ptr (p_of w)" 0] assms by auto
  then show ?thesis
    by (auto simp: VerifyIntegrity_def load_words_iff split: option.splits)
qed

subsection \<open>Alignment and pointers\<close>

lemma AlignBuffer_eq:
  assumes "0 < b" and "b < 2 ^ 31" and "int buff + b < 2 ^ 64"
  shows "AlignBuffer buff b = buff + (nat b - buff mod nat b)"
proof -
  define n where "n = nat b"
  have b: "b = int n" and n: "0 < n" "n < 2 ^ 31" "buff + n < 2 ^ 64"
    using assms by (auto simp: n_def)
  have ub: "unat (word_of_nat buff :: u64) = buff" and un: "unat (word_of_nat n :: u64) = n"
    using n by (simp_all add: unat_of_nat)
  have um: "unat ((word_of_nat buff :: u64) mod word_of_nat n) = buff mod n"
    by (simp add: unat_mod_distrib ub un)
  have le: "(word_of_nat buff :: u64) mod word_of_nat n \<le> word_of_nat n"
    using n by (simp add: word_le_nat_alt um un less_imp_le)
  have us: "unat ((word_of_nat n :: u64) - word_of_nat buff mod word_of_nat n) = n - buff mod n"
    by (simp add: unat_sub [OF le] um un)
  have "unat ((word_of_nat buff :: u64) + (word_of_nat n - word_of_nat buff mod word_of_nat n))
      = (buff + (n - buff mod n)) mod 2 ^ 64"
    by (simp add: unat_word_ariths(1) ub us)
  also have "\<dots> = buff + (n - buff mod n)"
    using n by (intro mod_less) linarith
  finally show ?thesis using n by (simp add: AlignBuffer_def b)
qed

lemma mod_align: "0 < n \<Longrightarrow> (a + (n - a mod n)) mod n = (0::nat)"
proof -
  assume n: "0 < n"
  then have "a mod n \<le> n" by (simp add: less_imp_le)
  then have "(a + (n - a mod n)) = (a div n) * n + n"
    by (metis add.assoc add_diff_inverse_nat div_mult_mod_eq not_less)
  then show ?thesis by simp
qed

text \<open>
  The walking pointers stay where a whole block fits in the \<open>MEMSIZE\<close> buffer, and a multiple
  of the block size from its start.
\<close>

definition ptr_ok :: "addr \<Rightarrow> addr \<Rightarrow> int \<Rightarrow> bool" where
  "ptr_ok buff ptr b \<longleftrightarrow> buff \<le> ptr \<and> int ptr + b \<le> int buff + MEMSIZE \<and> b dvd int ptr - int buff"

lemma ptr_ok_start: "b \<le> MEMSIZE \<Longrightarrow> ptr_ok buff buff b"
  by (simp add: ptr_ok_def)

lemma ptr_ok_step:
  "0 \<le> b \<Longrightarrow> ptr_ok buff ptr b \<Longrightarrow> int ptr + b < int buff + MEMSIZE - b \<Longrightarrow>
   ptr_ok buff (nat (int ptr + b)) b"
proof -
  assume b: "0 \<le> b" and ok: "ptr_ok buff ptr b" and lt: "int ptr + b < int buff + MEMSIZE - b"
  from ok have "b dvd (int ptr - int buff) + b" by (simp add: ptr_ok_def)
  then have "b dvd int ptr + b - int buff" by (simp add: algebra_simps)
  moreover have "int buff \<le> int ptr + b" using b ok by (simp add: ptr_ok_def)
  ultimately show ?thesis using b ok lt by (simp add: ptr_ok_def le_nat_iff)
qed

lemma AdvanceSendPtr_ok:
  "0 \<le> b \<Longrightarrow> b \<le> MEMSIZE \<Longrightarrow> ptr_ok (s_buff (p_of w)) (s_ptr (p_of w)) b \<Longrightarrow>
   ptr_ok (s_buff (p_of (AdvanceSendPtr b w))) (s_ptr (p_of (AdvanceSendPtr b w))) b"
  by (simp add: AdvanceSendPtr_def ptr_ok_start ptr_ok_step)

lemma AdvanceRecvPtr_ok:
  "0 \<le> b \<Longrightarrow> b \<le> MEMSIZE \<Longrightarrow> ptr_ok (r_buff (p_of w)) (r_ptr (p_of w)) b \<Longrightarrow>
   ptr_ok (r_buff (p_of (AdvanceRecvPtr b w))) (r_ptr (p_of (AdvanceRecvPtr b w))) b"
  by (simp add: AdvanceRecvPtr_def ptr_ok_start ptr_ok_step)

subsection \<open>Allocation, initialisation and release\<close>

lemma malloc_cases:
  assumes "alloc_ok alloc"
  obtains "malloc alloc h n = (NULL, h)"
  | p where "malloc alloc h n = (p, h\<lparr>hblocks := (p, n) # hblocks h\<rparr>)" "p \<noteq> NULL"
      "p \<notin> fst ` set (hblocks h)"
      "\<And>b k. (b, k) \<in> set (hblocks h) \<Longrightarrow> disjoint_ranges p n b k"
proof (cases "alloc h n = NULL")
  case True
  then show ?thesis using that(1) by (simp add: malloc_def)
next
  case False
  then have eq: "malloc alloc h n = (alloc h n, h\<lparr>hblocks := (alloc h n, n) # hblocks h\<rparr>)"
    by (simp add: malloc_def Let_def)
  show ?thesis
    by (rule that(2) [OF eq False]) (use malloc_fresh(3) [OF assms eq False] in force)+
qed

definition two_blocks :: "cheap \<Rightarrow> addr \<Rightarrow> addr \<Rightarrow> nat \<Rightarrow> cheap" where
  "two_blocks h p q n = h\<lparr>hblocks := (q, n) # (p, n) # hblocks h\<rparr>"

lemma MyMalloc_nocache:
  assumes "alloc_ok alloc" and "cache (p_of w) = 0" and len: "0 \<le> len" "len < 2 ^ 63"
  obtains "MyMalloc alloc len 0 0 w = Inl (Exit (- 1))"
  | p q where
    "MyMalloc alloc len 0 0 w =
       Inr (upd_args (\<lambda>a. a\<lparr>r_buff := p, s_buff := q\<rparr>) (upd_heap (two_blocks (heap w) p q (nat len)) w))"
    "p \<noteq> NULL" "q \<noteq> NULL" "p \<noteq> q" "disjoint_ranges p (nat len) q (nat len)"
    "p \<notin> fst ` set (hblocks (heap w))" "q \<notin> fst ` set (hblocks (heap w))"
proof (cases rule: malloc_cases [OF assms(1), of "heap w" "nat len"])
  case 1
  then show ?thesis using that(1) len by (simp add: MyMalloc_def)
next
  case (2 p)
  let ?h = "(heap w)\<lparr>hblocks := (p, nat len) # hblocks (heap w)\<rparr>"
  show ?thesis
  proof (cases rule: malloc_cases [OF assms(1), of ?h "nat len"])
    case 1
    then show ?thesis using that(1) 2 len assms(2) by (simp add: MyMalloc_def)
  next
    case q: (2 q)
    have "disjoint_ranges q (nat len) p (nat len)" by (rule q(4)) simp
    then have d: "disjoint_ranges p (nat len) q (nat len)" by (subst disjoint_ranges_sym)
    have "MyMalloc alloc len 0 0 w =
       Inr (upd_args (\<lambda>a. a\<lparr>r_buff := p, s_buff := q\<rparr>) (upd_heap (two_blocks (heap w) p q (nat len)) w))"
      using 2(1,2) q(1,2) len assms(2)
      by (simp add: MyMalloc_def upd_args_def upd_heap_def two_blocks_def)
    from that(2) [OF this 2(2) q(2) _ d 2(3)] q(3) show ?thesis by auto
  qed
qed

lemma MyMalloc_cache:
  assumes "alloc_ok alloc" and "cache (p_of w) \<noteq> 0" and len: "0 \<le> len" "len < 2 ^ 63"
  obtains "MyMalloc alloc len 0 0 w = Inl (Exit (- 1))"
  | p where
    "MyMalloc alloc len 0 0 w =
       Inr (upd_args (\<lambda>a. a\<lparr>r_buff := p\<rparr>)
             (upd_heap ((heap w)\<lparr>hblocks := (p, nat len) # hblocks (heap w)\<rparr>) w))"
    "p \<noteq> NULL" "p \<notin> fst ` set (hblocks (heap w))"
proof (cases rule: malloc_cases [OF assms(1), of "heap w" "nat len"])
  case 1
  then show ?thesis using that(1) len by (simp add: MyMalloc_def)
next
  case (2 p)
  then show ?thesis using that(2) [of p] len assms(2) by (simp add: MyMalloc_def)
qed

lemma filter_absent: "p \<notin> fst ` set xs \<Longrightarrow> filter (\<lambda>(b, k). b \<noteq> p) xs = xs"
  by (induction xs) auto

text \<open>Releasing both buffers leaves exactly the blocks that were live before.\<close>

lemma FreeBuff_two:
  assumes "hblocks (heap w) = (q, n) # (p, m) # bl" and "p \<noteq> q" and "p \<noteq> NULL" and "q \<noteq> NULL"
    and "p \<notin> fst ` set bl" and "q \<notin> fst ` set bl"
  shows "FreeBuff q p w = Inr (upd_heap ((heap w)\<lparr>hblocks := bl\<rparr>) w)"
  using assms by (auto simp: FreeBuff_def free_def filter_absent)

lemma FreeBuff_one:
  assumes "hblocks (heap w) = (p, m) # bl" and "p \<noteq> NULL" and "p \<notin> fst ` set bl"
  shows "FreeBuff p NULL w = Inr (upd_heap ((heap w)\<lparr>hblocks := bl\<rparr>) w)"
  using assms by (auto simp: FreeBuff_def free_def filter_absent)

lemma InitBufferData_nocache:
  assumes "cache (p_of w) = 0" and n: "0 \<le> n" "n < 2 ^ 63"
    and "valid (heap w) (r_buff (p_of w)) (nat n)" and "valid (heap w) (s_buff (p_of w)) (nat n)"
  shows "InitBufferData L n 0 0 w =
    Inr (w\<lparr>heap := store (store (heap w) (r_buff (p_of w)) (pattern L 97 (nat n)))
                     (s_buff (p_of w)) (pattern L 98 (nat n)),
           lfsr_data := (L ^^ Suc (nat n div 4)) 98\<rparr>)"
  using assms by (simp add: InitBufferData_def lfsrset_spec)

lemma InitBufferData_cache:
  assumes "cache (p_of w) \<noteq> 0" and n: "0 < n" "n < 2 ^ 63"
    and "valid (heap w) (r_buff (p_of w)) (nat n)"
  shows "InitBufferData L n 0 0 w =
    Inr (w\<lparr>heap := store (store (heap w) (r_buff (p_of w)) (pattern L 97 (nat n)))
                     (r_buff (p_of w) + nat n - 1) [0],
           lfsr_data := (L ^^ Suc (nat n div 4)) 97\<rparr>)"
proof -
  have a: "nat (int (r_buff (p_of w)) + n - 1) = r_buff (p_of w) + nat n - 1" using n by simp
  have "valid (heap w) (r_buff (p_of w) + (nat n - 1)) 1"
    by (rule valid_sub [OF assms(4)]) (use n in simp)
  then have "valid (heap w) (r_buff (p_of w) + nat n - 1) (Suc 0)" using n by simp
  with assms a show ?thesis
    by (simp add: InitBufferData_def lfsrset_spec put_bytes_def upd_heap_def)
qed

lemma CheckBufferData_spec:
  assumes "0 \<le> n" "n < 2 ^ 63" and "valid (heap w) (r_buff (p_of w)) (nat n)"
  shows "\<exists>ms. CheckBufferData L n 0 0 w =
      Inr (w\<lparr>lfsr_data := (L ^^ Suc (nat n div 4)) 98, out := out w @ ms\<rparr>) \<and>
    (ms = [] \<longleftrightarrow> load (heap w) (r_buff (p_of w)) (nat n) = pattern L 98 (nat n))"
  using lfsrcheck_spec [of w "r_buff (p_of w)" "size_t n" L 98] assms
  by (simp add: CheckBufferData_def)

text \<open>A working allocator: the next address above every live block.\<close>

definition bump :: allocator where
  "bump h n = Suc (sum_list (map (\<lambda>(b, k). b + max 1 k) (hblocks h)))"

lemma member_le_sum_list_nat: "x \<in> set xs \<Longrightarrow> f x \<le> sum_list (map f xs)" for f :: "'a \<Rightarrow> nat"
  by (induction xs) (auto intro: trans_le_add2)

lemma bump_ok: "alloc_ok bump" "\<forall>h n. bump h n \<noteq> NULL"
proof -
  have "b + max 1 k \<le> bump h n" if "(b, k) \<in> set (hblocks h)" for b k h n
    using member_le_sum_list_nat [OF that, of "\<lambda>(b, k). b + max 1 k"] by (simp add: bump_def)
  then show "alloc_ok bump" by (fastforce simp: alloc_ok_def disjoint_ranges_def)
qed (simp add: bump_def)

section \<open>Correctness of the buffer routines\<close>

text \<open>
  Two consecutive calls of \<open>flushcache\<close> on the same words restore the memory and the flag,
  whatever the words contain (the additions wrap) and whichever value the flag had.
\<close>

theorem flushcache_twice:
  assumes "valid (heap w) ptr (4 * nat n)" and "fcflag w \<in> {0, 1}"
  shows "res_bind (flushcache ptr n w) (flushcache ptr n) = Inr w"
proof -
  let ?d = "if fcflag w = 1 then 1 else - 1 :: u32"
  obtain h where h: "add_words ptr n ?d (heap w) = Inr h" and h': "add_words ptr n (- ?d) h = Inr (heap w)"
    using add_words_inverse [OF assms(1), of ?d] by (auto simp: res_bind_Inr)
  from assms(2) consider "fcflag w = 0" | "fcflag w = 1" by blast
  then show ?thesis by cases (use h h' in \<open>simp_all add: flushcache_def Let_def\<close>)
qed

theorem flushcache_twice_witness:
  "res_bind (flushcache 1 2 (sample_world 10)) (flushcache 1 2) = Inr (sample_world 10)"
proof -
  have "fcflag (sample_world 10) = 0" by (simp add: sample_world_def)
  then show ?thesis using flushcache_twice [of "sample_world 10" 1 2] sample_valid [of 8 10] by simp
qed

text \<open>
  C7: \<open>VerifyIntegrity\<close> accepts exactly the buffers that hold the words 0, 1, 2 and so on in
  every full word of the message; any other contents end the program with \<open>exit(-1)\<close>.
  \<open>SetIntegrityData\<close> writes those words into the send buffer and nothing else.
\<close>

theorem integrity_data_correct:
  assumes "0 \<le> bufflen (p_of w)" and "bufflen (p_of w) < 2 ^ 31"
    and "valid (heap w) (s_ptr (p_of w)) (nat (bufflen (p_of w)))"
    and "valid (heap w) (r_ptr (p_of w)) (nat (bufflen (p_of w)))"
  shows "SetIntegrityData w = Inr (upd_heap (store (heap w) (s_ptr (p_of w))
           (words_bytes word_of_nat (nat (bufflen (p_of w)) div 4))) w) \<and>
    VerifyIntegrity w =
      (if \<forall>i < nat (bufflen (p_of w)) div 4. le_word (load (heap w) (r_ptr (p_of w) + 4 * i) 4) = word_of_nat i
       then Inr w else Inl (Exit (- 1)))"
proof -
  have n: "nat (num_segments (bufflen (p_of w))) = nat (bufflen (p_of w)) div 4"
    using assms(1,2) by (simp add: num_segments_eq nat_div_distrib)
  have "valid (heap w) (s_ptr (p_of w)) (4 * (nat (bufflen (p_of w)) div 4))"
    "valid (heap w) (r_ptr (p_of w)) (4 * (nat (bufflen (p_of w)) div 4))"
    using assms(3,4) by (auto elim!: valid_sub0)
  then show ?thesis
    using SetIntegrityData_spec [of w] VerifyIntegrity_iff [of w] by (simp add: n load_words_iff)
qed

theorem integrity_data_correct_witness:
  "SetIntegrityData (sample_world 10) = Inr (upd_heap (store (heap (sample_world 10)) 1
     (words_bytes word_of_nat 2)) (sample_world 10)) \<and>
   VerifyIntegrity (sample_world 10) = Inl (Exit (- 1))"
proof -
  have w: "bufflen (p_of (sample_world 10)) = 10" "s_ptr (p_of (sample_world 10)) = 1"
    "r_ptr (p_of (sample_world 10)) = 1"
    by (simp_all add: sample_world_def)
  have "le_word (load (heap (sample_world 10)) 5 4) \<noteq> word_of_nat 1" by code_simp
  then have "\<not> (\<forall>i<2. le_word (load (heap (sample_world 10)) (Suc (4 * i)) 4) = word_of_nat i)"
    by (auto intro!: exI [of _ 1])
  then show ?thesis
    using integrity_data_correct [of "sample_world 10"] sample_valid [of 10 10] by (simp add: w)
qed

text \<open>
  \<open>AlignBuffer\<close> returns an address that is a multiple of the boundary, above the given one
  by at least one byte and at most the boundary itself; in particular an address that is
  aligned already moves by a whole boundary.
\<close>

theorem AlignBuffer_aligned:
  assumes "0 < b" and "b < 2 ^ 31" and "int buff + b < 2 ^ 64"
  shows "int (AlignBuffer buff b) mod b = 0 \<and> buff < AlignBuffer buff b \<and>
    int (AlignBuffer buff b) \<le> int buff + b \<and>
    (int buff mod b = 0 \<longrightarrow> int (AlignBuffer buff b) = int buff + b)"
proof -
  define n where "n = nat b"
  have b: "b = int n" and n: "0 < n" using assms(1) by (simp_all add: n_def)
  have eq: "AlignBuffer buff b = buff + (n - buff mod n)" using AlignBuffer_eq [OF assms] by (simp add: n_def)
  have eq': "AlignBuffer buff (int n) = buff + (n - buff mod n)" using eq by (simp add: b)
  have "buff mod n < n" using n by simp
  moreover have "int (AlignBuffer buff b) mod int n = int ((buff + (n - buff mod n)) mod n)"
    by (simp only: eq zmod_int)
  moreover have "int buff mod int n = int (buff mod n)" by (simp only: zmod_int)
  ultimately show ?thesis using mod_align [OF n, of buff] by (auto simp: eq' b)
qed

theorem AlignBuffer_aligned_witness: "int (AlignBuffer 32768 16384) = 49152"
  using AlignBuffer_aligned [of 16384 32768] by simp

text \<open>
  C39: However often they are advanced, the send and the receive pointer stay inside the
  \<open>MEMSIZE\<close> bytes of their buffers with room for one whole block, at a multiple of the block
  size from the start, and the buffers themselves do not move.
\<close>

theorem advance_stays_inside:
  assumes "0 \<le> b" and "b \<le> MEMSIZE" and "s_ptr (p_of w) = s_buff (p_of w)" and "r_ptr (p_of w) = r_buff (p_of w)"
  shows "ptr_ok (s_buff (p_of w)) (s_ptr (p_of (((\<lambda>w. AdvanceRecvPtr b (AdvanceSendPtr b w)) ^^ n) w))) b \<and>
    ptr_ok (r_buff (p_of w)) (r_ptr (p_of (((\<lambda>w. AdvanceRecvPtr b (AdvanceSendPtr b w)) ^^ n) w))) b"
proof -
  let ?f = "\<lambda>w. AdvanceRecvPtr b (AdvanceSendPtr b w)"
  have buff: "s_buff (p_of ((?f ^^ n) w)) = s_buff (p_of w)" "r_buff (p_of ((?f ^^ n) w)) = r_buff (p_of w)" for n
    by (induction n) (auto simp: AdvanceRecvPtr_def AdvanceSendPtr_def)
  have "ptr_ok (s_buff (p_of ((?f ^^ n) w))) (s_ptr (p_of ((?f ^^ n) w))) b \<and>
      ptr_ok (r_buff (p_of ((?f ^^ n) w))) (r_ptr (p_of ((?f ^^ n) w))) b"
  proof (induction n)
    case 0
    then show ?case using assms by (simp add: ptr_ok_start)
  next
    case (Suc n)
    let ?w = "AdvanceSendPtr b ((?f ^^ n) w)"
    have keep: "r_ptr (p_of ?w) = r_ptr (p_of ((?f ^^ n) w))" "r_buff (p_of ?w) = r_buff (p_of ((?f ^^ n) w))"
      by (auto simp: AdvanceSendPtr_def)
    have keep': "s_ptr (p_of (AdvanceRecvPtr b u)) = s_ptr (p_of u)"
      "s_buff (p_of (AdvanceRecvPtr b u)) = s_buff (p_of u)" for u :: "('a, 'b) world"
      by (auto simp: AdvanceRecvPtr_def)
    show ?case
      using Suc AdvanceSendPtr_ok [OF assms(1,2), of "(?f ^^ n) w"] AdvanceRecvPtr_ok [OF assms(1,2), of ?w]
      by (simp add: keep keep')
  qed
  then show ?thesis by (simp add: buff)
qed

theorem advance_stays_inside_witness:
  "ptr_ok 1 (s_ptr (p_of (((\<lambda>w. AdvanceRecvPtr 3000 (AdvanceSendPtr 3000 w)) ^^ 12345) (sample_world 10)))) 3000"
  using advance_stays_inside [of 3000 "sample_world 10" 12345]
  by (simp add: sample_world_def MEMSIZE_def)

text \<open>
  C6: The life of the buffers.  \<open>MyMalloc\<close> either exits with -1, or leaves a receive buffer and,
  without cache mode, a disjoint send buffer of the requested size; releasing them the way the
  driver does frees each exactly once and leaves exactly the blocks that were live before.
\<close>

theorem MyMalloc_FreeBuff:
  assumes "alloc_ok alloc" and "0 \<le> len" and "len < 2 ^ 63"
  shows "case MyMalloc alloc len 0 0 w of
      Inl e \<Rightarrow> e = Exit (- 1)
    | Inr w1 \<Rightarrow>
        r_buff (p_of w1) \<noteq> NULL \<and> valid (heap w1) (r_buff (p_of w1)) (nat len) \<and>
        (cache (p_of w) = 0 \<longrightarrow> s_buff (p_of w1) \<noteq> NULL \<and> valid (heap w1) (s_buff (p_of w1)) (nat len) \<and>
           disjoint_ranges (r_buff (p_of w1)) (nat len) (s_buff (p_of w1)) (nat len)) \<and>
        (\<exists>w2. (if cache (p_of w) = 0 then FreeBuff (s_buff (p_of w1)) (r_buff (p_of w1)) w1
               else FreeBuff (r_buff (p_of w1)) NULL w1) = Inr w2 \<and> hblocks (heap w2) = hblocks (heap w))"
proof (cases "cache (p_of w) = 0")
  case True
  show ?thesis
    by (rule MyMalloc_nocache [OF assms(1) True assms(2,3)])
      (use True in \<open>auto simp: two_blocks_def FreeBuff_def free_def filter_absent intro!: valid_block\<close>)
next
  case False
  show ?thesis
    by (rule MyMalloc_cache [OF assms(1) False assms(2,3)])
      (use False in \<open>auto simp: FreeBuff_def free_def filter_absent intro!: valid_block\<close>)
qed

theorem MyMalloc_FreeBuff_witness:
  "case MyMalloc bump 8 0 0 (sample_world 10) of
      Inl e \<Rightarrow> False
    | Inr w1 \<Rightarrow> (\<exists>w2. FreeBuff (s_buff (p_of w1)) (r_buff (p_of w1)) w1 = Inr w2 \<and> hblocks (heap w2) = [(1, 10)])"
proof -
  have "cache (p_of (sample_world 10)) = 0" "hblocks (heap (sample_world 10)) = [(1, 10)]"
    by (simp_all add: sample_world_def)
  moreover have "MyMalloc bump 8 0 0 (sample_world 10) \<noteq> Inl (Exit (- 1))"
    by (simp add: MyMalloc_def malloc_def Let_def bump_def)
  ultimately show ?thesis
    using MyMalloc_FreeBuff [of bump 8 "sample_world 10"] bump_ok
    by (auto split: sum.splits)
qed

text \<open>
  C40: In cache mode the data check cannot succeed.  Both processes fill their one buffer with
  the same bytes, the \<open>'a'\<close> pattern ending in 0, and exchange them; \<open>CheckBufferData\<close> compares
  them with the \<open>'b'\<close> pattern and reports a mismatch for every message size.
\<close>

theorem cache_mode_always_mismatches:
  assumes "cache (p_of w) \<noteq> 0" and "0 < n" "n < 2 ^ 63" and "valid (heap w) (r_buff (p_of w)) (nat n)"
  shows "\<exists>w1 w2 ms. InitBufferData lfsr23 n 0 0 w = Inr w1 \<and>
    CheckBufferData lfsr23 n 0 0 (upd_heap (store (heap w1) (r_buff (p_of w1))
      (load (heap w1) (r_buff (p_of w1)) (nat n))) w1) = Inr w2 \<and> out w2 = out w @ ms \<and> ms \<noteq> []"
proof -
  let ?p = "r_buff (p_of w)"
  let ?h = "store (store (heap w) ?p (pattern lfsr23 97 (nat n))) (?p + nat n - 1) [0]"
  let ?w = "w\<lparr>heap := ?h, lfsr_data := (lfsr23 ^^ Suc (nat n div 4)) 97\<rparr>"
  have n: "0 < nat n" using assms(2) by simp
  have b: "lfsr_byte lfsr23 97 0 = 0x20" "lfsr_byte lfsr23 98 0 = 0x31" by code_simp+
  have "load ?h ?p (nat n) ! 0 = (if nat n = 1 then 0 else 0x20)"
    using n by (auto simp: hbytes_store b)
  then have "load ?h ?p (nat n) ! 0 \<noteq> 0x31" by simp
  moreover have "pattern lfsr23 98 (nat n) ! 0 = 0x31" using n by (simp add: b)
  ultimately have ne: "load ?h ?p (nat n) \<noteq> pattern lfsr23 98 (nat n)" by metis
  have I: "InitBufferData lfsr23 n 0 0 w = Inr ?w" by (rule InitBufferData_cache) (use assms in auto)
  have eq: "upd_heap (store (heap ?w) (r_buff (p_of ?w)) (load (heap ?w) (r_buff (p_of ?w)) (nat n))) ?w = ?w"
    by (simp add: store_load_same upd_heap_def)
  have "valid (heap ?w) (r_buff (p_of ?w)) (nat n)" using assms(4) by simp
  with ne obtain ms where "CheckBufferData lfsr23 n 0 0 ?w =
      Inr (?w\<lparr>lfsr_data := (lfsr23 ^^ Suc (nat n div 4)) 98, out := out w @ ms\<rparr>)" "ms \<noteq> []"
    using CheckBufferData_spec [of n ?w lfsr23] assms(2,3) by auto
  then show ?thesis
    by (intro exI conjI) (rule I, subst eq, assumption, simp, assumption)
qed

theorem cache_mode_always_mismatches_witness:
  "\<exists>w1 w2 ms. InitBufferData lfsr23 5 0 0 (upd_args (\<lambda>a. a\<lparr>cache := 1\<rparr>) (sample_world 10)) = Inr w1 \<and>
    CheckBufferData lfsr23 5 0 0 (upd_heap (store (heap w1) (r_buff (p_of w1))
      (load (heap w1) (r_buff (p_of w1)) 5)) w1) = Inr w2 \<and> out w2 = [] @ ms \<and> ms \<noteq> []"
  using cache_mode_always_mismatches [of "upd_args (\<lambda>a. a\<lparr>cache := 1\<rparr>) (sample_world 10)" 5]
    sample_valid [of 5 10]
  by (simp add: sample_world_def)

text \<open>
  An example of the offsets that the driver never passes: with a receive offset larger than the
  send offset, \<open>InitBufferData\<close> writes past the end of the send buffer of the same offsets.
\<close>

lemma InitBufferData_overruns_send_buffer:
  "case res_bind (MyMalloc bump 8 0 4 (sample_world 10)) (InitBufferData lfsr23 8 0 4) of
     Inl e \<Rightarrow> e = BadAccess | Inr w \<Rightarrow> False"
  by code_simp

end
