(* ===== verification/Netpipe.thy ===== *)
theory Netpipe
  imports Buffers
begin

text \<open>
  The Python-facing driver of \<open>netpipe.c\<close>: creating a \<open>Netpipe\<close> object, reading its attributes
  and running the timed exchange, over whatever communication module is linked in.  The functions
  that a module must supply are a record of operations.
\<close>

section \<open>What a communication module supplies\<close>

text \<open>The functions declared in \<open>netpipe.h\<close> that the driver calls.\<close>

record ('e, 'r, 'p, 'g) comm_module =
  mInit :: "('p, 'g) world \<Rightarrow> ('e, 'r, ('p, 'g) world) prog"
  mSetup :: "('p, 'g) world \<Rightarrow> ('e, 'r, ('p, 'g) world) prog"
  mSendRepeat :: "u32 \<Rightarrow> ('p, 'g) world \<Rightarrow> ('e, 'r, ('p, 'g) world) prog"
  mRecvRepeat :: "('p, 'g) world \<Rightarrow> ('e, 'r, u32 \<times> ('p, 'g) world) prog"
  mMyMalloc :: "int \<Rightarrow> int \<Rightarrow> int \<Rightarrow> ('p, 'g) world \<Rightarrow> ('e, 'r, ('p, 'g) world) prog"
  mInitBufferData :: "int \<Rightarrow> int \<Rightarrow> int \<Rightarrow> ('p, 'g) world \<Rightarrow> ('e, 'r, ('p, 'g) world) prog"
  mAfterAlignmentInit :: "('p, 'g) world \<Rightarrow> ('e, 'r, ('p, 'g) world) prog"
  mPrepareToReceive :: "('p, 'g) world \<Rightarrow> ('e, 'r, ('p, 'g) world) prog"
  mSync :: "('p, 'g) world \<Rightarrow> ('e, 'r, ('p, 'g) world) prog"
  mSendData :: "('p, 'g) world \<Rightarrow> ('e, 'r, ('p, 'g) world) prog"
  mRecvData :: "('p, 'g) world \<Rightarrow> ('e, 'r, ('p, 'g) world) prog"
  mCheckBufferData :: "int \<Rightarrow> int \<Rightarrow> int \<Rightarrow> ('p, 'g) world \<Rightarrow> ('e, 'r, ('p, 'g) world) prog"
  mFreeBuff :: "addr \<Rightarrow> addr \<Rightarrow> ('p, 'g) world \<Rightarrow> ('e, 'r, ('p, 'g) world) prog"

section \<open>netpipe_run_iters\<close>

text \<open>
  The Python value: whatever \<open>Py_BuildValue("None")\<close> gives, a null pointer with an exception
  set, the out-of-memory exception, or the tuple (size, repeats, total time, time per round).
  The time per round is not a number when the repeat count is 0.
\<close>

datatype pyres =
    PyBuildNone
  | PyNull
  | PyNoMemory
  | PyTuple u32 u32 real "real option"

text \<open>The current time; \<open>fl\<close> is the rounding of double arithmetic.\<close>

definition When :: "(real \<Rightarrow> real) \<Rightarrow> ('e, 'r, real) prog" where
  "When fl = Clock (\<lambda>(sec, usec).
     Ret (fl (real_of_int sec + fl (real_of_int usec * fl (1 / 10 ^ 6)))))"

text \<open>The number of bytes for a size in bits.\<close>

definition size_bytes :: "u32 \<Rightarrow> u32" where
  "size_bytes sz = (let bytes = sz div 8 in if sz mod 8 \<noteq> 0 then bytes + 1 else bytes)"

primrec iter_loop :: "('e, 'r, 'p, 'g) comm_module \<Rightarrow> nat \<Rightarrow> ('p, 'g) world \<Rightarrow> ('e, 'r, ('p, 'g) world) prog" where
  "iter_loop m 0 w = Ret w"
| "iter_loop m (Suc j) w =
     andThen (if tr (p_of w) \<noteq> 0 then andThen (mSendData m w) (mRecvData m)
              else andThen (mRecvData m w) (mSendData m))
       (iter_loop m j)"

definition set_ptrs :: "('p, 'g) world \<Rightarrow> ('p, 'g) world" where
  "set_ptrs = upd_args (\<lambda>a.
     let a = (if cache a \<noteq> 0 then a\<lparr>s_buff := r_buff a\<rparr> else a)
     in a\<lparr>r_ptr := r_buff a, r_buff_orig := r_buff a, s_ptr := s_buff a, s_buff_orig := s_buff a\<rparr>)"

text \<open>From the parsed size and repeat count on.\<close>

definition timed_part ::
  "('e, 'r, 'p, 'g) comm_module \<Rightarrow> (real \<Rightarrow> real) \<Rightarrow> u32 \<Rightarrow> u32 \<Rightarrow> ('p, 'g) world \<Rightarrow> ('e, 'r, pyres \<times> ('p, 'g) world) prog" where
  "timed_part m fl sz nrepeat w =
     andThen (When fl) (\<lambda>t0.
     andThen (iter_loop m (unat nrepeat) w) (\<lambda>w.
     andThen (When fl) (\<lambda>t.
     let t1 = fl (t - t0);
         time = (if nrepeat = 0 then None else Some (fl (t1 / real (unat nrepeat)))) in
     andThen (mCheckBufferData m (bufflen (p_of w)) 0 0 w) (\<lambda>w.
     andThen (if cache (p_of w) \<noteq> 0 then mFreeBuff m (s_buff_orig (p_of w)) NULL w
              else mFreeBuff m (s_buff_orig (p_of w)) (r_buff_orig (p_of w)) w) (\<lambda>w.
     Ret (PyTuple sz nrepeat t1 time, w))))))"

definition run_sized ::
  "('e, 'r, 'p, 'g) comm_module \<Rightarrow> (real \<Rightarrow> real) \<Rightarrow> u32 \<Rightarrow> u32 \<Rightarrow> ('p, 'g) world \<Rightarrow> ('e, 'r, pyres \<times> ('p, 'g) world) prog" where
  "run_sized m fl sz nrepeat w =
     andThen (if tr (p_of w) \<noteq> 0
              then andThen (mSendRepeat m sz w) (mSendRepeat m nrepeat) else Ret w) (\<lambda>w.
     let w = upd_args (\<lambda>a. a\<lparr>bufflen := sint (size_bytes sz)\<rparr>) w in
     andThen (mMyMalloc m (bufflen (p_of w)) 0 0 w) (\<lambda>w.
     let w = set_ptrs w in
     if r_buff_orig (p_of w) = NULL \<or> s_buff_orig (p_of w) = NULL
     then Ret (PyNoMemory, printf ''couldn't allocate memory'' [] w)
     else
     andThen (mInitBufferData m (bufflen (p_of w)) 0 0 w) (\<lambda>w.
     andThen (mAfterAlignmentInit m w) (\<lambda>w.
     andThen (if asyncReceive (self w) \<noteq> 0 then mPrepareToReceive m w else Ret w) (\<lambda>w.
     andThen (mSync m w) (\<lambda>w.
     timed_part m fl sz nrepeat w))))))"

text \<open>
  \<open>run_iters(size, repeats)\<close> or, on a receiver, \<open>run_iters()\<close>: the first argument is what
  \<open>PyArg_ParseTuple\<close> makes of the Python arguments.
\<close>

definition netpipe_run_iters ::
  "('e, 'r, 'p, 'g) comm_module \<Rightarrow> (real \<Rightarrow> real) \<Rightarrow> (u32 \<times> u32) option \<Rightarrow> ('p, 'g) world \<Rightarrow> ('e, 'r, pyres \<times> ('p, 'g) world) prog" where
  "netpipe_run_iters m fl pyargs w =
     (case pyargs of
        Some (sz, nrepeat) \<Rightarrow> run_sized m fl sz nrepeat w
      | None \<Rightarrow>
          if rcv (p_of w) \<noteq> 0 then
            andThen (mRecvRepeat m w) (\<lambda>(sz, w).
            andThen (mRecvRepeat m w) (\<lambda>(nrepeat, w).
            if sz = 0 then Ret (PyBuildNone, w) else run_sized m fl sz nrepeat w))
          else Ret (PyNull, w))"

section \<open>The object\<close>

datatype pyobj = ObjNull | ObjNoMemory | Obj

text \<open>
  \<open>memset\<close> of the object to 0 and the fields set afterwards; \<open>zp\<close> is the zeroed protocol
  structure.  \<open>strncpy\<close> copies at most 255 characters of the host name.
\<close>

definition zero_args :: "'p \<Rightarrow> 'p ArgStruct" where
  "zero_args zp = \<lparr>cache = 0, host = [], servicefd = 0, commfd = 0, port = 0, r_buff = NULL,
     r_buff_orig = NULL, r_ptr = NULL, r_ptr_saved = NULL, s_buff = NULL, s_buff_orig = NULL,
     s_ptr = NULL, bufflen = 0, upper = 0, tr = 0, rcv = 0, bidir = 0, source_node = 0,
     preburst = 0, reset_conn = 0, soffset = 0, roffset = 0, syncflag = 0, use_sdp = 0, prot = zp\<rparr>"

definition new_Netpipe :: "'p \<Rightarrow> string option \<Rightarrow> 'p Netpipe" where
  "new_Netpipe zp temp =
     \<lparr>args = (case temp of None \<Rightarrow> zero_args zp
              | Some h \<Rightarrow> (zero_args zp)\<lparr>host := take 255 h, tr := 1\<rparr>),
      outname = ''np.out'', len_buf_align = 0, asyncReceive = 0, bufalign = 16 * 1024,
      streamopt = 0, integCheck = 0\<rparr>"

text \<open>
  \<open>pyargs\<close> is what \<open>PyArg_ParseTupleAndKeywords\<close> makes of the arguments (\<open>None\<close> when it
  fails), \<open>allocated\<close> whether \<open>PyObject_New\<close> returned an object.
\<close>

definition netpipe_object ::
  "('e, 'r, 'p, 'g) comm_module \<Rightarrow> 'p \<Rightarrow> string option option \<Rightarrow> bool \<Rightarrow> ('p, 'g) world \<Rightarrow> ('e, 'r, pyobj \<times> ('p, 'g) world) prog" where
  "netpipe_object m zp pyargs allocated w =
     (case pyargs of None \<Rightarrow> Ret (ObjNull, w)
      | Some temp \<Rightarrow>
          if \<not> allocated then Ret (ObjNoMemory, w)
          else let w = w\<lparr>self := new_Netpipe zp temp\<rparr>;
                   w = (case temp of None \<Rightarrow> w
                        | Some h \<Rightarrow>
                            (let w = (if length h > 254
                                      then printf ''XXXXX fail: host string too long'' [] w else w)
                             in printf ''transmit, connecting to %s'' [AStr (host (p_of w))] w))
               in andThen (mInit m w) (\<lambda>w. andThen (mSetup m w) (\<lambda>w. Ret (Obj, w))))"

text \<open>
  The attribute getter; a null pointer with \<open>RuntimeError\<close> set is \<open>None\<close>.  The last two
  attributes exist in a build with \<open>COLLECTIVES\<close> only.
\<close>

definition Netpipe_get :: "bool \<Rightarrow> ('p \<Rightarrow> int) \<Rightarrow> ('p \<Rightarrow> int) \<Rightarrow> string \<Rightarrow> 'p Netpipe \<Rightarrow> int option" where
  "Netpipe_get collectives iproc nprocs attr np =
     (if attr = ''streamopt'' then Some (streamopt np)
      else if attr = ''tr'' then Some (tr (args np))
      else if collectives \<and> attr = ''iproc'' then Some (iproc (prot (args np)))
      else if collectives \<and> attr = ''nprocs'' then Some (nprocs (prot (args np)))
      else None)"

text \<open>
  The attributes of the Python type with the strings that are passed to the getter; none has a
  setter.  Python looks an attribute up in this table, so the getter's error branch is never taken.
\<close>

definition Netpipe_getsets :: "bool \<Rightarrow> (string \<times> string) list" where
  "Netpipe_getsets collectives =
     [(''streamopt'', ''streamopt''), (''tr'', ''tr'')] @
     (if collectives then [(''iproc'', ''iproc''), (''nprocs'', ''nprocs'')] else [])"

lemma Netpipe_get_total:
  "Netpipe_get collectives iproc nprocs c np \<noteq> None \<longleftrightarrow> c \<in> set (map snd (Netpipe_getsets collectives))"
  by (cases collectives) (simp_all add: Netpipe_get_def Netpipe_getsets_def)

section \<open>Sizes\<close>

lemma unat_size_bytes: "unat (size_bytes sz) = (unat sz + 7) div 8"
proof -
  have d: "unat (sz div 8) = unat sz div 8" and m: "unat (sz mod 8) = unat sz mod 8"
    by (simp_all add: unat_div_distrib unat_mod_distrib)
  have lt: "unat sz < 2 ^ 32" by (rule unat_u32_less)
  have z: "sz mod 8 = 0 \<longleftrightarrow> unat sz mod 8 = 0" by (metis m unat_0 word_unat_eq_iff)
  have "unat (sz div 8 + 1) = unat sz div 8 + 1"
    using lt by (simp add: unat_word_ariths(1) d)
  moreover have "(n + 7) div 8 = (if n mod 8 = 0 then n div 8 else n div 8 + 1)" for n :: nat
    by presburger
  ultimately show ?thesis using d z by (simp add: size_bytes_def)
qed

lemma sint_size_bytes: "sint (size_bytes sz) = int (unat (size_bytes sz))"
proof -
  have "unat sz < 2 ^ 32" by (rule unat_u32_less)
  then have "unat (size_bytes sz) < 2 ^ 31" by (simp add: unat_size_bytes)
  then have "int (unat (size_bytes sz)) < int (2 ^ 31)" by (simp only: of_nat_less_iff)
  then have "uint (size_bytes sz) < 2 ^ 31" by simp
  moreover have "- (2 ^ 31) \<le> uint (size_bytes sz)" by (rule order.trans [of _ 0]) simp_all
  ultimately have "signed_take_bit 31 (uint (size_bytes sz)) = uint (size_bytes sz)"
    by (intro signed_take_bit_int_eq_self)
  then show ?thesis by (simp add: sint_uint)
qed

lemma size_bytes_bound: "unat (size_bytes sz) \<le> 2 ^ 29"
proof -
  have "unat sz < 2 ^ 32" by (rule unat_u32_less)
  then show ?thesis by (simp add: unat_size_bytes)
qed

end
