(* ===== verification/Driver.thy ===== *)
theory Driver
  imports Netpipe
begin

text \<open>
  The driver over any communication module.  The locales state what the driver relies on: that
  the module uses the buffer routines of \<open>netpipe.c\<close>, and how each communication function
  behaves in terms of scripts of abstract actions.  Inside them, the scripts that the
  transmitter's and the receiver's \<open>run_iters\<close> obey are derived once, for every module.
\<close>

section \<open>The state of a measurement\<close>

text \<open>
  The state from \<open>InitBufferData\<close> to \<open>FreeBuff\<close>, in the mode without cache effects: two
  buffers of \<open>nb\<close> bytes on top of the blocks \<open>bl\<close>, the pointers on them, and the \<open>'b'\<close>
  pattern in the send buffer.
\<close>

definition ready :: "lfsr \<Rightarrow> (addr \<times> nat) list \<Rightarrow> nat \<Rightarrow> ('p, 'g) world \<Rightarrow> bool" where
  "ready L bl nb w \<longleftrightarrow>
     (let p = r_buff (p_of w); q = s_buff (p_of w) in
      cache (p_of w) = 0 \<and> bufflen (p_of w) = int nb \<and> nb < 2 ^ 31 \<and>
      r_ptr (p_of w) = p \<and> r_buff_orig (p_of w) = p \<and> s_ptr (p_of w) = q \<and> s_buff_orig (p_of w) = q \<and>
      p \<noteq> NULL \<and> q \<noteq> NULL \<and> p \<noteq> q \<and> p \<notin> fst ` set bl \<and> q \<notin> fst ` set bl \<and>
      hblocks (heap w) = (q, nb) # (p, nb) # bl \<and> disjoint_ranges p nb q nb \<and>
      load (heap w) q nb = pattern L 98 nb)"

text \<open>The state after the pattern has arrived.\<close>

definition received :: "lfsr \<Rightarrow> nat \<Rightarrow> ('p, 'g) world \<Rightarrow> ('p, 'g) world" where
  "received L nb w = upd_heap (store (heap w) (r_buff (p_of w)) (pattern L 98 nb)) w"

text \<open>What a module's behaviour may depend on besides the buffers.\<close>

type_synonym ('p, 'g) cfg = "int \<times> int \<times> int \<times> 'p \<times> 'g"

definition cfg :: "('p, 'g) world \<Rightarrow> ('p, 'g) cfg" where
  "cfg w = (commfd (p_of w), source_node (p_of w), tr (p_of w), prot (p_of w), glob w)"

lemma cfg_tr: "cfg w = cfg w' \<Longrightarrow> tr (p_of w) = tr (p_of w')"
  by (simp add: cfg_def)

lemma ready_valid:
  assumes "ready L bl nb w"
  shows "valid (heap w) (r_buff (p_of w)) nb" "valid (heap w) (s_buff (p_of w)) nb"
  using assms by (auto simp: ready_def Let_def intro!: valid_block)

lemma ready_receive:
  "ready L bl nb w \<Longrightarrow> length bs = nb \<Longrightarrow> ready L bl nb (upd_heap (store (heap w) (r_buff (p_of w)) bs) w)"
  by (auto simp: ready_def Let_def load_store_disjoint)

lemma received_simps [simp]:
  "self (received L nb w) = self w" "out (received L nb w) = out w" "cfg (received L nb w) = cfg w"
  by (simp_all add: received_def cfg_def)

lemma ready_received: "ready L bl nb w \<Longrightarrow> ready L bl nb (received L nb w)"
  by (simp add: received_def ready_receive)

lemma received_twice: "received L nb (received L nb w) = received L nb w"
  by (simp add: received_def store_store_same)

text \<open>
  A good end of \<open>run_iters\<close>: the tuple is returned, every buffer has been released and, when at
  least one round was run, nothing was printed: the received data is the pattern that was sent.
\<close>

definition good_result :: "u32 \<Rightarrow> u32 \<Rightarrow> (addr \<times> nat) list \<Rightarrow> msg list \<Rightarrow> pyres \<times> ('p, 'g) world \<Rightarrow> bool" where
  "good_result sz nrepeat bl ms x \<longleftrightarrow>
     (\<exists>t1 time. fst x = PyTuple sz nrepeat t1 time) \<and> hblocks (heap (snd x)) = bl \<and>
     (nrepeat \<noteq> 0 \<longrightarrow> out (snd x) = ms)"

text \<open>From the allocation to \<open>InitBufferData\<close>: with a working allocator the state is ready.\<close>

lemma MyMalloc_never_exits:
  "\<forall>h n. alloc h n \<noteq> NULL \<Longrightarrow> MyMalloc alloc len so ro w \<noteq> Inl (Exit (- 1))"
  by (simp add: MyMalloc_def malloc_def Let_def del: neq0_conv)

lemma prepared:
  assumes "alloc_ok alloc" and "\<forall>h n. alloc h n \<noteq> NULL" and "cache (p_of w) = 0"
    and "bufflen (p_of w) = int nb" and "nb < 2 ^ 31"
  shows "\<exists>w2 w3. MyMalloc alloc (int nb) 0 0 w = Inr w2 \<and>
    r_buff_orig (p_of (set_ptrs w2)) \<noteq> NULL \<and> s_buff_orig (p_of (set_ptrs w2)) \<noteq> NULL \<and>
    bufflen (p_of (set_ptrs w2)) = int nb \<and>
    InitBufferData L (int nb) 0 0 (set_ptrs w2) = Inr w3 \<and>
    ready L (hblocks (heap w)) nb w3 \<and> cfg w3 = cfg w \<and>
    asyncReceive (self w3) = asyncReceive (self w) \<and> out w3 = out w"
proof -
  have nb: "int nb < 2 ^ 63" using assms(5) by simp
  obtain p q where M: "MyMalloc alloc (int nb) 0 0 w =
      Inr (upd_args (\<lambda>a. a\<lparr>r_buff := p, s_buff := q\<rparr>) (upd_heap (two_blocks (heap w) p q nb) w))"
    and pq: "p \<noteq> NULL" "q \<noteq> NULL" "p \<noteq> q" "disjoint_ranges p nb q nb"
      "p \<notin> fst ` set (hblocks (heap w))" "q \<notin> fst ` set (hblocks (heap w))"
    using MyMalloc_nocache [OF assms(1,3), of "int nb"] nb MyMalloc_never_exits [OF assms(2)]
    by (metis nat_int of_nat_0_le_iff)
  let ?w2 = "upd_args (\<lambda>a. a\<lparr>r_buff := p, s_buff := q\<rparr>) (upd_heap (two_blocks (heap w) p q nb) w)"
  let ?h = "store (store (two_blocks (heap w) p q nb) p (pattern L 97 nb)) q (pattern L 98 nb)"
  have "valid (two_blocks (heap w) p q nb) p nb" "valid (two_blocks (heap w) p q nb) q nb"
    by (auto simp: two_blocks_def intro!: valid_block)
  then have I: "InitBufferData L (int nb) 0 0 (set_ptrs ?w2) =
      Inr ((set_ptrs ?w2)\<lparr>heap := ?h, lfsr_data := (L ^^ Suc (nb div 4)) 98\<rparr>)"
    using InitBufferData_nocache [of "set_ptrs ?w2" "int nb" L] nb assms(3)
    by (simp add: set_ptrs_def Let_def)
  have "load ?h q nb = pattern L 98 nb"
    using load_store_same [of _ q "pattern L 98 nb"] by simp
  then have "ready L (hblocks (heap w)) nb
      ((set_ptrs ?w2)\<lparr>heap := ?h, lfsr_data := (L ^^ Suc (nb div 4)) 98\<rparr>)"
    using pq assms by (simp add: ready_def set_ptrs_def Let_def two_blocks_def)
  with M I pq show ?thesis
    using assms(3,4) by (simp add: set_ptrs_def Let_def cfg_def)
qed

section \<open>The interface\<close>

text \<open>The buffer routines that a module without special memory takes from \<open>netpipe.c\<close>.\<close>

locale buffer_module =
  fixes m :: "('e, 'r, 'p, 'g) comm_module"
    and alloc :: allocator
    and L :: lfsr
  assumes MyMalloc_law: "mMyMalloc m len so ro w = lift (MyMalloc alloc len so ro w)"
    and InitBufferData_law: "mInitBufferData m len so ro w = lift (InitBufferData L len so ro w)"
    and CheckBufferData_law: "mCheckBufferData m len so ro w = lift (CheckBufferData L len so ro w)"
    and FreeBuff_law: "mFreeBuff m b1 b2 w = lift (FreeBuff b1 b2 w)"

text \<open>
  A module whose rounds deliver the send pattern: \<open>round\<close> is the script of one round on either
  side, \<open>sync\<close> that of \<open>Sync\<close> and \<open>announce\<close> that of \<open>SendRepeat\<close>; \<open>role\<close> says in which states the
  module works this way.  \<open>AfterAlignmentInit\<close> takes the state of the module to \<open>arm\<close>, with the
  script \<open>after\<close>; the rounds run in states that are \<open>armed\<close>.
\<close>

locale timed_module = buffer_module m alloc L
  for m :: "('e, 'r, 'p, 'g) comm_module" and alloc :: allocator and L :: lfsr +
  fixes acc :: "('p, 'g) cfg \<Rightarrow> ('e, 'r, 's) accepts"
    and role :: "('p, 'g) cfg \<Rightarrow> bool"
    and announce :: "u32 \<Rightarrow> 's list"
    and arm :: "('p, 'g) world \<Rightarrow> ('p, 'g) world"
    and after :: "'s list"
    and armed :: "('p, 'g) world \<Rightarrow> bool"
    and sync :: "'s list"
    and round :: "int \<Rightarrow> nat \<Rightarrow> 's list"
  assumes framed_law: "framed (acc c)"
    and announce_law: "role (cfg w) \<Longrightarrow> obeys (acc (cfg w)) (\<lambda>w'. w' = w) (mSendRepeat m n w) (announce n)"
    and arm_keeps: "self (arm w) = self w" "heap (arm w) = heap w" "out (arm w) = out w"
      "acc (cfg (arm w)) = acc (cfg w)"
    and after_law:
      "role (cfg w) \<Longrightarrow> ready L bl nb w \<Longrightarrow>
       obeys (acc (cfg w)) (\<lambda>w'. w' = arm w) (mAfterAlignmentInit m w) after"
    and arm_law: "role (cfg w) \<Longrightarrow> ready L bl nb w \<Longrightarrow> armed (arm w)"
    and armed_received: "armed w \<Longrightarrow> ready L bl nb w \<Longrightarrow> armed (received L nb w)"
    and sync_law: "armed w \<Longrightarrow> obeys (acc (cfg w)) (\<lambda>w'. w' = w) (mSync m w) sync"
    and round_law:
      "armed w \<Longrightarrow> ready L bl nb w \<Longrightarrow> obeys (acc (cfg w)) (\<lambda>w'. w' = received L nb w)
         (if tr (p_of w) \<noteq> 0 then andThen (mSendData m w) (mRecvData m)
          else andThen (mRecvData m w) (mSendData m)) (round (tr (p_of w)) nb)"
begin

lemmas obeys_then = obeys_andThen [OF framed_law]

lemma ready_arm: "ready L bl nb (arm w) = ready L bl nb w"
  by (simp add: ready_def arm_keeps)

lemma loop_obeys:
  "armed w \<Longrightarrow> ready L bl nb w \<Longrightarrow>
   obeys (acc (cfg w)) (\<lambda>w'. w' = (if n = 0 then w else received L nb w)) (iter_loop m n w)
     (concat (map (\<lambda>_. round (tr (p_of w)) nb) [0..<n]))"
proof (induction n arbitrary: w)
  case 0
  then show ?case by (auto intro: obeys.ret)
next
  case (Suc n)
  let ?w = "received L nb w"
  have IH: "obeys (acc (cfg w)) (\<lambda>w'. w' = received L nb w) (iter_loop m n ?w)
      (concat (map (\<lambda>_. round (tr (p_of w)) nb) [0..<n]))"
    by (rule obeys_mono [of _ "\<lambda>w'. w' = (if n = 0 then ?w else received L nb ?w)"])
      (use Suc.IH [OF armed_received [OF Suc.prems] ready_received [OF Suc.prems(2)]] in \<open>auto simp: received_twice split: if_splits\<close>)
  have "map (\<lambda>_. round (tr (p_of w)) nb) [0..<Suc n]
      = round (tr (p_of w)) nb # map (\<lambda>_. round (tr (p_of w)) nb) [0..<n]"
    by (simp add: map_replicate_const replicate_append_same)
  moreover have "obeys (acc (cfg w)) (\<lambda>w'. w' = received L nb w) (iter_loop m (Suc n) w)
      (round (tr (p_of w)) nb @ concat (map (\<lambda>_. round (tr (p_of w)) nb) [0..<n]))"
    unfolding iter_loop.simps
    by (rule obeys_then [OF round_law [OF Suc.prems]]) (use IH in simp)
  ultimately show ?case by simp
qed

lemma When_obeys:
  "(\<And>t. obeys a Q (f t) s) \<Longrightarrow> obeys a Q (andThen (When fl) f) s"
  by (auto simp: When_def intro!: obeys.clock split: prod.splits)

text \<open>\<open>CheckBufferData\<close> and \<open>FreeBuff\<close>: silent exactly when the pattern arrived; no leak.\<close>

lemma check_free:
  assumes "ready L bl nb w"
  shows "\<exists>w' ms. andThen (mCheckBufferData m (bufflen (p_of w)) 0 0 w) (\<lambda>w.
      andThen (if cache (p_of w) \<noteq> 0 then mFreeBuff m (s_buff_orig (p_of w)) NULL w
              else mFreeBuff m (s_buff_orig (p_of w)) (r_buff_orig (p_of w)) w) (\<lambda>w. Ret (x, w)))
      = Ret (x, w') \<and> hblocks (heap w') = bl \<and> out w' = out w @ ms \<and>
      (ms = [] \<longleftrightarrow> load (heap w) (r_buff (p_of w)) nb = pattern L 98 nb)"
proof -
  have n: "bufflen (p_of w) = int nb" "int nb < 2 ^ 63" and c: "cache (p_of w) = 0"
    using assms by (simp_all add: ready_def Let_def)
  obtain ms where ms: "CheckBufferData L (int nb) 0 0 w =
      Inr (w\<lparr>lfsr_data := (L ^^ Suc (nb div 4)) 98, out := out w @ ms\<rparr>)"
      "ms = [] \<longleftrightarrow> load (heap w) (r_buff (p_of w)) nb = pattern L 98 nb"
    using CheckBufferData_spec [of "int nb" w L] n ready_valid [OF assms] by auto
  let ?w = "w\<lparr>lfsr_data := (L ^^ Suc (nb div 4)) 98, out := out w @ ms\<rparr>"
  have "FreeBuff (s_buff_orig (p_of w)) (r_buff_orig (p_of w)) ?w
      = Inr (upd_heap ((heap w)\<lparr>hblocks := bl\<rparr>) ?w)"
    using FreeBuff_two [of ?w "s_buff (p_of w)" nb "r_buff (p_of w)" nb bl] assms
    by (simp add: ready_def Let_def)
  then have fr: "FreeBuff (s_buff_orig (p_of ?w)) (r_buff_orig (p_of ?w)) ?w
      = Inr (upd_heap ((heap w)\<lparr>hblocks := bl\<rparr>) ?w)"
    by simp
  have c': "(cache (p_of ?w) \<noteq> 0) = False" using c by simp
  have "andThen (mCheckBufferData m (bufflen (p_of w)) 0 0 w) (\<lambda>w.
      andThen (if cache (p_of w) \<noteq> 0 then mFreeBuff m (s_buff_orig (p_of w)) NULL w
              else mFreeBuff m (s_buff_orig (p_of w)) (r_buff_orig (p_of w)) w) (\<lambda>w. Ret (x, w)))
      = Ret (x, upd_heap ((heap w)\<lparr>hblocks := bl\<rparr>) ?w)"
    unfolding CheckBufferData_law FreeBuff_law n(1) ms(1) lift_simps andThen.simps c' if_False fr ..
  moreover have "hblocks (heap (upd_heap ((heap w)\<lparr>hblocks := bl\<rparr>) ?w)) = bl"
    "out (upd_heap ((heap w)\<lparr>hblocks := bl\<rparr>) ?w) = out w @ ms" by simp_all
  ultimately show ?thesis using ms(2) by blast
qed

lemma timed_part_obeys:
  assumes "armed w" and "ready L bl nb w"
  shows "obeys (acc (cfg w)) (good_result sz nrepeat bl (out w)) (timed_part m fl sz nrepeat w)
    (concat (map (\<lambda>_. round (tr (p_of w)) nb) [0..<unat nrepeat]))"
proof -
  let ?s = "concat (map (\<lambda>_. round (tr (p_of w)) nb) [0..<unat nrepeat])"
  let ?w = "if unat nrepeat = 0 then w else received L nb w"
  have r: "ready L bl nb ?w" using assms(2) by (simp add: ready_received)
  have arrived: "load (heap ?w) (r_buff (p_of ?w)) nb = pattern L 98 nb" if "nrepeat \<noteq> 0"
  proof -
    have "unat nrepeat \<noteq> 0" using that by (simp add: unat_eq_zero)
    then show ?thesis
      using load_store_same [of "heap w" "r_buff (p_of w)" "pattern L 98 nb"]
      by (simp add: received_def)
  qed
  have fin: "obeys (acc (cfg w)) (good_result sz nrepeat bl (out w))
     (andThen (mCheckBufferData m (bufflen (p_of ?w)) 0 0 ?w) (\<lambda>w.
      andThen (if cache (p_of w) \<noteq> 0 then mFreeBuff m (s_buff_orig (p_of w)) NULL w
              else mFreeBuff m (s_buff_orig (p_of w)) (r_buff_orig (p_of w)) w) (\<lambda>w.
      Ret (PyTuple sz nrepeat t1 time, w)))) []" for t1 time
  proof -
    from check_free [OF r, where x = "PyTuple sz nrepeat t1 time"]
    obtain w' ms where eq: "andThen (mCheckBufferData m (bufflen (p_of ?w)) 0 0 ?w) (\<lambda>w.
      andThen (if cache (p_of w) \<noteq> 0 then mFreeBuff m (s_buff_orig (p_of w)) NULL w
              else mFreeBuff m (s_buff_orig (p_of w)) (r_buff_orig (p_of w)) w) (\<lambda>w.
      Ret (PyTuple sz nrepeat t1 time, w))) = Ret (PyTuple sz nrepeat t1 time, w')"
      and w': "hblocks (heap w') = bl" "out w' = out ?w @ ms"
        "ms = [] \<longleftrightarrow> load (heap ?w) (r_buff (p_of ?w)) nb = pattern L 98 nb"
      by (elim exE conjE)
    have "good_result sz nrepeat bl (out w) (PyTuple sz nrepeat t1 time, w')"
      using w' arrived by (auto simp: good_result_def)
    then show ?thesis unfolding eq by (rule obeys.ret)
  qed
  have "obeys (acc (cfg w)) (good_result sz nrepeat bl (out w)) (timed_part m fl sz nrepeat w) (?s @ [])"
    unfolding timed_part_def Let_def
  proof (intro When_obeys obeys_then [OF loop_obeys [OF assms]])
    fix t0 w' t
    assume "w' = ?w"
    then show "obeys (acc (cfg w)) (good_result sz nrepeat bl (out w))
      (andThen (mCheckBufferData m (bufflen (p_of w')) 0 0 w') (\<lambda>w.
      andThen (if cache (p_of w) \<noteq> 0 then mFreeBuff m (s_buff_orig (p_of w)) NULL w
              else mFreeBuff m (s_buff_orig (p_of w)) (r_buff_orig (p_of w)) w) (\<lambda>w.
      Ret (PyTuple sz nrepeat (fl (t - t0)) (if nrepeat = 0 then None
           else Some (fl (fl (t - t0) / real (unat nrepeat)))), w)))) []"
      by (simp only: fin)
  qed
  then show ?thesis by simp
qed

lemma run_sized_obeys:
  assumes "alloc_ok alloc" and "\<forall>h n. alloc h n \<noteq> NULL" and "cache (p_of w) = 0" and role: "role (cfg w)"
    and prep: "asyncReceive (self w) = 0 \<or> (\<forall>w. mPrepareToReceive m w = Ret w)"
    and first: "obeys (acc (cfg w)) (\<lambda>w'. w' = w) (if tr (p_of w) \<noteq> 0
              then andThen (mSendRepeat m sz w) (mSendRepeat m nrepeat) else Ret w) s"
  shows "obeys (acc (cfg w)) (good_result sz nrepeat (hblocks (heap w)) (out w))
    (run_sized m fl sz nrepeat w)
    (s @ after @ sync @
     concat (map (\<lambda>_. round (tr (p_of w)) (unat (size_bytes sz))) [0..<unat nrepeat]))"
proof -
  let ?w = "upd_args (\<lambda>a. a\<lparr>bufflen := sint (size_bytes sz)\<rparr>) w"
  let ?nb = "unat (size_bytes sz)"
  let ?t = "concat (map (\<lambda>_. round (tr (p_of w)) ?nb) [0..<unat nrepeat])"
  have nb: "?nb < 2 ^ 31" using size_bytes_bound [of sz] by simp
  have b: "bufflen (p_of ?w) = int ?nb" by (simp add: sint_size_bytes)
  have c: "cache (p_of ?w) = 0" using assms(3) by simp
  obtain w2 w3 where M: "MyMalloc alloc (int ?nb) 0 0 ?w = Inr w2"
    and nn: "(r_buff_orig (p_of (set_ptrs w2)) = NULL \<or> s_buff_orig (p_of (set_ptrs w2)) = NULL) = False"
    and I: "bufflen (p_of (set_ptrs w2)) = int ?nb" "InitBufferData L (int ?nb) 0 0 (set_ptrs w2) = Inr w3"
    and r: "ready L (hblocks (heap ?w)) ?nb w3" "cfg w3 = cfg ?w"
      "asyncReceive (self w3) = asyncReceive (self ?w)" "out w3 = out ?w"
    using prepared [OF assms(1,2) c b nb, of L] by auto
  have c3: "cfg w3 = cfg w" using r(2) by (simp add: cfg_def)
  have role3: "role (cfg w3)" using role c3 by simp
  have a: "armed (arm w3)" "acc (cfg (arm w3)) = acc (cfg w)" "ready L (hblocks (heap w)) ?nb (arm w3)"
    using arm_law [OF role3 r(1)] r(1) by (simp_all add: arm_keeps c3 ready_arm)
  have T: "obeys (acc (cfg w)) (good_result sz nrepeat (hblocks (heap w)) (out w))
     (timed_part m fl sz nrepeat (arm w3)) ?t"
    using timed_part_obeys [OF a(1,3), of sz nrepeat fl] a(2) cfg_tr [OF c3] r(4) by (simp add: arm_keeps)
  have S: "obeys (acc (cfg w)) (\<lambda>w'. w' = arm w3) (mSync m (arm w3)) sync"
    using sync_law [OF a(1)] a(2) by simp
  have A: "obeys (acc (cfg w)) (\<lambda>w'. w' = arm w3) (mAfterAlignmentInit m w3) after"
    using after_law [OF role3 r(1)] c3 by simp
  have P: "(if asyncReceive (self (arm w3)) \<noteq> 0 then mPrepareToReceive m (arm w3) else Ret (arm w3)) = Ret (arm w3)"
    using prep r(3) by (auto simp: arm_keeps)
  have rest: "andThen (mMyMalloc m (bufflen (p_of ?w)) 0 0 ?w) (\<lambda>w.
     let w = set_ptrs w in
     if r_buff_orig (p_of w) = NULL \<or> s_buff_orig (p_of w) = NULL
     then Ret (PyNoMemory, printf ''couldn't allocate memory'' [] w)
     else
     andThen (mInitBufferData m (bufflen (p_of w)) 0 0 w) (\<lambda>w.
     andThen (mAfterAlignmentInit m w) (\<lambda>w.
     andThen (if asyncReceive (self w) \<noteq> 0 then mPrepareToReceive m w else Ret w) (\<lambda>w.
     andThen (mSync m w) (\<lambda>w.
     timed_part m fl sz nrepeat w))))) = andThen (mAfterAlignmentInit m w3) (\<lambda>w.
     andThen (if asyncReceive (self w) \<noteq> 0 then mPrepareToReceive m w else Ret w) (\<lambda>w.
     andThen (mSync m w) (\<lambda>w. timed_part m fl sz nrepeat w)))"
    unfolding MyMalloc_law b M lift_simps andThen.simps Let_def nn if_False I InitBufferData_law ..
  have S': "obeys (acc (cfg w)) (good_result sz nrepeat (hblocks (heap w)) (out w))
      (andThen (mSync m (arm w3)) (timed_part m fl sz nrepeat)) (sync @ ?t)"
    by (rule obeys_then [OF S]) (simp only: T)
  have "obeys (acc (cfg w)) (good_result sz nrepeat (hblocks (heap w)) (out w))
      (andThen (mAfterAlignmentInit m w3) (\<lambda>w.
       andThen (if asyncReceive (self w) \<noteq> 0 then mPrepareToReceive m w else Ret w) (\<lambda>w.
       andThen (mSync m w) (\<lambda>w. timed_part m fl sz nrepeat w)))) (after @ sync @ ?t)"
    by (rule obeys_then [OF A]) (simp only: P andThen.simps S')
  then show ?thesis
    unfolding run_sized_def
    by (intro obeys_then [OF first]) (simp only: Let_def rest [unfolded Let_def])
qed

text \<open>The transmitter.\<close>

lemma transmitter_obeys:
  assumes "alloc_ok alloc" and "\<forall>h n. alloc h n \<noteq> NULL" and "cache (p_of w) = 0"
    and "role (cfg w)" and "asyncReceive (self w) = 0 \<or> (\<forall>w. mPrepareToReceive m w = Ret w)"
    and "tr (p_of w) \<noteq> 0"
  shows "obeys (acc (cfg w)) (good_result sz nrepeat (hblocks (heap w)) (out w))
    (netpipe_run_iters m fl (Some (sz, nrepeat)) w)
    ((announce sz @ announce nrepeat) @ after @ sync @
     concat (map (\<lambda>_. round (tr (p_of w)) (unat (size_bytes sz))) [0..<unat nrepeat]))"
proof -
  have "obeys (acc (cfg w)) (\<lambda>w'. w' = w) (andThen (mSendRepeat m sz w) (mSendRepeat m nrepeat))
      (announce sz @ announce nrepeat)"
    by (rule obeys_then [OF announce_law]) (simp_all only: announce_law assms(4))
  then show ?thesis
    using run_sized_obeys [OF assms(1-5), of sz nrepeat "announce sz @ announce nrepeat" fl] assms(6)
    by (simp add: netpipe_run_iters_def)
qed

end

text \<open>A module whose receiver learns the size and the repeat count: \<open>announced\<close> is its script.\<close>

locale exchange_module = timed_module m alloc L acc role announce arm after armed sync round
  for m :: "('e, 'r, 'p, 'g) comm_module" and alloc L acc role announce arm after armed sync round +
  fixes announced :: "u32 \<Rightarrow> 's list"
  assumes RecvRepeat_law:
      "role (cfg w) \<Longrightarrow> obeys (acc (cfg w)) (\<lambda>x. x = (n, w)) (mRecvRepeat m w) (announced n)"
begin

text \<open>The receiver, which learns the size and the repeat count from the transmitter.\<close>

lemma receiver_obeys:
  assumes "alloc_ok alloc" and "\<forall>h n. alloc h n \<noteq> NULL" and "cache (p_of w) = 0"
    and role: "role (cfg w)" and "asyncReceive (self w) = 0 \<or> (\<forall>w. mPrepareToReceive m w = Ret w)"
    and "tr (p_of w) = 0" and "rcv (p_of w) \<noteq> 0" and "sz \<noteq> 0"
  shows "obeys (acc (cfg w)) (good_result sz nrepeat (hblocks (heap w)) (out w))
    (netpipe_run_iters m fl None w)
    ((announced sz @ announced nrepeat) @ after @ sync @
     concat (map (\<lambda>_. round 0 (unat (size_bytes sz))) [0..<unat nrepeat]))"
proof -
  let ?Q = "good_result sz nrepeat (hblocks (heap w)) (out w)"
  let ?t = "after @ sync @
     concat (map (\<lambda>_. round 0 (unat (size_bytes sz))) [0..<unat nrepeat])"
  have "obeys (acc (cfg w)) ?Q (run_sized m fl sz nrepeat w) ?t"
    using run_sized_obeys [OF assms(1-5), of sz nrepeat "[]" fl] assms(6)
    by (simp add: obeys.ret)
  then have "obeys (acc (cfg w)) ?Q
      (andThen (mRecvRepeat m w) (\<lambda>(nrepeat, w).
         if sz = 0 then Ret (PyBuildNone, w) else run_sized m fl sz nrepeat w))
      (announced nrepeat @ ?t)"
    by (intro obeys_then [OF RecvRepeat_law [of _ nrepeat]]) (simp_all add: assms(8) role)
  then have "obeys (acc (cfg w)) ?Q
      (andThen (mRecvRepeat m w) (\<lambda>(sz, w). andThen (mRecvRepeat m w) (\<lambda>(nrepeat, w).
         if sz = 0 then Ret (PyBuildNone, w) else run_sized m fl sz nrepeat w)))
      (announced sz @ announced nrepeat @ ?t)"
    by (intro obeys_then [OF RecvRepeat_law [of _ sz]]) (simp_all add: role)
  then show ?thesis using assms(7) by (simp add: netpipe_run_iters_def)
qed

text \<open>The size 0 tells the receiver to stop.\<close>

lemma receiver_stops:
  assumes role: "role (cfg w)" and "rcv (p_of w) \<noteq> 0"
  shows "obeys (acc (cfg w)) (\<lambda>x. x = (PyBuildNone, w)) (netpipe_run_iters m fl None w)
    (announced 0 @ announced nrepeat)"
proof -
  have "obeys (acc (cfg w)) (\<lambda>x. x = (PyBuildNone, w))
      (andThen (mRecvRepeat m w) (\<lambda>(nrepeat, w).
         if (0::u32) = 0 then Ret (PyBuildNone, w) else run_sized m fl 0 nrepeat w))
      (announced nrepeat @ [])"
    by (intro obeys_then [OF RecvRepeat_law [of _ nrepeat]]) (auto intro: obeys.ret simp: role)
  then have "obeys (acc (cfg w)) (\<lambda>x. x = (PyBuildNone, w))
      (andThen (mRecvRepeat m w) (\<lambda>(sz, w). andThen (mRecvRepeat m w) (\<lambda>(nrepeat, w).
         if sz = 0 then Ret (PyBuildNone, w) else run_sized m fl sz nrepeat w)))
      (announced 0 @ announced nrepeat @ [])"
    by (intro obeys_then [OF RecvRepeat_law [of _ 0]]) (simp_all add: role)
  then show ?thesis using assms by (simp add: netpipe_run_iters_def)
qed

end

text \<open>
  A module whose sends and receives are transfers of the message between the buffers and the
  network: \<open>give\<close> and \<open>get\<close> are the scripts of sending and receiving given bytes.
\<close>

definition round_script :: "(byte list \<Rightarrow> 's list) \<Rightarrow> (byte list \<Rightarrow> 's list) \<Rightarrow> lfsr \<Rightarrow> int \<Rightarrow> nat \<Rightarrow> 's list" where
  "round_script give get L tx nb = (if tx \<noteq> 0 then give (pattern L 98 nb) @ get (pattern L 98 nb)
                                     else get (pattern L 98 nb) @ give (pattern L 98 nb))"

locale transfer_module = buffer_module m alloc L
  for m :: "('e, 'r, 'p, 'g) comm_module" and alloc :: allocator and L :: lfsr +
  fixes acc :: "('p, 'g) cfg \<Rightarrow> ('e, 'r, 's) accepts"
    and role :: "('p, 'g) cfg \<Rightarrow> bool"
    and announce :: "u32 \<Rightarrow> 's list"
    and announced :: "u32 \<Rightarrow> 's list"
    and sync :: "'s list"
    and give :: "byte list \<Rightarrow> 's list"
    and get :: "byte list \<Rightarrow> 's list"
  assumes framed_acc: "framed (acc c)"
    and AfterAlignmentInit_law: "mAfterAlignmentInit m w = Ret w"
    and SendRepeat_law: "role (cfg w) \<Longrightarrow> obeys (acc (cfg w)) (\<lambda>w'. w' = w) (mSendRepeat m n w) (announce n)"
    and RecvRepeat_law: "role (cfg w) \<Longrightarrow> obeys (acc (cfg w)) (\<lambda>x. x = (n, w)) (mRecvRepeat m w) (announced n)"
    and Sync_law: "role (cfg w) \<Longrightarrow> obeys (acc (cfg w)) (\<lambda>w'. w' = w) (mSync m w) sync"
    and SendData_law:
      "role (cfg w) \<Longrightarrow> valid (heap w) (s_ptr (p_of w)) (nat (bufflen (p_of w))) \<Longrightarrow>
       obeys (acc (cfg w)) (\<lambda>w'. w' = w) (mSendData m w)
         (give (load (heap w) (s_ptr (p_of w)) (nat (bufflen (p_of w)))))"
    and RecvData_law:
      "role (cfg w) \<Longrightarrow> valid (heap w) (r_ptr (p_of w)) (nat (bufflen (p_of w))) \<Longrightarrow>
       length bs = nat (bufflen (p_of w)) \<Longrightarrow>
       obeys (acc (cfg w)) (\<lambda>w'. w' = upd_heap (store (heap w) (r_ptr (p_of w)) bs) w)
         (mRecvData m w) (get bs)"
begin

lemma send_obeys:
  "role (cfg w) \<Longrightarrow> ready L bl nb w \<Longrightarrow>
   obeys (acc (cfg w)) (\<lambda>w'. w' = w) (mSendData m w) (give (pattern L 98 nb))"
  using SendData_law [of w] ready_valid(2) [of L bl nb w] by (simp add: ready_def Let_def)

lemma recv_obeys:
  "role (cfg w) \<Longrightarrow> ready L bl nb w \<Longrightarrow>
   obeys (acc (cfg w)) (\<lambda>w'. w' = received L nb w) (mRecvData m w) (get (pattern L 98 nb))"
  using RecvData_law [of w "pattern L 98 nb"] ready_valid(1) [of L bl nb w]
  by (simp add: ready_def Let_def received_def)

lemma round_obeys:
  assumes role: "role (cfg w)" and "ready L bl nb w"
  shows "obeys (acc (cfg w)) (\<lambda>w'. w' = received L nb w)
    (if tr (p_of w) \<noteq> 0 then andThen (mSendData m w) (mRecvData m)
     else andThen (mRecvData m w) (mSendData m)) (round_script give get L (tr (p_of w)) nb)"
proof (cases "tr (p_of w) = 0")
  case True
  have "obeys (acc (cfg w)) (\<lambda>w'. w' = received L nb w) (mSendData m (received L nb w)) (give (pattern L 98 nb))"
    using send_obeys [OF _ ready_received [OF assms(2)]] role by simp
  then show ?thesis
    using obeys_andThen [OF framed_acc recv_obeys [OF assms]] True by (simp add: round_script_def)
next
  case False
  then show ?thesis
    using obeys_andThen [OF framed_acc send_obeys [OF assms]] recv_obeys [OF assms]
    by (simp add: round_script_def)
qed

end

text \<open>Such a module delivers the pattern in every round.\<close>

sublocale transfer_module \<subseteq> exchange: exchange_module m alloc L acc role announce
    "\<lambda>w. w" "[]" "\<lambda>w. role (cfg w)" sync "round_script give get L" announced
  by unfold_locales
    (simp_all add: framed_acc SendRepeat_law Sync_law round_obeys RecvRepeat_law AfterAlignmentInit_law obeys.ret)

end
