(* ===== verification/Sockets.thy ===== *)
theory Sockets
  imports NP_Types
begin

text \<open>
  The socket calls that the sources make, as the external calls of an interaction program, and
  the semantics of two processes joined by a stream connection: every interleaving of the two,
  every way a \<open>read\<close> may return fewer bytes than asked for, short returns of long \<open>write\<close>s,
  and bounded kernel buffers.  The main result is a proof rule for total correctness: when each
  program follows its side of a byte-level script and the two scripts can be played against
  each other once, every run of the pair ends, none gets stuck, and both programs return with
  their postconditions.
\<close>

section \<open>Calls and replies\<close>

record sockaddr_in =
  sin_family :: int
  sin_port :: "16 word"
  sin_addr :: u32

datatype sock_ev =
    Socket int int int
  | Getprotobyname string
  | Setsockopt int int int int
  | Getsockopt int int int
  | Gethostbyname string
  | Inet_addr string
  | Bind int sockaddr_in
  | Listen int int
  | Accept int
  | Connect int sockaddr_in
  | Read int nat
  | Write int "byte list"
  | Close int

text \<open>
  A reply: the value the call returns (-1 also stands for a null pointer), \<open>errno\<close>, and the
  bytes it leaves in the caller's object.
\<close>

record reply =
  rv :: int
  errno :: int
  rdata :: "byte list"

definition wrote :: "nat \<Rightarrow> reply" where
  "wrote n = \<lparr>rv = int n, errno = 0, rdata = []\<rparr>"

definition got :: "byte list \<Rightarrow> reply" where
  "got bs = \<lparr>rv = int (length bs), errno = 0, rdata = bs\<rparr>"

lemma wrote_simps [simp]: "rv (wrote n) = int n" "rdata (wrote n) = []"
  by (simp_all add: wrote_def)

lemma got_simps [simp]: "rv (got bs) = int (length bs)" "rdata (got bs) = bs"
  by (simp_all add: got_def)

type_synonym 'a sprog = "(sock_ev, reply, 'a) prog"

section \<open>Two processes on a stream connection\<close>

text \<open>
  A blocking \<open>write\<close> moves its bytes into the connection as room appears and then returns their
  number; it may return early, with part of the bytes, only when it was asked for more than
  \<open>atomic\<close> bytes.  \<open>w\<close> counts the bytes that the write in progress has moved so far.
\<close>

definition atomic :: nat where
  "atomic = 8"

inductive node_step :: "int \<Rightarrow> nat \<Rightarrow> 'a sprog \<Rightarrow> nat \<Rightarrow> byte list \<Rightarrow> byte list \<Rightarrow>
    'a sprog \<Rightarrow> nat \<Rightarrow> byte list \<Rightarrow> byte list \<Rightarrow> bool" for fd cap where
  clock: "node_step fd cap (Clock k) 0 i q (k t) 0 i q"
| transfer: "w < length bs \<Longrightarrow> length q < cap \<Longrightarrow>
    node_step fd cap (Call (Write fd bs) k) w i q (Call (Write fd bs) k) (Suc w) i (q @ [bs ! w])"
| write_done: "node_step fd cap (Call (Write fd bs) k) (length bs) i q (k (wrote (length bs))) 0 i q"
| write_short: "0 < w \<Longrightarrow> w < length bs \<Longrightarrow> atomic < length bs \<Longrightarrow>
    node_step fd cap (Call (Write fd bs) k) w i q (k (wrote w)) 0 i q"
| read_some: "0 < j \<Longrightarrow> j \<le> n \<Longrightarrow> j \<le> length i \<Longrightarrow>
    node_step fd cap (Call (Read fd n) k) 0 i q (k (got (take j i))) 0 (drop j i) q"

inductive_cases node_step_RetE: "node_step fd cap (Ret x) w i q p' w' i' q'"
inductive_cases node_step_ClockE: "node_step fd cap (Clock k) w i q p' w' i' q'"
inductive_cases node_step_WriteE: "node_step fd cap (Call (Write fd' bs) k) w i q p' w' i' q'"
inductive_cases node_step_ReadE: "node_step fd cap (Call (Read fd' n) k) w i q p' w' i' q'"

text \<open>The pair: both programs with their write counts, and the two directions in flight.\<close>

record ('a, 'b) pair =
  prog1 :: "'a sprog"
  cnt1 :: nat
  prog2 :: "'b sprog"
  cnt2 :: nat
  chan12 :: "byte list"
  chan21 :: "byte list"

inductive pair_step :: "int \<Rightarrow> int \<Rightarrow> nat \<Rightarrow> ('a, 'b) pair \<Rightarrow> ('a, 'b) pair \<Rightarrow> bool"
  for fd1 fd2 cap where
  step1: "node_step fd1 cap (prog1 s) (cnt1 s) (chan21 s) (chan12 s) p w i q \<Longrightarrow>
    pair_step fd1 fd2 cap s (s\<lparr>prog1 := p, cnt1 := w, chan21 := i, chan12 := q\<rparr>)"
| step2: "node_step fd2 cap (prog2 s) (cnt2 s) (chan12 s) (chan21 s) p w i q \<Longrightarrow>
    pair_step fd1 fd2 cap s (s\<lparr>prog2 := p, cnt2 := w, chan12 := i, chan21 := q\<rparr>)"

definition pair_init :: "'a sprog \<Rightarrow> 'b sprog \<Rightarrow> ('a, 'b) pair" where
  "pair_init p1 p2 = \<lparr>prog1 = p1, cnt1 = 0, prog2 = p2, cnt2 = 0, chan12 = [], chan21 = []\<rparr>"

text \<open>Both programs have returned, with their postconditions, and nothing is left in flight.\<close>

definition both_done :: "('a \<Rightarrow> bool) \<Rightarrow> ('b \<Rightarrow> bool) \<Rightarrow> ('a, 'b) pair \<Rightarrow> bool" where
  "both_done Q1 Q2 s \<longleftrightarrow> (\<exists>x y. prog1 s = Ret x \<and> Q1 x \<and> prog2 s = Ret y \<and> Q2 y \<and>
     chan12 s = [] \<and> chan21 s = [])"

section \<open>Scripts\<close>

text \<open>One byte sent or one byte received.\<close>

datatype act = S byte | R byte

abbreviation snd_s :: "byte list \<Rightarrow> act list" where "snd_s bs \<equiv> map S bs"
abbreviation rcv_s :: "byte list \<Rightarrow> act list" where "rcv_s bs \<equiv> map R bs"

fun sends :: "act list \<Rightarrow> byte list" where
  "sends [] = []"
| "sends (S b # t) = b # sends t"
| "sends (R b # t) = sends t"

fun recvs :: "act list \<Rightarrow> byte list" where
  "recvs [] = []"
| "recvs (S b # t) = recvs t"
| "recvs (R b # t) = b # recvs t"

lemma sends_append [simp]: "sends (s @ t) = sends s @ sends t"
  by (induction s rule: sends.induct) auto

lemma recvs_append [simp]: "recvs (s @ t) = recvs s @ recvs t"
  by (induction s rule: recvs.induct) auto

lemma sends_snd_s [simp]: "sends (snd_s bs) = bs" "sends (rcv_s bs) = []"
  by (induction bs) auto

lemma recvs_rcv_s [simp]: "recvs (rcv_s bs) = bs" "recvs (snd_s bs) = []"
  by (induction bs) auto

text \<open>
  \<open>follows fd Q p t\<close>: on the connection \<open>fd\<close> the program \<open>p\<close> plays exactly the script \<open>t\<close>,
  however its reads are cut into pieces and its long writes return short, then returns a value
  with \<open>Q\<close>.  In particular it neither exits nor touches memory it must not.
\<close>

inductive follows :: "int \<Rightarrow> ('a \<Rightarrow> bool) \<Rightarrow> 'a sprog \<Rightarrow> act list \<Rightarrow> bool" for fd Q where
  ret: "Q x \<Longrightarrow> follows fd Q (Ret x) []"
| clock: "(\<And>c. follows fd Q (k c) t) \<Longrightarrow> follows fd Q (Clock k) t"
| wr: "bs \<noteq> [] \<Longrightarrow> follows fd Q (k (wrote (length bs))) t \<Longrightarrow>
    (\<And>j. 0 < j \<Longrightarrow> j < length bs \<Longrightarrow> atomic < length bs \<Longrightarrow>
       follows fd Q (k (wrote j)) (snd_s (drop j bs) @ t)) \<Longrightarrow>
    follows fd Q (Call (Write fd bs) k) (snd_s bs @ t)"
| rd: "bs \<noteq> [] \<Longrightarrow>
    (\<And>j. 0 < j \<Longrightarrow> j \<le> length bs \<Longrightarrow> follows fd Q (k (got (take j bs))) (rcv_s (drop j bs) @ t)) \<Longrightarrow>
    follows fd Q (Call (Read fd (length bs)) k) (rcv_s bs @ t)"

lemma follows_andThen:
  assumes "follows fd P p s" and "\<And>x. P x \<Longrightarrow> follows fd Q (f x) t"
  shows "follows fd Q (andThen p f) (s @ t)"
  using assms(1)
proof (induction rule: follows.induct)
  case (ret x)
  then show ?case using assms(2) by simp
next
  case (clock k s)
  then show ?case by (auto intro: follows.clock)
next
  case (wr bs k s)
  have "follows fd Q (Call (Write fd bs) (\<lambda>r. andThen (k r) f)) (snd_s bs @ (s @ t))"
    using wr by (intro follows.wr) auto
  then show ?case by simp
next
  case (rd bs k s)
  have "follows fd Q (Call (Read fd (length bs)) (\<lambda>r. andThen (k r) f)) (rcv_s bs @ (s @ t))"
    using rd by (intro follows.rd) auto
  then show ?case by simp
qed

lemma follows_mono: "follows fd P p t \<Longrightarrow> (\<And>x. P x \<Longrightarrow> Q x) \<Longrightarrow> follows fd Q p t"
  by (induction rule: follows.induct) (auto intro: follows.intros)

text \<open>The same as an instance of the general notion.\<close>

inductive sock_acc :: "int \<Rightarrow> (sock_ev, reply, act) accepts" for fd where
  wr: "bs \<noteq> [] \<Longrightarrow> sock_acc fd (Write fd bs) (snd_s bs @ t) (\<lambda>r u. r = wrote (length bs) \<and> u = t \<or>
    (\<exists>j. 0 < j \<and> j < length bs \<and> atomic < length bs \<and> r = wrote j \<and> u = snd_s (drop j bs) @ t))"
| rd: "bs \<noteq> [] \<Longrightarrow> sock_acc fd (Read fd (length bs)) (rcv_s bs @ t) (\<lambda>r u.
    \<exists>j. 0 < j \<and> j \<le> length bs \<and> r = got (take j bs) \<and> u = rcv_s (drop j bs) @ t)"

lemma follows_obeys: "follows fd Q p t \<longleftrightarrow> obeys (sock_acc fd) Q p t"
proof
  assume "follows fd Q p t"
  then show "obeys (sock_acc fd) Q p t"
  proof (induction rule: follows.induct)
    case (wr bs k t)
    then show ?case by (intro obeys.call [where acc = "sock_acc fd", OF sock_acc.wr]) auto
  next
    case (rd bs k t)
    then show ?case by (intro obeys.call [where acc = "sock_acc fd", OF sock_acc.rd]) auto
  qed (auto intro: obeys.intros)
next
  assume "obeys (sock_acc fd) Q p t"
  then show "follows fd Q p t"
  proof (induction rule: obeys.induct)
    case (call e s R k)
    from call.hyps(1) show ?case
      by cases (use call.IH in \<open>auto intro: follows.wr follows.rd\<close>)
  qed (auto intro: follows.intros)
qed

lemma framed_sock_acc: "framed (sock_acc fd)"
  unfolding framed_def
proof (intro allI impI)
  fix e s R t assume "sock_acc fd e s R"
  then show "\<exists>R'. sock_acc fd e (s @ t) R' \<and> (\<forall>r u. R' r u \<longrightarrow> (\<exists>s'. R r s' \<and> u = s' @ t))"
  proof cases
    case (wr bs u)
    show ?thesis unfolding wr append_assoc by (intro exI conjI, rule sock_acc.wr [OF wr(4)]) auto
  next
    case (rd bs u)
    show ?thesis unfolding rd append_assoc by (intro exI conjI, rule sock_acc.rd [OF rd(4)]) auto
  qed
qed

section \<open>Playing two scripts against each other\<close>

type_synonym play = "byte list \<times> byte list \<times> act list \<times> act list"

fun side1 :: "nat \<Rightarrow> play \<Rightarrow> play option" where
  "side1 cap (c, d, S b # t, u) = (if length c < cap then Some (c @ [b], d, t, u) else None)"
| "side1 cap (c, x # d, R b # t, u) = (if x = b then Some (c, d, t, u) else None)"
| "side1 cap _ = None"

fun side2 :: "nat \<Rightarrow> play \<Rightarrow> play option" where
  "side2 cap (c, d, t, S b # u) = (if length d < cap then Some (c, d @ [b], t, u) else None)"
| "side2 cap (x # c, d, t, R b # u) = (if x = b then Some (c, d, t, u) else None)"
| "side2 cap _ = None"

definition byte_step :: "nat \<Rightarrow> play \<Rightarrow> play \<Rightarrow> bool" where
  "byte_step cap x y \<longleftrightarrow> side1 cap x = Some y \<or> side2 cap x = Some y"

abbreviation final :: play where "final \<equiv> ([], [], [], [])"

definition plays :: "nat \<Rightarrow> play \<Rightarrow> bool" where
  "plays cap x \<longleftrightarrow> (byte_step cap)\<^sup>*\<^sup>* x final"

lemma byte_step_final: "\<not> byte_step cap final y"
  by (simp add: byte_step_def)

text \<open>The two sides do not disturb each other: one step of each commutes.\<close>

fun_cases side1_SomeE: "side1 cap x = Some y"
fun_cases side2_SomeE: "side2 cap x = Some y"

lemma sides_commute:
  "side1 cap x = Some y \<Longrightarrow> side2 cap x = Some z \<Longrightarrow> \<exists>u. side2 cap y = Some u \<and> side1 cap z = Some u"
  by (elim side1_SomeE side2_SomeE) (auto split: if_splits)

lemma byte_step_diamond:
  "byte_step cap x y \<Longrightarrow> byte_step cap x z \<Longrightarrow> y = z \<or> (\<exists>u. byte_step cap y u \<and> byte_step cap z u)"
  unfolding byte_step_def by (metis option.inject sides_commute)

lemma plays_step: "plays cap x \<Longrightarrow> byte_step cap x y \<Longrightarrow> plays cap y"
  unfolding plays_def
proof (induction arbitrary: y rule: converse_rtranclp_induct)
  case base
  then show ?case using byte_step_final by blast
next
  case (step x z)
  from byte_step_diamond [OF step.hyps(1) step.prems] show ?case
  proof
    assume "z = y"
    then show ?case using step.hyps(2) by simp
  next
    assume "\<exists>u. byte_step cap z u \<and> byte_step cap y u"
    then obtain u where "byte_step cap z u" "byte_step cap y u" by blast
    with step.IH [of u] show ?case by (meson converse_rtranclp_into_rtranclp)
  qed
qed

lemma plays_streams:
  "plays cap (c, d, t, u) \<Longrightarrow> c @ sends t = recvs u \<and> d @ sends u = recvs t"
proof -
  have "(byte_step cap)\<^sup>*\<^sup>* x final \<Longrightarrow>
    (case x of (c, d, t, u) \<Rightarrow> c @ sends t = recvs u \<and> d @ sends u = recvs t)" for x
  proof (induction rule: converse_rtranclp_induct)
    case (step x y)
    from step.hyps(1) step.IH show ?case
      by (auto simp: byte_step_def elim!: side1_SomeE side2_SomeE split: if_splits)
  qed simp
  then show "plays cap (c, d, t, u) \<Longrightarrow> ?thesis" by (fastforce simp: plays_def)
qed

lemma plays_progress: "plays cap x \<Longrightarrow> x = final \<or> (\<exists>y. byte_step cap x y)"
  unfolding plays_def by (metis converse_rtranclpE)

lemma plays_rcv1: "plays cap (c, bs @ d, rcv_s bs @ t, u) \<Longrightarrow> plays cap (c, d, t, u)"
proof (induction bs)
  case (Cons b bs)
  have "byte_step cap (c, (b # bs) @ d, rcv_s (b # bs) @ t, u) (c, bs @ d, rcv_s bs @ t, u)"
    by (simp add: byte_step_def)
  with Cons show ?case using plays_step by blast
qed simp

lemma plays_rcv2: "plays cap (bs @ c, d, t, rcv_s bs @ u) \<Longrightarrow> plays cap (c, d, t, u)"
proof (induction bs)
  case (Cons b bs)
  have "byte_step cap ((b # bs) @ c, d, t, rcv_s (b # bs) @ u) (bs @ c, d, t, rcv_s bs @ u)"
    by (simp add: byte_step_def)
  with Cons show ?case using plays_step by blast
qed simp

section \<open>The rule\<close>

inductive_cases follows_RetE: "follows fd Q (Ret x) t"
inductive_cases follows_AbortE: "follows fd Q (Abort e) t"
inductive_cases follows_ClockE: "follows fd Q (Clock k) t"
inductive_cases follows_CallE: "follows fd Q (Call e k) t"

definition wlen :: "'a sprog \<Rightarrow> nat" where
  "wlen p = (case p of Call (Write fd bs) k \<Rightarrow> length bs | _ \<Rightarrow> 0)"

text \<open>What is left of a script while a write of the program is partly done.\<close>

definition node_ok :: "int \<Rightarrow> ('a \<Rightarrow> bool) \<Rightarrow> 'a sprog \<Rightarrow> nat \<Rightarrow> act list \<Rightarrow> bool" where
  "node_ok fd Q p w t \<longleftrightarrow> (\<exists>s. follows fd Q p s \<and> w \<le> wlen p \<and> t = drop w s)"

lemma wlen_simps [simp]:
  "wlen (Ret x) = 0" "wlen (Abort e) = 0" "wlen (Clock k) = 0"
  "wlen (Call (Write fd bs) c) = length bs" "wlen (Call (Read fd n) c) = 0"
  by (simp_all add: wlen_def)

lemma node_ok_0: "node_ok fd Q p 0 t \<longleftrightarrow> follows fd Q p t"
  by (simp add: node_ok_def)

text \<open>One step of one process, as steps of the script.\<close>

definition moved :: "nat \<Rightarrow> byte list \<Rightarrow> byte list \<Rightarrow> act list \<Rightarrow> byte list \<Rightarrow> byte list \<Rightarrow> act list \<Rightarrow> bool" where
  "moved cap i q t i' q' t' \<longleftrightarrow>
     t' = t \<and> i' = i \<and> q' = q \<or>
     (\<exists>b. t = S b # t' \<and> length q < cap \<and> i' = i \<and> q' = q @ [b]) \<or>
     (\<exists>bs. t = rcv_s bs @ t' \<and> i = bs @ i' \<and> q' = q)"

lemma node_ok_transfer:
  assumes "node_ok fd Q (Call (Write fd bs) k) w t" and "w < length bs"
  shows "\<exists>t'. t = S (bs ! w) # t' \<and> node_ok fd Q (Call (Write fd bs) k) (Suc w) t'"
proof -
  from assms(1) obtain s where s: "follows fd Q (Call (Write fd bs) k) s" "t = drop w s"
    by (auto simp: node_ok_def)
  from s(1) obtain s' where "s = snd_s bs @ s'" by (auto elim: follows_CallE)
  with s(2) assms(2) have "t = S (bs ! w) # drop (Suc w) s"
    by (metis Cons_nth_drop_Suc length_append length_map nth_append nth_map trans_less_add1)
  moreover have "node_ok fd Q (Call (Write fd bs) k) (Suc w) (drop (Suc w) s)"
    using s(1) assms(2) by (auto simp: node_ok_def)
  ultimately show ?thesis by blast
qed

lemma node_ok_write_ret:
  assumes "node_ok fd Q (Call (Write fd bs) k) w t"
    and "w = length bs \<or> 0 < w \<and> w < length bs \<and> atomic < length bs"
  shows "node_ok fd Q (k (wrote w)) 0 t"
proof -
  from assms(1) obtain s where s: "follows fd Q (Call (Write fd bs) k) s" "t = drop w s" "w \<le> length bs"
    by (auto simp: node_ok_def)
  from s(1) show ?thesis
    using assms(2) s(2,3) by (auto simp: node_ok_0 drop_map elim!: follows_CallE)
qed

lemma node_ok_read:
  assumes "node_ok fd Q (Call (Read fd n) k) 0 t" and "i @ r = recvs t"
    and "0 < j" "j \<le> n" "j \<le> length i"
  shows "\<exists>t'. t = rcv_s (take j i) @ t' \<and> node_ok fd Q (k (got (take j i))) 0 t'"
proof -
  from assms(1) obtain bs s where bs: "bs \<noteq> []" "n = length bs" "t = rcv_s bs @ s"
    and next_ok: "\<And>j. 0 < j \<Longrightarrow> j \<le> length bs \<Longrightarrow>
      follows fd Q (k (got (take j bs))) (rcv_s (drop j bs) @ s)"
    by (auto simp: node_ok_0 elim: follows_CallE)
  have "take j i = take j (i @ r)" using assms(5) by simp
  also have "\<dots> = take j bs" using assms(2,4) bs by simp
  finally have tk: "take j i = take j bs" .
  have "t = rcv_s (take j bs) @ (rcv_s (drop j bs) @ s)"
    by (simp add: bs(3) flip: map_append append_assoc)
  then show ?thesis
    using next_ok [of j] assms(3,4) bs(2) tk by (auto simp: node_ok_0)
qed

lemma node_step_ok:
  assumes "node_step fd cap p w i q p' w' i' q'" and "node_ok fd Q p w t" and "i @ r = recvs t"
  shows "\<exists>t'. node_ok fd Q p' w' t' \<and> moved cap i q t i' q' t'"
  using assms
proof (cases rule: node_step.cases)
  case (clock k c)
  with assms(2) have "node_ok fd Q p' w' t" by (auto simp: node_ok_0 elim: follows_ClockE)
  with clock show ?thesis by (auto simp: moved_def)
next
  case (transfer bs k)
  with assms(2) node_ok_transfer [of fd Q bs k w t] show ?thesis by (auto simp: moved_def)
next
  case (write_done bs k)
  with assms(2) node_ok_write_ret [of fd Q bs k w t] show ?thesis by (auto simp: moved_def)
next
  case (write_short bs k)
  with assms(2) node_ok_write_ret [of fd Q bs k w t] show ?thesis by (auto simp: moved_def)
next
  case (read_some j n k)
  with assms(2,3) obtain t' where "t = rcv_s (take j i) @ t'" "node_ok fd Q (k (got (take j i))) 0 t'"
    using node_ok_read [of fd Q n k t i r j] by auto
  with read_some show ?thesis unfolding moved_def by (metis append_take_drop_id)
qed

text \<open>A process whose next script step is possible can move; one with nothing left returns.\<close>

lemma node_ok_progress:
  assumes "node_ok fd Q p w t"
    and "\<And>b t'. t = S b # t' \<Longrightarrow> length q < cap" and "\<And>b t'. t = R b # t' \<Longrightarrow> i \<noteq> []"
  shows "(\<exists>p' w' i' q'. node_step fd cap p w i q p' w' i' q') \<or> (\<exists>x. p = Ret x \<and> Q x \<and> t = [])"
proof -
  from assms(1) obtain s where s: "follows fd Q p s" "t = drop w s" "w \<le> wlen p"
    by (auto simp: node_ok_def)
  from s(1) show ?thesis
  proof cases
    case (ret x)
    with s show ?thesis by simp
  next
    case (clock k)
    then show ?thesis using s(3) node_step.clock [of fd cap k i q undefined] by auto
  next
    case (wr bs k s')
    show ?thesis
    proof (cases "w < length bs")
      case True
      with wr s have "\<exists>t'. t = S (bs ! w) # t'"
        using node_ok_transfer [of fd Q bs k w t] assms(1) by auto
      then have "length q < cap" using assms(2) by blast
      with True wr show ?thesis using node_step.transfer by blast
    next
      case False
      with wr s(3) have "w = length bs" by simp
      with wr show ?thesis using node_step.write_done by blast
    qed
  next
    case (rd bs k s')
    then have "w = 0" using s(3) by simp
    with rd s have "i \<noteq> []" using assms(3) by (cases bs) auto
    then have "node_step fd cap p w i q (k (got (take 1 i))) 0 (drop 1 i) q"
      using rd \<open>w = 0\<close> by (auto intro!: node_step.read_some simp: Suc_le_eq)
    then show ?thesis by blast
  qed
qed

definition node_rel :: "(('a sprog \<times> nat) \<times> ('a sprog \<times> nat)) set" where
  "node_rel = {(p, q). sub p q} <*lex*> measure (\<lambda>x. x)"

lemma wf_node_rel: "wf node_rel"
  unfolding node_rel_def using wfp_sub by (auto simp: wfp_def intro: wf_lex_prod)

lemma node_step_decreases:
  "node_step fd cap p w i q p' w' i' q' \<Longrightarrow> ((p', wlen p' - w'), (p, wlen p - w)) \<in> node_rel"
  by (erule node_step.cases) (auto simp: node_rel_def intro: sub.intros)

definition pair_rank :: "('a, 'b) pair \<Rightarrow> ('a sprog \<times> nat) \<times> ('b sprog \<times> nat)" where
  "pair_rank s = ((prog1 s, wlen (prog1 s) - cnt1 s), (prog2 s, wlen (prog2 s) - cnt2 s))"

definition pair_rel :: "(('a, 'b) pair \<times> ('a, 'b) pair) set" where
  "pair_rel = inv_image (node_rel <*lex*> node_rel) pair_rank"

lemma wf_pair_rel: "wf pair_rel"
  unfolding pair_rel_def by (intro wf_inv_image wf_lex_prod wf_node_rel)

lemma pair_step_decreases: "pair_step fd1 fd2 cap s s' \<Longrightarrow> (s', s) \<in> pair_rel"
  by (erule pair_step.cases) (auto simp: pair_rel_def pair_rank_def dest: node_step_decreases)

text \<open>The invariant of the pair: each process is on its script, and the scripts still play.\<close>

definition pair_ok :: "int \<Rightarrow> int \<Rightarrow> nat \<Rightarrow> ('a \<Rightarrow> bool) \<Rightarrow> ('b \<Rightarrow> bool) \<Rightarrow> ('a, 'b) pair \<Rightarrow> bool" where
  "pair_ok fd1 fd2 cap Q1 Q2 s \<longleftrightarrow> (\<exists>t u.
     node_ok fd1 Q1 (prog1 s) (cnt1 s) t \<and> node_ok fd2 Q2 (prog2 s) (cnt2 s) u \<and>
     plays cap (chan12 s, chan21 s, t, u))"

lemma plays_snd1: "length c < cap \<Longrightarrow> plays cap (c, d, S b # t, u) \<Longrightarrow> plays cap (c @ [b], d, t, u)"
  by (rule plays_step) (auto simp: byte_step_def)

lemma plays_snd2: "length d < cap \<Longrightarrow> plays cap (c, d, t, S b # u) \<Longrightarrow> plays cap (c, d @ [b], t, u)"
  by (rule plays_step) (auto simp: byte_step_def)

lemma plays_moved1: "moved cap d c t d' c' t' \<Longrightarrow> plays cap (c, d, t, u) \<Longrightarrow> plays cap (c', d', t', u)"
  unfolding moved_def
  by (auto intro: plays_rcv1 plays_snd1)

lemma plays_moved2: "moved cap c d u c' d' u' \<Longrightarrow> plays cap (c, d, t, u) \<Longrightarrow> plays cap (c', d', t, u')"
  unfolding moved_def
  by (auto intro: plays_rcv2 plays_snd2)

lemma pair_step_ok:
  assumes "pair_step fd1 fd2 cap s s'" and "pair_ok fd1 fd2 cap Q1 Q2 s"
  shows "pair_ok fd1 fd2 cap Q1 Q2 s'"
proof -
  from assms(2) obtain t u where ok: "node_ok fd1 Q1 (prog1 s) (cnt1 s) t"
      "node_ok fd2 Q2 (prog2 s) (cnt2 s) u" and pl: "plays cap (chan12 s, chan21 s, t, u)"
    by (auto simp: pair_ok_def)
  note str = plays_streams [OF pl]
  from assms(1) show ?thesis
  proof cases
    case (step1 p w i q)
    then obtain t' where "node_ok fd1 Q1 p w t'" "moved cap (chan21 s) (chan12 s) t i q t'"
      using node_step_ok ok(1) str by blast
    with step1 ok(2) pl show ?thesis
      by (auto simp: pair_ok_def dest: plays_moved1)
  next
    case (step2 p w i q)
    then obtain u' where "node_ok fd2 Q2 p w u'" "moved cap (chan12 s) (chan21 s) u i q u'"
      using node_step_ok ok(2) str by blast
    with step2 ok(1) pl show ?thesis
      by (auto simp: pair_ok_def dest: plays_moved2)
  qed
qed

lemma pair_ok_progress:
  assumes "pair_ok fd1 fd2 cap Q1 Q2 s"
  shows "(\<exists>s'. pair_step fd1 fd2 cap s s') \<or> both_done Q1 Q2 s"
proof (rule disjCI)
  assume stuck: "\<not> both_done Q1 Q2 s"
  from assms obtain t u where ok: "node_ok fd1 Q1 (prog1 s) (cnt1 s) t"
      "node_ok fd2 Q2 (prog2 s) (cnt2 s) u" and pl: "plays cap (chan12 s, chan21 s, t, u)"
    by (auto simp: pair_ok_def)
  have st1: "\<exists>s'. pair_step fd1 fd2 cap s s'"
    if "\<exists>p w i q. node_step fd1 cap (prog1 s) (cnt1 s) (chan21 s) (chan12 s) p w i q"
    using that step1 by blast
  have st2: "\<exists>s'. pair_step fd1 fd2 cap s s'"
    if "\<exists>p w i q. node_step fd2 cap (prog2 s) (cnt2 s) (chan12 s) (chan21 s) p w i q"
    using that step2 by blast
  from plays_progress [OF pl] show "\<exists>s'. pair_step fd1 fd2 cap s s'"
  proof
    assume fin: "(chan12 s, chan21 s, t, u) = final"
    then show ?thesis
      using node_ok_progress [OF ok(1), of "chan12 s" cap "chan21 s"]
        node_ok_progress [OF ok(2), of "chan21 s" cap "chan12 s"] stuck st1 st2
      unfolding both_done_def by blast
  next
    assume "\<exists>y. byte_step cap (chan12 s, chan21 s, t, u) y"
    then consider "side1 cap (chan12 s, chan21 s, t, u) \<noteq> None"
      | "side2 cap (chan12 s, chan21 s, t, u) \<noteq> None"
      by (auto simp: byte_step_def)
    then show ?thesis
    proof cases
      case 1
      then have "t \<noteq> []" "\<And>b t'. t = S b # t' \<Longrightarrow> length (chan12 s) < cap"
        "\<And>b t'. t = R b # t' \<Longrightarrow> chan21 s \<noteq> []"
        by (auto split: if_splits)
      with node_ok_progress [OF ok(1), of "chan12 s" cap "chan21 s"] st1 show ?thesis by blast
    next
      case 2
      then have "u \<noteq> []" "\<And>b u'. u = S b # u' \<Longrightarrow> length (chan21 s) < cap"
        "\<And>b u'. u = R b # u' \<Longrightarrow> chan12 s \<noteq> []"
        by (auto split: if_splits)
      with node_ok_progress [OF ok(2), of "chan21 s" cap "chan12 s"] st2 show ?thesis by blast
    qed
  qed
qed

theorem pair_ok_ends: "pair_ok fd1 fd2 cap Q1 Q2 s \<Longrightarrow> ends_in (pair_step fd1 fd2 cap) (both_done Q1 Q2) s"
  by (rule ends_in_rule [OF wf_pair_rel, where I = "pair_ok fd1 fd2 cap Q1 Q2"])
    (simp_all add: pair_step_decreases pair_step_ok pair_ok_progress)

text \<open>The rule, for two programs that start on an empty connection.\<close>

theorem follows_pair:
  assumes "follows fd1 Q1 p1 t" and "follows fd2 Q2 p2 u" and "plays cap ([], [], t, u)"
  shows "ends_in (pair_step fd1 fd2 cap) (both_done Q1 Q2) (pair_init p1 p2)"
  using assms by (intro pair_ok_ends) (auto simp: pair_ok_def pair_init_def node_ok_0)

section \<open>Building plays\<close>

lemma byte_step_append:
  "(byte_step cap)\<^sup>*\<^sup>* x y \<Longrightarrow>
   (case (x, y) of ((c, d, t, u), (c', d', t', u')) \<Rightarrow>
     (byte_step cap)\<^sup>*\<^sup>* (c, d, t @ t2, u @ u2) (c', d', t' @ t2, u' @ u2))"
proof (induction rule: rtranclp_induct)
  case (step y z)
  have "case (y, z) of ((c, d, t, u), (c', d', t', u')) \<Rightarrow>
      byte_step cap (c, d, t @ t2, u @ u2) (c', d', t' @ t2, u' @ u2)"
    using step.hyps(2) by (auto simp: byte_step_def elim!: side1_SomeE side2_SomeE split: if_splits)
  with step.IH show ?case by (auto intro: rtranclp.rtrancl_into_rtrancl)
qed (simp split: prod.split)

lemma plays_append:
  assumes "plays cap ([], [], t, u)" and "plays cap ([], [], t2, u2)"
  shows "plays cap ([], [], t @ t2, u @ u2)"
proof -
  have "(byte_step cap)\<^sup>*\<^sup>* ([], [], t @ t2, u @ u2) ([], [], t2, u2)"
    using byte_step_append [of cap "([], [], t, u)" final t2 u2] assms(1) by (simp add: plays_def)
  with assms(2) show ?thesis by (simp add: plays_def)
qed

lemma plays_Nil [simp]: "plays cap final"
  by (simp add: plays_def)

lemma plays_converse: "byte_step cap x y \<Longrightarrow> plays cap y \<Longrightarrow> plays cap x"
  unfolding plays_def by (rule converse_rtranclp_into_rtranclp)

lemma plays_ping: "0 < cap \<Longrightarrow> plays cap ([], [], snd_s bs, rcv_s bs)"
proof (induction bs)
  case (Cons b bs)
  have "byte_step cap ([], [], snd_s (b # bs), rcv_s (b # bs)) ([b], [], snd_s bs, R b # rcv_s bs)"
    "byte_step cap ([b], [], snd_s bs, R b # rcv_s bs) ([], [], snd_s bs, rcv_s bs)"
    using Cons.prems by (simp_all add: byte_step_def)
  with Cons show ?case by (metis plays_converse)
qed simp

lemma plays_pong: "0 < cap \<Longrightarrow> plays cap ([], [], rcv_s bs, snd_s bs)"
proof (induction bs)
  case (Cons b bs)
  have "byte_step cap ([], [], rcv_s (b # bs), snd_s (b # bs)) ([], [b], R b # rcv_s bs, snd_s bs)"
    "byte_step cap ([], [b], R b # rcv_s bs, snd_s bs) ([], [], rcv_s bs, snd_s bs)"
    using Cons.prems by (simp_all add: byte_step_def)
  with Cons show ?case by (metis plays_converse)
qed simp

lemma plays_send1:
  "length c + length bs \<le> cap \<Longrightarrow> plays cap (c @ bs, d, t, u) \<Longrightarrow> plays cap (c, d, snd_s bs @ t, u)"
proof (induction bs arbitrary: c)
  case (Cons b bs)
  have "byte_step cap (c, d, snd_s (b # bs) @ t, u) (c @ [b], d, snd_s bs @ t, u)"
    using Cons.prems by (simp add: byte_step_def)
  moreover have "plays cap (c @ [b], d, snd_s bs @ t, u)" using Cons by simp
  ultimately show ?case by (rule plays_converse)
qed simp

lemma plays_send2:
  "length d + length bs \<le> cap \<Longrightarrow> plays cap (c, d @ bs, t, u) \<Longrightarrow> plays cap (c, d, t, snd_s bs @ u)"
proof (induction bs arbitrary: d)
  case (Cons b bs)
  have "byte_step cap (c, d, t, snd_s (b # bs) @ u) (c, d @ [b], t, snd_s bs @ u)"
    using Cons.prems by (simp add: byte_step_def)
  moreover have "plays cap (c, d @ [b], t, snd_s bs @ u)" using Cons by simp
  ultimately show ?case by (rule plays_converse)
qed simp

lemma plays_recv1: "plays cap (c, d, t, u) \<Longrightarrow> plays cap (c, bs @ d, rcv_s bs @ t, u)"
proof (induction bs)
  case (Cons b bs)
  have "byte_step cap (c, (b # bs) @ d, rcv_s (b # bs) @ t, u) (c, bs @ d, rcv_s bs @ t, u)"
    by (simp add: byte_step_def)
  with Cons show ?case by (metis plays_converse)
qed simp

lemma plays_recv2: "plays cap (c, d, t, u) \<Longrightarrow> plays cap (bs @ c, d, t, rcv_s bs @ u)"
proof (induction bs)
  case (Cons b bs)
  have "byte_step cap ((b # bs) @ c, d, t, rcv_s (b # bs) @ u) (bs @ c, d, t, rcv_s bs @ u)"
    by (simp add: byte_step_def)
  with Cons show ?case by (metis plays_converse)
qed simp

text \<open>Both sides send first and then read: this needs room for what each side sends.\<close>

lemma plays_exchange:
  assumes "length xs \<le> cap" and "length ys \<le> cap"
  shows "plays cap ([], [], snd_s xs @ rcv_s ys, snd_s ys @ rcv_s xs)"
proof -
  have "plays cap (xs, [], [], rcv_s xs)"
    using plays_recv2 [of cap "[]" "[]" "[]" "[]" xs] by simp
  then have "plays cap (xs, ys, rcv_s ys, rcv_s xs)"
    using plays_recv1 [of cap xs "[]" "[]" "rcv_s xs" ys] by simp
  then have "plays cap (xs, [], rcv_s ys, snd_s ys @ rcv_s xs)"
    using plays_send2 [of "[]" ys cap xs "rcv_s ys" "rcv_s xs"] assms by simp
  then show ?thesis
    using plays_send1 [of "[]" xs cap "[]" "rcv_s ys" "snd_s ys @ rcv_s xs"] assms by simp
qed

lemma plays_concat:
  "(\<And>i. i < n \<Longrightarrow> plays cap ([], [], f i, g i)) \<Longrightarrow>
   plays cap ([], [], concat (map f [0..<n]), concat (map g [0..<n]))"
  by (induction n) (auto intro: plays_append)

end
