(* ===== verification/Tcp.thy ===== *)
theory Tcp
  imports Sockets Buffers
begin

text \<open>
  The TCP module \<open>tcp.c\<close>: connection set-up, synchronisation, the data transfer loops, and the
  exchange of times and repeat counts.  Every function is an interaction program over the socket
  calls; the module's state is the \<open>TCP\<close> protocol structure and the static \<open>doing_reset\<close>.
\<close>

unbundle bit_operations_syntax

section \<open>State\<close>

record TcpProt =
  sin1 :: sockaddr_in
  sin2 :: sockaddr_in
  sndbufsz :: int
  rcvbufsz :: int

type_synonym tcp_world = "(TcpProt, int) world"

abbreviation doing_reset :: "tcp_world \<Rightarrow> int" where "doing_reset w \<equiv> glob w"

definition upd_prot :: "('p \<Rightarrow> 'p) \<Rightarrow> ('p, 'g) world \<Rightarrow> ('p, 'g) world" where
  "upd_prot f = upd_args (\<lambda>a. a\<lparr>prot := f (prot a)\<rparr>)"

definition zero_sin :: sockaddr_in where
  "zero_sin = \<lparr>sin_family = 0, sin_port = 0, sin_addr = 0\<rparr>"

text \<open>Constants of the C library's headers.\<close>

definition AF_INET :: int where "AF_INET = 2"
definition SOCK_STREAM :: int where "SOCK_STREAM = 1"
definition SOL_SOCKET :: int where "SOL_SOCKET = 1"
definition SO_REUSEADDR :: int where "SO_REUSEADDR = 2"
definition SO_SNDBUF :: int where "SO_SNDBUF = 7"
definition SO_RCVBUF :: int where "SO_RCVBUF = 8"
definition TCP_NODELAY :: int where "TCP_NODELAY = 1"
definition ECONNREFUSED :: int where "ECONNREFUSED = 111"

definition htons :: "16 word \<Rightarrow> 16 word" where
  "htons x = push_bit 8 x OR drop_bit 8 x"

text \<open>\<open>atoi\<close>: white space, an optional sign, then the digits that follow.\<close>

fun digits :: "string \<Rightarrow> int \<Rightarrow> int" where
  "digits [] n = n"
| "digits (c # cs) n =
     (if 48 \<le> (of_char c :: int) \<and> (of_char c :: int) \<le> 57 then digits cs (10 * n + (of_char c - 48)) else n)"

fun atoi :: "string \<Rightarrow> int" where
  "atoi [] = 0"
| "atoi (c # cs) =
     (if c = CHR '' '' \<or> (9 \<le> (of_char c :: int) \<and> (of_char c :: int) \<le> 13) then atoi cs
      else if c = CHR ''-'' then - digits cs 0
      else if c = CHR ''+'' then digits cs 0
      else digits (c # cs) 0)"

section \<open>Connection\<close>

definition Init :: "tcp_world \<Rightarrow> tcp_world" where
  "Init w =
     (let w = upd_args (\<lambda>p. p\<lparr>reset_conn := 0, prot := (prot p)\<lparr>sndbufsz := 0, rcvbufsz := 0\<rparr>,
                              port := DEFPORT\<rparr>) w
      in if tr (p_of w) \<noteq> 0 then upd_args (\<lambda>p. p\<lparr>rcv := 0\<rparr>) w
         else upd_args (\<lambda>p. p\<lparr>rcv := 1\<rparr>) (printf ''Init: inferred receiver'' [] w))"

text \<open>
  The client's \<open>connect\<close> loop; the number of rounds the other side may refuse is bounded by the
  first argument.
\<close>

primrec connect_loop :: "nat \<Rightarrow> tcp_world \<Rightarrow> tcp_world sprog" where
  "connect_loop 0 w = Abort OutOfFuel"
| "connect_loop (Suc n) w =
     Call (Connect (commfd (p_of w)) (sin1 (prot (p_of w)))) (\<lambda>r.
       if rv r < 0
       then if doing_reset w = 0 \<or> errno r \<noteq> ECONNREFUSED then Abort (Exit (- 10)) else connect_loop n w
       else Ret w)"

text \<open>
  The peer's address as \<open>accept\<close> leaves it in \<open>sin2\<close>: the family in host byte order, port and
  address as they are on the wire.
\<close>

definition le_half :: "byte list \<Rightarrow> 16 word" where
  "le_half bs = (case bs of [a, b] \<Rightarrow> ucast a OR push_bit 8 (ucast b) | _ \<Rightarrow> 0)"

definition peer_addr :: "byte list \<Rightarrow> sockaddr_in" where
  "peer_addr bs = \<lparr>sin_family = int (unat (le_half (take 2 bs))), sin_port = le_half (take 2 (drop 2 bs)),
     sin_addr = le_word (take 4 (drop 4 bs))\<rparr>"

definition establish :: "nat \<Rightarrow> tcp_world \<Rightarrow> tcp_world sprog" where
  "establish fuel w =
     (if tr (p_of w) \<noteq> 0 then connect_loop fuel w
      else if rcv (p_of w) \<noteq> 0 then
        Call (Listen (servicefd (p_of w)) 5) (\<lambda>_.
        Call (Accept (servicefd (p_of w))) (\<lambda>r.
        let w = upd_args (\<lambda>p. p\<lparr>commfd := rv r\<rparr>) w in
        if commfd (p_of w) < 0 then Abort (Exit (- 12))
        else let w = upd_prot (\<lambda>q. q\<lparr>sin2 := peer_addr (rdata r)\<rparr>) w in
        Call (Getprotobyname ''tcp'') (\<lambda>r.
        if rv r = - 1 then Abort (Exit 555)
        else Call (Setsockopt (commfd (p_of w)) (rv r) TCP_NODELAY 1) (\<lambda>r.
        if rv r < 0 then Abort (Exit 556)
        else if sndbufsz (prot (p_of w)) > 0
        then let w = printf ''Send and Receive Buffers on accepted socket set to %d bytes''
                       [AInt (sndbufsz (prot (p_of w)))] w in
             Call (Setsockopt (commfd (p_of w)) SOL_SOCKET SO_SNDBUF (sndbufsz (prot (p_of w)))) (\<lambda>r.
             if rv r < 0 then Abort (Exit 556)
             else Call (Setsockopt (commfd (p_of w)) SOL_SOCKET SO_RCVBUF (rcvbufsz (prot (p_of w)))) (\<lambda>r.
             if rv r < 0 then Abort (Exit 556) else Ret w))
        else Ret w))))
      else Ret w)"

text \<open>The part of \<open>Setup\<close> that sets and reads the socket's buffer sizes.\<close>

definition setup_bufs :: "int \<Rightarrow> tcp_world \<Rightarrow> (int \<times> int) sprog" where
  "setup_bufs sockfd w =
     andThen
       (if sndbufsz (prot (p_of w)) > 0
        then Call (Setsockopt sockfd SOL_SOCKET SO_SNDBUF (sndbufsz (prot (p_of w)))) (\<lambda>r.
             if rv r < 0 then Abort (Exit 556)
             else Call (Setsockopt sockfd SOL_SOCKET SO_RCVBUF (rcvbufsz (prot (p_of w)))) (\<lambda>r.
             if rv r < 0 then Abort (Exit 556) else Ret ()))
        else Ret ())
       (\<lambda>_.
     Call (Getsockopt sockfd SOL_SOCKET SO_SNDBUF) (\<lambda>r1.
     Call (Getsockopt sockfd SOL_SOCKET SO_RCVBUF) (\<lambda>r2.
     Ret (sint (le_word (rdata r1)), sint (le_word (rdata r2))))))"

text \<open>
  The part of \<open>Setup\<close> that fills in the address and, on the receiver, binds the socket.
  \<open>bcopy\<close> of an address that is not four bytes long does not fit \<open>sin_addr\<close>.
\<close>

definition setup_addr :: "int \<Rightarrow> tcp_world \<Rightarrow> tcp_world sprog" where
  "setup_addr sockfd w =
     (if tr (p_of w) \<noteq> 0 then
        andThen
          (if atoi (host (p_of w)) > 0
           then Call (Inet_addr (host (p_of w))) (\<lambda>r. Ret (AF_INET, le_word (rdata r)))
           else Call (Gethostbyname (host (p_of w))) (\<lambda>r.
                if rv r = - 1 then Abort (Exit (- 5))
                else if length (rdata r) \<noteq> 4 then Abort BadAccess
                else Ret (rv r, le_word (rdata r))))
          (\<lambda>(fam, a).
        Ret (upd_args (\<lambda>p. p\<lparr>commfd := sockfd\<rparr>)
              (upd_prot (\<lambda>q. q\<lparr>sin1 := \<lparr>sin_family = fam, sin_port = htons (word_of_int (port (p_of w))),
                                       sin_addr = a\<rparr>\<rparr>) w)))
      else if rcv (p_of w) \<noteq> 0 then
        let w = upd_prot (\<lambda>q. q\<lparr>sin1 := \<lparr>sin_family = AF_INET, sin_port = htons (word_of_int (port (p_of w))),
                                         sin_addr = 0\<rparr>\<rparr>) w in
        Call (Setsockopt sockfd SOL_SOCKET SO_REUSEADDR 1) (\<lambda>r.
        if rv r \<noteq> 0 then Abort (Exit (- 6))
        else Call (Bind sockfd (sin1 (prot (p_of w)))) (\<lambda>r.
        if rv r < 0 then Abort (Exit (- 7))
        else Ret (upd_args (\<lambda>p. p\<lparr>servicefd := sockfd\<rparr>) w)))
      else Ret w)"

definition Setup :: "nat \<Rightarrow> tcp_world \<Rightarrow> tcp_world sprog" where
  "Setup fuel w =
     (let (w, socket_family) =
            (if use_sdp (p_of w) \<noteq> 0 then (printf ''Using AF_INET_SDP (27) socket family'' [] w, 27)
             else (w, AF_INET));
          w = upd_prot (\<lambda>q. q\<lparr>sin1 := zero_sin, sin2 := zero_sin\<rparr>) w
      in Call (Socket socket_family SOCK_STREAM 0) (\<lambda>r.
         if rv r < 0 then Abort (Exit (- 4))
         else let sockfd = rv r in
         Call (Getprotobyname ''tcp'') (\<lambda>r.
         if rv r = - 1 then Abort (Exit 555)
         else Call (Setsockopt sockfd (rv r) TCP_NODELAY 1) (\<lambda>r.
         if rv r < 0 then Abort (Exit 556)
         else andThen (setup_bufs sockfd w) (\<lambda>(send_size, recv_size).
         let w = (if doing_reset w = 0
                  then printf ''(A bug in Linux doubles the requested buffer sizes)'' []
                        (printf ''Send and receive buffers are %d and %d bytes''
                          [AInt send_size, AInt recv_size] w)
                  else w) in
         andThen (setup_addr sockfd w) (\<lambda>w.
         establish fuel (upd_args (\<lambda>p. p\<lparr>upper := send_size + recv_size\<rparr>) w)))))))"

section \<open>Reading, writing, synchronising\<close>

text \<open>
  \<open>readFully(fd, obuf, len)\<close>: the value it returns and the bytes it has put into \<open>obuf\<close>.
\<close>

function readFully_loop :: "int \<Rightarrow> nat \<Rightarrow> nat \<Rightarrow> byte list \<Rightarrow> (int \<times> byte list) sprog" where
  "readFully_loop fd len bytesLeft buf =
     (if bytesLeft > 0
      then Call (Read fd bytesLeft) (\<lambda>r.
             if rv r > 0 then readFully_loop fd len (bytesLeft - nat (rv r)) (buf @ rdata r)
             else Ret (rv r, buf))
      else Ret (int len, buf))"
  by pat_completeness auto
termination
  by (relation "measure (\<lambda>(fd, len, left, buf). left)") auto

declare readFully_loop.simps [simp del]

definition readFully :: "int \<Rightarrow> nat \<Rightarrow> (int \<times> byte list) sprog" where
  "readFully fd len = readFully_loop fd len len []"

text \<open>The bytes of \<open>"SyncMe"\<close>, and the six blanks that \<open>response\<close> starts out with.\<close>

definition SyncMe :: "byte list" where
  "SyncMe = map of_char ''SyncMe''"

definition Sync :: "('p, 'g) world \<Rightarrow> ('p, 'g) world sprog" where
  "Sync w =
     Call (Write (commfd (p_of w)) SyncMe) (\<lambda>r.
     if rv r < 0 then Abort (Exit 3)
     else andThen (readFully (commfd (p_of w)) (length SyncMe)) (\<lambda>(n, buf).
     if n < 0 then Abort (Exit 3)
     else if buf @ drop (length buf) (replicate 6 32) \<noteq> SyncMe then Abort (Exit 3)
     else Ret w))"

definition PrepareToReceive :: "('p, 'g) world \<Rightarrow> ('p, 'g) world sprog" where
  "PrepareToReceive w = Ret w"

text \<open>The loop of \<open>SendData\<close> on the bytes still to be written; its result is \<open>bytesWritten\<close>.\<close>

function sendData_loop :: "int \<Rightarrow> byte list \<Rightarrow> int \<Rightarrow> int sprog" where
  "sendData_loop fd q bytesWritten =
     (if q \<noteq> []
      then Call (Write fd q) (\<lambda>r.
             if rv r > 0 then sendData_loop fd (drop (nat (rv r)) q) (rv r) else Ret (rv r))
      else Ret bytesWritten)"
  by pat_completeness auto
termination
  by (relation "measure (\<lambda>(fd, q, b). length q)") auto

declare sendData_loop.simps [simp del]

definition SendData :: "('p, 'g) world \<Rightarrow> ('p, 'g) world sprog" where
  "SendData w =
     andThen (lift (cload (heap w) (s_ptr (p_of w)) (nat (bufflen (p_of w))))) (\<lambda>q.
     andThen (sendData_loop (commfd (p_of w)) q 0) (\<lambda>bytesWritten.
     if bytesWritten = - 1 then Abort (Exit 401) else Ret w))"

text \<open>The loop of \<open>RecvData\<close>; it ends with \<open>bytesLeft\<close>, \<open>bytesRead\<close> and the new state.\<close>

function recvData_loop :: "int \<Rightarrow> addr \<Rightarrow> nat \<Rightarrow> int \<Rightarrow> ('p, 'g) world \<Rightarrow> (nat \<times> int \<times> ('p, 'g) world) sprog" where
  "recvData_loop fd q bytesLeft bytesRead w =
     (if bytesLeft > 0
      then Call (Read fd bytesLeft) (\<lambda>r.
             if rv r > 0
             then andThen (lift (put_bytes w q (rdata r))) (\<lambda>w.
                  recvData_loop fd (q + nat (rv r)) (bytesLeft - nat (rv r)) (rv r) w)
             else Ret (bytesLeft, rv r, w))
      else Ret (bytesLeft, bytesRead, w))"
  by pat_completeness auto
termination
  by (relation "measure (\<lambda>(fd, q, left, br, w). left)") auto

declare recvData_loop.simps [simp del]

definition RecvData :: "('p, 'g) world \<Rightarrow> ('p, 'g) world sprog" where
  "RecvData w =
     andThen (recvData_loop (commfd (p_of w)) (r_ptr (p_of w)) (nat (bufflen (p_of w))) 0 w)
       (\<lambda>(bytesLeft, bytesRead, w).
        if bytesLeft > 0 \<and> bytesRead = 0
        then Ret (printf ''NetPIPE: \"end of file\" encountered on reading from socket'' [] w)
        else if bytesRead = - 1 then Abort (Exit 401)
        else Ret w)"

section \<open>Times and repeat counts\<close>

text \<open>
  Double arithmetic is exact arithmetic followed by the rounding \<open>fl\<close>, a parameter.  A double
  outside the range of \<open>uint32_t\<close> must not be converted to it.
\<close>

definition double_to_u32 :: "real \<Rightarrow> u32 res" where
  "double_to_u32 x = (if - 1 < x \<and> x < 2 ^ 32
                      then Inr (word_of_int (if 0 \<le> x then \<lfloor>x\<rfloor> else \<lceil>x\<rceil>)) else Inl BadConversion)"

definition SendTime :: "(real \<Rightarrow> real) \<Rightarrow> real \<Rightarrow> ('p, 'g) world \<Rightarrow> ('p, 'g) world sprog" where
  "SendTime fl t w =
     andThen (lift (double_to_u32 (fl (t * 10 ^ 8)))) (\<lambda>ltime.
     Call (Write (commfd (p_of w)) (le_bytes (htonl ltime))) (\<lambda>r.
     if rv r < 0 then Abort (Exit 301) else Ret w))"

definition RecvTime :: "(real \<Rightarrow> real) \<Rightarrow> ('p, 'g) world \<Rightarrow> (real \<times> ('p, 'g) world) sprog" where
  "RecvTime fl w =
     andThen (readFully (commfd (p_of w)) 4) (\<lambda>(bytesRead, ntime).
     if bytesRead < 0 then Abort (Exit 302)
     else if bytesRead \<noteq> 4 then Abort (Exit 303)
     else Ret (fl (real (unat (ntohl (le_word ntime))) / 10 ^ 8), w))"

definition SendRepeat :: "u32 \<Rightarrow> ('p, 'g) world \<Rightarrow> ('p, 'g) world sprog" where
  "SendRepeat rpt w =
     Call (Write (commfd (p_of w)) (le_bytes (htonl rpt))) (\<lambda>r.
     if rv r < 0 then Abort (Exit 304) else Ret w)"

definition RecvRepeat :: "('p, 'g) world \<Rightarrow> (u32 \<times> ('p, 'g) world) sprog" where
  "RecvRepeat w =
     andThen (readFully (commfd (p_of w)) 4) (\<lambda>(bytesRead, nrpt).
     if bytesRead < 0 then Abort (Exit 305)
     else if bytesRead \<noteq> 4 then Abort (Exit 306)
     else Ret (ntohl (le_word nrpt), w))"

section \<open>Closing and resetting\<close>

text \<open>
  \<open>CleanUp\<close> ignores what its calls return; the reads go to the array of a string literal, whose
  contents nobody uses.
\<close>

definition QUIT :: "byte list" where
  "QUIT = map of_char ''QUIT'' @ [0]"

definition CleanUp :: "tcp_world \<Rightarrow> tcp_world sprog" where
  "CleanUp w =
     (if tr (p_of w) \<noteq> 0 then
        Call (Write (commfd (p_of w)) QUIT) (\<lambda>_.
        Call (Read (commfd (p_of w)) 5) (\<lambda>_.
        Call (Close (commfd (p_of w))) (\<lambda>_. Ret w)))
      else if rcv (p_of w) \<noteq> 0 then
        Call (Read (commfd (p_of w)) 5) (\<lambda>_.
        Call (Write (commfd (p_of w)) QUIT) (\<lambda>_.
        Call (Close (commfd (p_of w))) (\<lambda>_.
        Call (Close (servicefd (p_of w))) (\<lambda>_. Ret w))))
      else Ret w)"

definition Reset :: "nat \<Rightarrow> tcp_world \<Rightarrow> tcp_world sprog" where
  "Reset fuel w =
     (if reset_conn (p_of w) \<noteq> 0
      then andThen (CleanUp (w\<lparr>glob := 1\<rparr>)) (Setup fuel)
      else Ret w)"

definition AfterAlignmentInit :: "('p, 'g) world \<Rightarrow> ('p, 'g) world sprog" where
  "AfterAlignmentInit w = Ret w"

section \<open>The scripts the functions follow\<close>

lemma readFully_loop_follows:
  "follows fd (\<lambda>x. x = (int len, buf @ bs)) (readFully_loop fd len (length bs) buf) (rcv_s bs)"
proof (induction "length bs" arbitrary: bs buf rule: less_induct)
  case less
  show ?case
  proof (cases "bs = []")
    case True
    then show ?thesis by (auto simp: readFully_loop.simps intro: follows.ret)
  next
    case False
    have "follows fd (\<lambda>x. x = (int len, buf @ bs))
        (readFully_loop fd len (length bs - j) (buf @ take j bs)) (rcv_s (drop j bs))"
      if "0 < j" "j \<le> length bs" for j
      using less [of "drop j bs" "buf @ take j bs"] that False by simp
    then have "follows fd (\<lambda>x. x = (int len, buf @ bs))
      (Call (Read fd (length bs)) (\<lambda>r. if rv r > 0
         then readFully_loop fd len (length bs - nat (rv r)) (buf @ rdata r) else Ret (rv r, buf)))
      (rcv_s bs @ [])"
      using False by (intro follows.rd) (simp_all add: min_absorb2)
    then show ?thesis using False by (subst readFully_loop.simps) simp
  qed
qed

lemma readFully_follows:
  "length bs = len \<Longrightarrow> follows fd (\<lambda>x. x = (int len, bs)) (readFully fd len) (rcv_s bs)"
  using readFully_loop_follows [of fd len "[]" bs] by (simp add: readFully_def)

lemma readFully_then:
  assumes "length bs = len" and "follows fd Q (f (int len, bs)) t"
  shows "follows fd Q (andThen (readFully fd len) f) (rcv_s bs @ t)"
  by (rule follows_andThen [OF readFully_follows [OF assms(1)]]) (use assms(2) in simp)

lemma short_write_follows:
  assumes "bs \<noteq> []" and "length bs \<le> atomic" and "follows fd Q (k (wrote (length bs))) t"
  shows "follows fd Q (Call (Write fd bs) k) (snd_s bs @ t)"
  using assms by (intro follows.wr) auto

lemma SyncMe_simps [simp]: "length SyncMe = 6" "SyncMe \<noteq> []"
  by (simp_all add: SyncMe_def)

lemma Sync_follows:
  "follows (commfd (p_of w)) (\<lambda>w'. w' = w) (Sync w) (snd_s SyncMe @ rcv_s SyncMe)"
proof -
  have "follows (commfd (p_of w)) (\<lambda>w'. w' = w)
    (andThen (readFully (commfd (p_of w)) (length SyncMe)) (\<lambda>(n, buf).
     if n < 0 then Abort (Exit 3)
     else if buf @ drop (length buf) (replicate 6 32) \<noteq> SyncMe then Abort (Exit 3)
     else Ret w)) (rcv_s SyncMe @ [])"
    by (rule readFully_then) (auto intro: follows.ret)
  then show ?thesis
    unfolding Sync_def by (intro short_write_follows) (simp_all add: atomic_def)
qed

lemma sendData_loop_follows:
  "b \<noteq> - 1 \<Longrightarrow> follows fd (\<lambda>n. n \<noteq> - 1) (sendData_loop fd bs b) (snd_s bs)"
proof (induction "length bs" arbitrary: bs b rule: less_induct)
  case less
  show ?case
  proof (cases "bs = []")
    case True
    with less.prems show ?thesis by (auto simp: sendData_loop.simps intro: follows.ret)
  next
    case False
    have rest: "follows fd (\<lambda>n. n \<noteq> - 1) (sendData_loop fd (drop j bs) (int j)) (snd_s (drop j bs))"
      if "0 < j" for j
      using less.hyps [of "drop j bs"] that False by simp
    have "follows fd (\<lambda>n. n \<noteq> - 1) (sendData_loop fd [] (int (length bs))) []"
      using rest [of "length bs"] False by simp
    with rest have "follows fd (\<lambda>n. n \<noteq> - 1) (Call (Write fd bs) (\<lambda>r.
        if rv r > 0 then sendData_loop fd (drop (nat (rv r)) bs) (rv r) else Ret (rv r)))
        (snd_s bs @ [])"
      using False by (intro follows.wr) simp_all
    then show ?thesis using False by (subst sendData_loop.simps) simp
  qed
qed

lemma SendData_follows:
  assumes "valid (heap w) (s_ptr (p_of w)) (nat (bufflen (p_of w)))"
  shows "follows (commfd (p_of w)) (\<lambda>w'. w' = w) (SendData w)
    (snd_s (load (heap w) (s_ptr (p_of w)) (nat (bufflen (p_of w)))))"
proof -
  let ?q = "load (heap w) (s_ptr (p_of w)) (nat (bufflen (p_of w)))"
  have "follows (commfd (p_of w)) (\<lambda>w'. w' = w) (andThen (sendData_loop (commfd (p_of w)) ?q 0)
      (\<lambda>b. if b = - 1 then Abort (Exit 401) else Ret w)) (snd_s ?q @ [])"
    by (rule follows_andThen [OF sendData_loop_follows]) (auto intro: follows.ret)
  then show ?thesis using assms by (simp add: SendData_def)
qed

lemma recvData_loop_follows:
  "valid (heap w) q (length bs) \<Longrightarrow> b \<noteq> - 1 \<Longrightarrow>
   follows fd (\<lambda>(l, n, w'). l = 0 \<and> n \<noteq> - 1 \<and> w' = upd_heap (store (heap w) q bs) w)
     (recvData_loop fd q (length bs) b w) (rcv_s bs)"
proof (induction "length bs" arbitrary: bs q b w rule: less_induct)
  case less
  show ?case
  proof (cases "bs = []")
    case True
    with less.prems show ?thesis
      by (auto simp: recvData_loop.simps upd_heap_def intro: follows.ret)
  next
    case False
    let ?Q = "\<lambda>(l, n, w'). l = 0 \<and> n \<noteq> - 1 \<and> w' = upd_heap (store (heap w) q bs) w"
    have "follows fd ?Q (recvData_loop fd (q + j) (length bs - j) (int j)
        (upd_heap (store (heap w) q (take j bs)) w)) (rcv_s (drop j bs))"
      if j: "0 < j" "j \<le> length bs" for j
    proof -
      have v: "valid (heap w) (q + j) (length (drop j bs))"
        by (rule valid_sub [OF less.prems(1)]) (use j in simp)
      have st: "store (store (heap w) q (take j bs)) (q + j) (drop j bs) = store (heap w) q bs"
        using store_append' [of "q + j" q "take j bs" "heap w" "drop j bs"] j by (simp add: min_absorb2)
      show ?thesis
        using less.hyps [of "drop j bs" "upd_heap (store (heap w) q (take j bs)) w" "q + j" "int j"]
          v j False by (simp add: st)
    qed
    moreover have "valid (heap w) q j" if "j \<le> length bs" for j
      using less.prems(1) that by (rule valid_sub0)
    ultimately have "follows fd ?Q (Call (Read fd (length bs)) (\<lambda>r.
             if rv r > 0
             then andThen (lift (put_bytes w q (rdata r))) (\<lambda>w.
                  recvData_loop fd (q + nat (rv r)) (length bs - nat (rv r)) (rv r) w)
             else Ret (length bs, rv r, w))) (rcv_s bs @ [])"
      using False by (intro follows.rd) (simp_all add: min_absorb2)
    then show ?thesis using False by (subst recvData_loop.simps) simp
  qed
qed

lemma RecvData_follows:
  assumes "valid (heap w) (r_ptr (p_of w)) (nat (bufflen (p_of w)))"
    and "length bs = nat (bufflen (p_of w))"
  shows "follows (commfd (p_of w)) (\<lambda>w'. w' = upd_heap (store (heap w) (r_ptr (p_of w)) bs) w)
    (RecvData w) (rcv_s bs)"
proof -
  have "follows (commfd (p_of w)) (\<lambda>w'. w' = upd_heap (store (heap w) (r_ptr (p_of w)) bs) w)
      (RecvData w) (rcv_s bs @ [])"
    unfolding RecvData_def
    by (rule follows_andThen [where P = "\<lambda>(l, n, w'). l = 0 \<and> n \<noteq> - 1 \<and>
          w' = upd_heap (store (heap w) (r_ptr (p_of w)) bs) w"])
      (use recvData_loop_follows [of w "r_ptr (p_of w)" bs 0 "commfd (p_of w)"] assms
        in \<open>auto intro: follows.ret\<close>)
  then show ?thesis by simp
qed

lemma SendRepeat_follows:
  "follows (commfd (p_of w)) (\<lambda>w'. w' = w) (SendRepeat n w) (snd_s (le_bytes (htonl n)))"
proof -
  have "follows (commfd (p_of w)) (\<lambda>w'. w' = w) (SendRepeat n w) (snd_s (le_bytes (htonl n)) @ [])"
    unfolding SendRepeat_def
    by (rule short_write_follows) (auto simp: atomic_def intro: follows.ret)
  then show ?thesis by simp
qed

lemma RecvRepeat_follows:
  "follows (commfd (p_of w)) (\<lambda>x. x = (n, w)) (RecvRepeat w) (rcv_s (le_bytes (htonl n)))"
proof -
  have "follows (commfd (p_of w)) (\<lambda>x. x = (n, w)) (RecvRepeat w) (rcv_s (le_bytes (htonl n)) @ [])"
    unfolding RecvRepeat_def by (rule readFully_then) (auto intro: follows.ret)
  then show ?thesis by simp
qed

lemma SendTime_follows:
  assumes "double_to_u32 (fl (t * 10 ^ 8)) = Inr n"
  shows "follows (commfd (p_of w)) (\<lambda>w'. w' = w) (SendTime fl t w) (snd_s (le_bytes (htonl n)))"
proof -
  have "follows (commfd (p_of w)) (\<lambda>w'. w' = w) (SendTime fl t w) (snd_s (le_bytes (htonl n)) @ [])"
    unfolding SendTime_def assms lift_simps andThen.simps
    by (rule short_write_follows) (auto simp: atomic_def intro: follows.ret)
  then show ?thesis by simp
qed

lemma RecvTime_follows:
  "follows (commfd (p_of w)) (\<lambda>x. x = (fl (real (unat n) / 10 ^ 8), w)) (RecvTime fl w)
     (rcv_s (le_bytes (htonl n)))"
proof -
  have "follows (commfd (p_of w)) (\<lambda>x. x = (fl (real (unat n) / 10 ^ 8), w)) (RecvTime fl w)
      (rcv_s (le_bytes (htonl n)) @ [])"
    unfolding RecvTime_def by (rule readFully_then) (auto intro: follows.ret)
  then show ?thesis by simp
qed

end
