(* ===== verification/Tcp_Run.thy ===== *)
theory Tcp_Run
  imports Driver Tcp
begin

text \<open>
  The driver linked with the TCP module: \<open>tcp.c\<close> meets the interface of the driver, and two
  processes that run the timed exchange over a TCP connection both finish.
\<close>

definition tcp_module :: "allocator \<Rightarrow> lfsr \<Rightarrow> nat \<Rightarrow> (sock_ev, reply, TcpProt, int) comm_module" where
  "tcp_module alloc L fuel =
     \<lparr>mInit = (\<lambda>w. Ret (Init w)), mSetup = Setup fuel, mSendRepeat = SendRepeat, mRecvRepeat = RecvRepeat,
      mMyMalloc = (\<lambda>len so ro w. lift (MyMalloc alloc len so ro w)),
      mInitBufferData = (\<lambda>n so ro w. lift (InitBufferData L n so ro w)),
      mAfterAlignmentInit = AfterAlignmentInit, mPrepareToReceive = PrepareToReceive, mSync = Sync,
      mSendData = SendData, mRecvData = RecvData,
      mCheckBufferData = (\<lambda>n so ro w. lift (CheckBufferData L n so ro w)),
      mFreeBuff = (\<lambda>b1 b2 w. lift (FreeBuff b1 b2 w))\<rparr>"

interpretation tcp: transfer_module "tcp_module alloc L fuel" alloc L "\<lambda>(fd, _). sock_acc fd" "\<lambda>_. True"
    "\<lambda>n. snd_s (le_bytes (htonl n))" "\<lambda>n. rcv_s (le_bytes (htonl n))" "snd_s SyncMe @ rcv_s SyncMe"
    "\<lambda>bs. snd_s bs" "\<lambda>bs. rcv_s bs"
  for alloc L fuel
  by unfold_locales
    (simp_all add: tcp_module_def cfg_def framed_sock_acc AfterAlignmentInit_def SendRepeat_follows
      RecvRepeat_follows Sync_follows SendData_follows RecvData_follows split: prod.splits flip: follows_obeys)

lemma tcp_prepare: "\<forall>w. mPrepareToReceive (tcp_module alloc L fuel) w = Ret w"
  by (simp add: tcp_module_def PrepareToReceive_def)

lemmas tcp_transmitter = tcp.exchange.transmitter_obeys [OF _ _ _ TrueI disjI2 [OF tcp_prepare],
    unfolded cfg_def prod.case append_Nil, folded follows_obeys cfg_def]
lemmas tcp_receiver = tcp.exchange.receiver_obeys [OF _ _ _ TrueI disjI2 [OF tcp_prepare],
    unfolded cfg_def prod.case append_Nil, folded follows_obeys cfg_def]
lemmas tcp_stops = tcp.exchange.receiver_stops [OF TrueI,
    unfolded cfg_def prod.case append_Nil, folded follows_obeys cfg_def]

text \<open>The two scripts fit.\<close>

lemma plays_round:
  "0 < cap \<Longrightarrow> tx \<noteq> 0 \<Longrightarrow> plays cap ([], [], round_script (map S) (map R) L tx nb, round_script (map S) (map R) L 0 nb)"
  by (simp add: round_script_def plays_append plays_ping plays_pong)

lemma plays_run_iters:
  assumes "length hello \<le> cap" and "0 < cap" and "tx \<noteq> 0"
  shows "plays cap ([], [],
    (snd_s xs @ snd_s ys) @ (snd_s hello @ rcv_s hello) @
       concat (map (\<lambda>_. round_script (map S) (map R) L tx nb) [0..<n]),
    (rcv_s xs @ rcv_s ys) @ (snd_s hello @ rcv_s hello) @
       concat (map (\<lambda>_. round_script (map S) (map R) L 0 nb) [0..<n]))"
  by (intro plays_append plays_ping plays_exchange plays_concat plays_round assms)

text \<open>The state of a fresh process after \<open>Init\<close>, on the transmitter or on the receiver.\<close>

definition tcp_start :: "string option \<Rightarrow> tcp_world" where
  "tcp_start temp = Init \<lparr>self = new_Netpipe \<lparr>sin1 = zero_sin, sin2 = zero_sin, sndbufsz = 0, rcvbufsz = 0\<rparr> temp,
     heap = \<lparr>hbytes = (\<lambda>_. 0), hblocks = []\<rparr>, lfsr_data = 0, fcflag = 0, glob = 0, out = []\<rparr>"

lemma tcp_start_simps:
  "cache (p_of (tcp_start temp)) = 0"
  "tr (p_of (tcp_start (Some h))) = 1" "tr (p_of (tcp_start None)) = 0"
  "rcv (p_of (tcp_start (Some h))) = 0" "rcv (p_of (tcp_start None)) = 1"
  "commfd (p_of (tcp_start temp)) = 0"
  "hblocks (heap (tcp_start temp)) = []"
  by (simp_all add: tcp_start_def Init_def new_Netpipe_def zero_args_def Let_def split: option.splits)

text \<open>
  C1: Two processes, a transmitter that calls \<open>run_iters(sz, nrepeat)\<close> and a receiver that calls
  \<open>run_iters()\<close>, joined by a TCP connection whose kernel buffers hold at least six bytes in each
  direction.  However the two are scheduled, however the kernel cuts the byte streams into
  pieces for \<open>read\<close> and returns short from long \<open>write\<close>s: every run ends, no run deadlocks or
  exits, both return the tuple for the transmitter's size and count, both have released exactly
  the buffers they allocated, nothing is left in flight and, if there was at least one round,
  neither side reports a data mismatch.
\<close>

theorem tcp_run_iters_correct:
  assumes "alloc_ok alloc1" "\<forall>h n. alloc1 h n \<noteq> NULL" "alloc_ok alloc2" "\<forall>h n. alloc2 h n \<noteq> NULL"
    and "cache (p_of w1) = 0" "tr (p_of w1) \<noteq> 0"
    and "cache (p_of w2) = 0" "tr (p_of w2) = 0" "rcv (p_of w2) \<noteq> 0"
    and "sz \<noteq> 0" and "6 \<le> cap"
  shows "ends_in (pair_step (commfd (p_of w1)) (commfd (p_of w2)) cap)
    (both_done (good_result sz nrepeat (hblocks (heap w1)) (out w1))
               (good_result sz nrepeat (hblocks (heap w2)) (out w2)))
    (pair_init (netpipe_run_iters (tcp_module alloc1 lfsr23 fuel) fl1 (Some (sz, nrepeat)) w1)
               (netpipe_run_iters (tcp_module alloc2 lfsr23 fuel) fl2 None w2))"
  by (rule follows_pair [OF tcp_transmitter [OF assms(1,2,5,6)] tcp_receiver [OF assms(3,4,7-10)]
        plays_run_iters [OF _ _ assms(6)]]) (use assms(11) in simp_all)

theorem tcp_run_iters_correct_witness:
  "ends_in (pair_step 0 0 6) (both_done (good_result 100 3 [] (out (tcp_start (Some ''h''))))
      (good_result 100 3 [] (out (tcp_start None))))
    (pair_init (netpipe_run_iters (tcp_module bump lfsr23 1) id (Some (100, 3)) (tcp_start (Some ''h'')))
               (netpipe_run_iters (tcp_module bump lfsr23 1) id None (tcp_start None)))"
  using tcp_run_iters_correct [of bump bump "tcp_start (Some ''h'')" "tcp_start None" 100 6 3 1 id id]
  by (simp add: bump_ok tcp_start_simps)

text \<open>
  When the transmitter announces the size 0, the receiver's \<open>run_iters()\<close> returns at once,
  with its state unchanged; the transmitter's two announcements are consumed.
\<close>

theorem tcp_receiver_stops_on_size_0:
  assumes "rcv (p_of w2) \<noteq> 0" and "0 < cap"
  shows "ends_in (pair_step (commfd (p_of w1)) (commfd (p_of w2)) cap)
    (both_done (\<lambda>w. w = w1) (\<lambda>x. x = (PyBuildNone, w2)))
    (pair_init (andThen (SendRepeat 0 w1) (SendRepeat nrepeat))
               (netpipe_run_iters (tcp_module alloc L fuel) fl None w2))"
proof (rule follows_pair)
  show "follows (commfd (p_of w1)) (\<lambda>w. w = w1) (andThen (SendRepeat 0 w1) (SendRepeat nrepeat))
      (snd_s (le_bytes (htonl 0)) @ snd_s (le_bytes (htonl nrepeat)))"
    by (rule follows_andThen [OF SendRepeat_follows]) (simp only: SendRepeat_follows)
  show "follows (commfd (p_of w2)) (\<lambda>x. x = (PyBuildNone, w2))
      (netpipe_run_iters (tcp_module alloc L fuel) fl None w2)
      (rcv_s (le_bytes (htonl 0)) @ rcv_s (le_bytes (htonl nrepeat)))"
    using assms(1) by (rule tcp_stops)
qed (intro plays_append plays_ping assms)

theorem tcp_receiver_stops_on_size_0_witness:
  "ends_in (pair_step 0 0 1) (both_done (\<lambda>w. w = tcp_start (Some ''h'')) (\<lambda>x. x = (PyBuildNone, tcp_start None)))
    (pair_init (andThen (SendRepeat 0 (tcp_start (Some ''h''))) (SendRepeat 7))
               (netpipe_run_iters (tcp_module bump lfsr23 1) id None (tcp_start None)))"
  using tcp_receiver_stops_on_size_0 [of "tcp_start None" 1 "tcp_start (Some ''h'')" 7 bump lfsr23 1 id]
  by (simp add: tcp_start_simps)

end
