(* ===== verification/Tcp_Paths.thy ===== *)
theory Tcp_Paths
  imports Tcp_Run
begin

text \<open>
  The TCP module apart from the exchange that goes well: how many calls its loops make, what it
  does when the connection breaks or a peer is missing, how a connection is set up, and the
  precision of the times that travel over it.
\<close>

section \<open>The loops end\<close>

lemma readFully_loop_calls_le: "calls_le left (readFully_loop fd len left buf)"
proof (induction left arbitrary: buf rule: less_induct)
  case (less left)
  show ?case
  proof (cases left)
    case (Suc n)
    have "calls_le n (if rv r > 0 then readFully_loop fd len (left - nat (rv r)) (buf @ rdata r)
        else Ret (rv r, buf))" for r
      using Suc calls_le_mono [OF less [of "left - nat (rv r)"], of n "buf @ rdata r"]
      by (auto intro: calls_le.ret)
    then show ?thesis using Suc by (subst readFully_loop.simps) (auto intro: calls_le.call)
  qed (auto simp: readFully_loop.simps intro: calls_le.ret)
qed

lemma sendData_loop_calls_le: "calls_le (length q) (sendData_loop fd q b)"
proof (induction "length q" arbitrary: q b rule: less_induct)
  case less
  show ?case
  proof (cases "length q")
    case (Suc n)
    have "calls_le n (if rv r > 0 then sendData_loop fd (drop (nat (rv r)) q) (rv r) else Ret (rv r))" for r
      using Suc calls_le_mono [OF less [of "drop (nat (rv r)) q"], of n "rv r"]
      by (auto intro: calls_le.ret)
    then show ?thesis using Suc by (subst sendData_loop.simps) (auto intro: calls_le.call)
  qed (auto simp: sendData_loop.simps intro: calls_le.ret)
qed

lemma recvData_loop_calls_le: "calls_le left (recvData_loop fd q left b w)"
proof (induction left arbitrary: q b w rule: less_induct)
  case (less left)
  show ?case
  proof (cases left)
    case (Suc n)
    have next_round: "calls_le n (recvData_loop fd q' (left - nat (rv r)) b' w')" if "rv r > 0" for r q' b' and w' :: "('a, 'b) world"
      using Suc calls_le_mono [OF less [of "left - nat (rv r)"], of n q' b' w'] that by simp
    have "calls_le n (if rv r > 0
        then andThen (lift (put_bytes w q (rdata r))) (\<lambda>w.
             recvData_loop fd (q + nat (rv r)) (left - nat (rv r)) (rv r) w)
        else Ret (left, rv r, w))" for r
      using next_round by (cases "put_bytes w q (rdata r)") (auto intro: calls_le.intros)
    then show ?thesis using Suc by (subst recvData_loop.simps) (auto intro: calls_le.call)
  qed (auto simp: recvData_loop.simps intro: calls_le.ret)
qed

lemma SendData_calls_le: "calls_le (nat (bufflen (p_of w))) (SendData w)"
proof (cases "cload (heap w) (s_ptr (p_of w)) (nat (bufflen (p_of w)))")
  case (Inr q)
  then have "length q = nat (bufflen (p_of w))" by (auto simp: cload_def split: if_splits)
  moreover have "calls_le (length q) (andThen (sendData_loop (commfd (p_of w)) q 0)
      (\<lambda>b. if b = - 1 then Abort (Exit 401) else Ret w))"
    by (rule calls_le_then [OF sendData_loop_calls_le]) (auto intro: calls_le.intros)
  ultimately show ?thesis using Inr by (simp add: SendData_def)
qed (auto simp: SendData_def intro: calls_le.intros)

lemma RecvData_calls_le: "calls_le (nat (bufflen (p_of w))) (RecvData w)"
  unfolding RecvData_def by (rule calls_le_then [OF recvData_loop_calls_le]) (auto intro: calls_le.intros)

lemma readFully_calls_le: "(\<And>x. calls_le 0 (f x)) \<Longrightarrow> calls_le n (andThen (readFully fd n) f)"
  unfolding readFully_def by (rule calls_le_then [OF readFully_loop_calls_le])

lemma Sync_calls_le: "calls_le (Suc 6) (Sync w)"
  unfolding Sync_def
proof (rule calls_le.call)
  fix r
  have "calls_le 6 (andThen (readFully (commfd (p_of w)) (length SyncMe)) (\<lambda>(n, buf).
     if n < 0 then Abort (Exit 3)
     else if buf @ drop (length buf) (replicate 6 32) \<noteq> SyncMe then Abort (Exit 3) else Ret w))"
    unfolding SyncMe_simps by (rule readFully_calls_le) (auto intro: calls_le.intros)
  then show "calls_le 6 (if rv r < 0 then Abort (Exit 3)
     else andThen (readFully (commfd (p_of w)) (length SyncMe)) (\<lambda>(n, buf).
     if n < 0 then Abort (Exit 3)
     else if buf @ drop (length buf) (replicate 6 32) \<noteq> SyncMe then Abort (Exit 3) else Ret w))"
    by (auto intro: calls_le.abort)
qed

lemma RecvRepeat_calls_le: "calls_le 4 (RecvRepeat w)"
  unfolding RecvRepeat_def by (rule readFully_calls_le) (auto intro: calls_le.intros)

text \<open>A receiver that waits for a message of \<open>n\<close> bytes.\<close>

definition tcp_waiting :: "nat \<Rightarrow> tcp_world" where
  "tcp_waiting n = upd_args (\<lambda>p. p\<lparr>bufflen := int n, r_ptr := 64\<rparr>)
     (upd_heap \<lparr>hbytes = (\<lambda>_. 0), hblocks = [(64, n)]\<rparr> (tcp_start None))"

lemma tcp_waiting_simps:
  "bufflen (p_of (tcp_waiting n)) = int n" "valid (heap (tcp_waiting n)) (r_ptr (p_of (tcp_waiting n))) n"
  by (simp_all add: tcp_waiting_def valid_def)

text \<open>
  C13: The transfer loops of the TCP module terminate in every environment.  Whatever \<open>write\<close> and
  \<open>read\<close> return, \<open>SendData\<close> and \<open>RecvData\<close> have ended after at most as many calls as the message
  has bytes, \<open>Sync\<close> after at most seven and \<open>RecvRepeat\<close> after at most four; what is answered
  beyond that is never asked for.
\<close>

theorem tcp_transfers_terminate:
  assumes "nat (bufflen (p_of w)) \<le> length rs" and "7 \<le> length rs"
  shows "ended (fst (feed (SendData w) rs ts)) \<and> length (snd (feed (SendData w) rs ts)) \<le> nat (bufflen (p_of w)) \<and>
    ended (fst (feed (RecvData w) rs ts)) \<and> length (snd (feed (RecvData w) rs ts)) \<le> nat (bufflen (p_of w)) \<and>
    ended (fst (feed (Sync w) rs ts)) \<and> length (snd (feed (Sync w) rs ts)) \<le> 7 \<and>
    ended (fst (feed (RecvRepeat w) rs ts)) \<and> length (snd (feed (RecvRepeat w) rs ts)) \<le> 4"
  using assms calls_le_ended [OF SendData_calls_le assms(1)] calls_le_ended [OF RecvData_calls_le assms(1)]
    calls_le_ended [OF Sync_calls_le, of rs w ts] calls_le_ended [OF RecvRepeat_calls_le, of rs w ts]
  by simp

theorem tcp_transfers_terminate_witness:
  "length (snd (feed (RecvData (tcp_waiting 7)) (replicate 9 (got [1])) [])) \<le> 7"
  using tcp_transfers_terminate [of "tcp_waiting 7" "replicate 9 (got [1])" "[]"] by (simp add: tcp_waiting_simps)

section \<open>A connection that breaks\<close>

text \<open>A \<open>read\<close> that finds the end of the stream, or fails.\<close>

definition eof :: reply where
  "eof = \<lparr>rv = 0, errno = 0, rdata = []\<rparr>"

definition failed :: "int \<Rightarrow> reply" where
  "failed e = \<lparr>rv = - 1, errno = e, rdata = []\<rparr>"

lemma broken_simps [simp]: "rv eof = 0" "rv (failed e) = - 1" "errno (failed e) = e"
  by (simp_all add: eof_def failed_def)

lemma readFully_loop_broken:
  assumes "\<forall>c \<in> set cs. c \<noteq> []" and "length (concat cs) < left" and "rv r \<le> 0"
  shows "fst (feed (andThen (readFully_loop fd len left buf) f) (map got cs @ r # rs) ts) =
    fst (feed (f (rv r, buf @ concat cs)) rs ts)"
  using assms
proof (induction cs arbitrary: left buf)
  case (Cons c cs)
  then show ?case using Cons.IH [of "left - length c" "buf @ c"]
    by (subst readFully_loop.simps) (auto simp del: feed.simps)
qed (subst readFully_loop.simps, auto simp del: feed.simps)

lemma readFully_broken:
  assumes "\<forall>c \<in> set cs. c \<noteq> []" and "length (concat cs) < n" and "rv r \<le> 0"
  shows "fst (feed (andThen (readFully fd n) f) (map got cs @ r # rs) ts) = fst (feed (f (rv r, concat cs)) rs ts)"
  using readFully_loop_broken [OF assms, of fd n "[]"] by (simp add: readFully_def)

lemma recvData_loop_broken:
  assumes "\<forall>c \<in> set cs. c \<noteq> []" and "length (concat cs) < left" and "rv r \<le> 0" and "valid (heap w) q left"
  shows "fst (feed (andThen (recvData_loop fd q left b w) f) (map got cs @ r # rs) ts) =
    fst (feed (f (left - length (concat cs), rv r, upd_heap (store (heap w) q (concat cs)) w)) rs ts)"
  using assms
proof (induction cs arbitrary: left q b w)
  case Nil
  then show ?case by (subst recvData_loop.simps) (auto simp: upd_heap_def simp del: feed.simps)
next
  case (Cons c cs)
  have "valid (heap w) q (length c)" by (rule valid_sub0 [OF Cons.prems(4)]) (use Cons.prems(2) in simp)
  moreover have "valid (heap w) (q + length c) (left - length c)"
    by (rule valid_sub [OF Cons.prems(4)]) (use Cons.prems(2) in simp)
  ultimately show ?case
    using Cons.prems Cons.IH [of "left - length c" "upd_heap (store (heap w) q c) w" "q + length c" "int (length c)"]
    by (subst recvData_loop.simps) (auto simp: store_append simp del: feed.simps)
qed

lemma Sync_blank: "length bs < 6 \<Longrightarrow> bs @ drop (length bs) (replicate 6 32) \<noteq> SyncMe"
proof
  assume l: "length bs < 6" and e: "bs @ drop (length bs) (replicate 6 32) = SyncMe"
  have "SyncMe ! 5 = 32" unfolding e [symmetric] using l by (simp add: nth_append)
  moreover have "SyncMe ! 5 = 101" by (simp add: SyncMe_def numeral_eq_Suc)
  ultimately show False by simp
qed

definition eof_text :: string where
  "eof_text = ''NetPIPE: \"end of file\" encountered on reading from socket''"



section \<open>Connecting\<close>

lemma connect_loop_refused:
  assumes "doing_reset w \<noteq> 0" and "k < fuel" and "0 \<le> rv r"
  shows "feed (connect_loop fuel w) (replicate k (failed ECONNREFUSED) @ r # rs) ts =
    (Ret w, replicate (Suc k) (Connect (commfd (p_of w)) (sin1 (prot (p_of w)))))"
  using assms(2)
proof (induction k arbitrary: fuel)
  case 0
  then obtain n where "fuel = Suc n" by (cases fuel) auto
  then show ?case using assms by simp
next
  case (Suc k)
  then obtain n where "fuel = Suc n" by (cases fuel) auto
  then show ?case using assms Suc by (simp add: ECONNREFUSED_def)
qed

text \<open>
  C17: The client's connect loop.  When a connection is being reset, it retries for as long as the
  peer refuses: however often that is, the loop returns with the state unchanged once the peer
  accepts (with a bound on the rounds above the number of refusals).  Outside a reset, and for
  any other error, the first failure ends the process with exit code -10.
\<close>

theorem tcp_establish_retries:
  assumes "tr (p_of w) \<noteq> 0" and "k < fuel"
  shows "(doing_reset w \<noteq> 0 \<longrightarrow>
      feed (establish fuel w) (replicate k (failed ECONNREFUSED) @ [wrote 0]) [] =
        (Ret w, replicate (Suc k) (Connect (commfd (p_of w)) (sin1 (prot (p_of w)))))) \<and>
    (doing_reset w = 0 \<or> e \<noteq> ECONNREFUSED \<longrightarrow>
      fst (feed (establish fuel w) [failed e] []) = Abort (Exit (- 10)))"
proof
  show "doing_reset w \<noteq> 0 \<longrightarrow>
      feed (establish fuel w) (replicate k (failed ECONNREFUSED) @ [wrote 0]) [] =
        (Ret w, replicate (Suc k) (Connect (commfd (p_of w)) (sin1 (prot (p_of w)))))"
    using connect_loop_refused [OF _ assms(2), of w "wrote 0" "[]" "[]"] assms(1)
    by (simp add: establish_def)
  obtain n where "fuel = Suc n" using assms(2) by (cases fuel) auto
  then show "doing_reset w = 0 \<or> e \<noteq> ECONNREFUSED \<longrightarrow>
      fst (feed (establish fuel w) [failed e] []) = Abort (Exit (- 10))"
    using assms(1) by (auto simp: establish_def)
qed

theorem tcp_establish_retries_witness:
  "feed (establish 8 ((tcp_start (Some ''h''))\<lparr>glob := 1\<rparr>)) (replicate 7 (failed ECONNREFUSED) @ [wrote 0]) [] =
    (Ret ((tcp_start (Some ''h''))\<lparr>glob := 1\<rparr>), replicate 8 (Connect 0 zero_sin))"
  using tcp_establish_retries [of "(tcp_start (Some ''h''))\<lparr>glob := 1\<rparr>" 7 8]
  by (simp add: tcp_start_def Init_def new_Netpipe_def zero_args_def upd_args_def numeral_eq_Suc)

section \<open>Creating the object\<close>

text \<open>The replies of the two set-up sequences.\<close>

definition ok_reply :: "int \<Rightarrow> byte list \<Rightarrow> reply" where
  "ok_reply v bs = \<lparr>rv = v, errno = 0, rdata = bs\<rparr>"

lemma ok_reply_simps [simp]: "rv (ok_reply v bs) = v" "rdata (ok_reply v bs) = bs"
  by (simp_all add: ok_reply_def)

lemmas tcp_object_defs = netpipe_object_def tcp_module_def new_Netpipe_def zero_args_def Init_def Setup_def
  setup_bufs_def setup_addr_def establish_def upd_prot_def Let_def DEFPORT_def

text \<open>
  C16: \<open>Netpipe(host)\<close> over TCP for a host given as an IP number, and \<open>Netpipe()\<close>, when every
  socket call succeeds.  The transmitter makes exactly the calls from \<open>socket\<close> to \<open>connect\<close>, the
  receiver those from \<open>socket\<close> over \<open>bind\<close>, \<open>listen\<close> and \<open>accept\<close> to the option on the accepted
  socket, in this order, on port 5002; the object knows its role and the socket of the
  connection.
\<close>

theorem tcp_object_created:
  fixes w :: tcp_world
  assumes "glob w = 0" and "0 < atoi h" and "length h \<le> 254" and "0 < fuel"
    and "0 \<le> fd" and "0 \<le> fd2" and "0 \<le> pr"
  shows "(\<exists>w'. feed (netpipe_object (tcp_module alloc L fuel) zp (Some (Some h)) True w)
       [ok_reply fd [], ok_reply pr [], ok_reply 0 [], ok_reply 0 (le_bytes s), ok_reply 0 (le_bytes r),
        ok_reply 0 (le_bytes a), ok_reply 0 []] [] =
     (Ret (Obj, w'),
       [Socket AF_INET SOCK_STREAM 0, Getprotobyname ''tcp'', Setsockopt fd pr TCP_NODELAY 1,
        Getsockopt fd SOL_SOCKET SO_SNDBUF, Getsockopt fd SOL_SOCKET SO_RCVBUF, Inet_addr h,
        Connect fd \<lparr>sin_family = AF_INET, sin_port = htons 5002, sin_addr = a\<rparr>]) \<and>
     tr (p_of w') = 1 \<and> rcv (p_of w') = 0 \<and> commfd (p_of w') = fd \<and>
     upper (p_of w') = sint s + sint r) \<and>
   (\<exists>w'. feed (netpipe_object (tcp_module alloc L fuel) zp (Some None) True w)
       [ok_reply fd [], ok_reply pr [], ok_reply 0 [], ok_reply 0 (le_bytes s), ok_reply 0 (le_bytes r),
        ok_reply 0 [], ok_reply 0 [], ok_reply 0 [], ok_reply fd2 peer, ok_reply pr [], ok_reply 0 []] [] =
     (Ret (Obj, w'),
       [Socket AF_INET SOCK_STREAM 0, Getprotobyname ''tcp'', Setsockopt fd pr TCP_NODELAY 1,
        Getsockopt fd SOL_SOCKET SO_SNDBUF, Getsockopt fd SOL_SOCKET SO_RCVBUF,
        Setsockopt fd SOL_SOCKET SO_REUSEADDR 1,
        Bind fd \<lparr>sin_family = AF_INET, sin_port = htons 5002, sin_addr = 0\<rparr>,
        Listen fd 5, Accept fd, Getprotobyname ''tcp'', Setsockopt fd2 pr TCP_NODELAY 1]) \<and>
     tr (p_of w') = 0 \<and> rcv (p_of w') = 1 \<and> servicefd (p_of w') = fd \<and> commfd (p_of w') = fd2 \<and>
     sin2 (prot (p_of w')) = peer_addr peer)"
  using assms by (cases fuel) (simp_all add: tcp_object_defs)

theorem tcp_object_created_witness:
  "\<exists>w'. fst (feed (netpipe_object (tcp_module bump lfsr23 1) (prot (p_of (tcp_start None))) (Some (Some ''10.0.0.1'')) True (tcp_start None))
      [ok_reply 3 [], ok_reply 6 [], ok_reply 0 [], ok_reply 0 (le_bytes 87380), ok_reply 0 (le_bytes 16384),
       ok_reply 0 (le_bytes 16777226), ok_reply 0 []] []) = Ret (Obj, w') \<and> commfd (p_of w') = 3"
proof -
  have "glob (tcp_start None) = 0" by (simp add: tcp_start_def Init_def Let_def)
  moreover have "0 < atoi ''10.0.0.1''" "length ''10.0.0.1'' \<le> 254" by simp_all
  ultimately show ?thesis
    using tcp_object_created [of "tcp_start None" "''10.0.0.1''" 1 3 4 6 bump lfsr23 "prot (p_of (tcp_start None))"
        87380 16384 16777226 "[]"] by force
qed

section \<open>The role of a process\<close>

text \<open>
  The well-formedness of a TCP process: it is either the transmitter or the receiver, its host
  name fits the array, and no reset or socket buffer size is asked for.
\<close>

definition tcp_wf :: "tcp_world \<Rightarrow> bool" where
  "tcp_wf w \<longleftrightarrow> (tr (p_of w) = 1 \<and> rcv (p_of w) = 0 \<or> tr (p_of w) = 0 \<and> rcv (p_of w) = 1) \<and>
     length (host (p_of w)) \<le> 255 \<and> port (p_of w) = DEFPORT \<and> reset_conn (p_of w) = 0 \<and>
     sndbufsz (prot (p_of w)) = 0 \<and> cache (p_of w) = 0 \<and> asyncReceive (self w) = 0"

text \<open>Two states that agree on what \<open>tcp_wf\<close> looks at.\<close>

definition same_role :: "tcp_world \<Rightarrow> tcp_world \<Rightarrow> bool" where
  "same_role w w' \<longleftrightarrow> tr (p_of w') = tr (p_of w) \<and> rcv (p_of w') = rcv (p_of w) \<and>
     host (p_of w') = host (p_of w) \<and> port (p_of w') = port (p_of w) \<and>
     reset_conn (p_of w') = reset_conn (p_of w) \<and> sndbufsz (prot (p_of w')) = sndbufsz (prot (p_of w)) \<and>
     cache (p_of w') = cache (p_of w) \<and> asyncReceive (self w') = asyncReceive (self w)"

lemma tcp_wf_same: "tcp_wf w \<Longrightarrow> same_role w w' \<Longrightarrow> tcp_wf w'"
  by (simp add: tcp_wf_def same_role_def)

lemma same_role_refl [simp]: "same_role w w"
  by (simp add: same_role_def)

lemma same_role_trans: "same_role w w' \<Longrightarrow> same_role w' w'' \<Longrightarrow> same_role w w''"
  by (simp add: same_role_def)

lemma same_role_upd [simp]:
  "same_role w (upd_heap h w') \<longleftrightarrow> same_role w w'" "same_role w (printf s as w') \<longleftrightarrow> same_role w w'"
  "same_role w (upd_args (\<lambda>a. a\<lparr>bufflen := l\<rparr>) w') \<longleftrightarrow> same_role w w'"
  by (simp_all add: same_role_def)

lemma connect_loop_role: "returns (same_role w) (connect_loop n w)"
  by (induction n) (auto intro!: returns.intros)

lemma establish_role: "returns (same_role w) (establish fuel w)"
  unfolding establish_def Let_def
  by (auto intro!: returns.intros connect_loop_role simp: same_role_def upd_prot_def)

lemma setup_addr_role: "returns (same_role w) (setup_addr fd w)"
  unfolding setup_addr_def Let_def
  by (auto intro!: returns.intros returns_andThen [where P = "\<lambda>_. True"] simp: same_role_def upd_prot_def)

lemma setup_bufs_returns: "returns (\<lambda>_. True) (setup_bufs fd w)"
  unfolding setup_bufs_def by (auto intro!: returns.intros returns_andThen [where P = "\<lambda>_. True"])

lemma Setup_role: "returns (same_role w) (Setup fuel w)"
proof -
  have est: "returns (same_role w) (establish fuel w')" if "same_role w w'" for w'
    using that by (auto intro: returns_mono [OF establish_role] same_role_trans)
  have addr: "returns (same_role w) (setup_addr fd w')" if "same_role w w'" for fd w'
    using that by (auto intro: returns_mono [OF setup_addr_role] same_role_trans)
  show ?thesis
    unfolding Setup_def Let_def
    by (auto intro!: returns.intros returns_andThen [OF setup_bufs_returns] returns_andThen [OF addr] est
        simp: same_role_def upd_prot_def)
qed

text \<open>The operations that change the heap or the buffer pointers only.\<close>

lemma MyMalloc_role: "MyMalloc alloc len so ro w = Inr w' \<Longrightarrow> same_role w w'"
  by (auto simp: MyMalloc_def Let_def same_role_def split: prod.splits if_splits)

lemma FreeBuff_role: "FreeBuff b1 b2 w = Inr w' \<Longrightarrow> same_role w w'"
  by (auto simp: FreeBuff_def res_bind_Inr)

lemma lfsrset_role: "lfsrset L s c n w = Inr w' \<Longrightarrow> same_role w w'"
  by (auto simp: lfsrset_def Let_def res_bind_Inr same_role_def)

lemma lfsrcheck_role: "lfsrcheck L s c n w = Inr w' \<Longrightarrow> same_role w w'"
  by (auto simp: lfsrcheck_def Let_def res_bind_Inr same_role_def)

lemma put_bytes_role: "put_bytes w a bs = Inr w' \<Longrightarrow> same_role w w'"
  by (auto simp: put_bytes_def res_bind_Inr)

lemma InitBufferData_role: "InitBufferData L n so ro w = Inr w' \<Longrightarrow> same_role w w'"
  by (auto simp: InitBufferData_def res_bind_Inr split: if_splits dest!: lfsrset_role put_bytes_role
      elim: same_role_trans)

lemma recvData_loop_role: "returns (\<lambda>(l, b, w'). same_role w w') (recvData_loop fd q left b w)"
proof (induction left arbitrary: q b w rule: less_induct)
  case (less left)
  have "returns (\<lambda>(l, b, w'). same_role w w') (recvData_loop fd q' (left - nat v) b' w')"
    if "same_role w w'" "0 < left" "0 < v" for q' v b' w'
    using that by (auto intro!: returns_mono [OF less] elim: same_role_trans)
  then show ?case
    by (subst recvData_loop.simps)
      (auto intro!: returns.intros returns_andThen [OF returns_lift [where P = "same_role w"]] dest: put_bytes_role)
qed

lemma readFully_loop_returns: "returns (\<lambda>_. True) (readFully_loop fd len left buf)"
  by (induction fd len left buf rule: readFully_loop.induct)
    (subst readFully_loop.simps, auto intro!: returns.intros)

lemma sendData_loop_returns: "returns (\<lambda>_. True) (sendData_loop fd q b)"
  by (induction fd q b rule: sendData_loop.induct)
    (subst sendData_loop.simps, auto intro!: returns.intros)

lemma RecvData_role: "returns (same_role w) (RecvData w)"
  unfolding RecvData_def
  by (rule returns_andThen [OF recvData_loop_role])
    (auto intro!: returns.intros elim: same_role_trans)

lemma SendData_role: "returns (same_role w) (SendData w)"
  unfolding SendData_def
  by (auto intro!: returns_andThen [where P = "\<lambda>_. True"] returns_lift returns_mono [OF sendData_loop_returns]
      returns.intros)

lemma Sync_role: "returns (same_role w) (Sync w)"
  unfolding Sync_def readFully_def
  by (auto intro!: returns.intros returns_andThen [OF readFully_loop_returns])

lemma SendRepeat_role: "returns (same_role w) (SendRepeat n w)"
  unfolding SendRepeat_def by (auto intro!: returns.intros)

lemma RecvRepeat_role: "returns (\<lambda>(n, w'). same_role w w') (RecvRepeat w)"
  unfolding RecvRepeat_def readFully_def
  by (auto intro!: returns.intros returns_andThen [OF readFully_loop_returns])

text \<open>A step that keeps the role, after steps that did.\<close>

lemma then_role:
  assumes "same_role w0 w" and "returns (same_role w) p" and "\<And>w'. same_role w0 w' \<Longrightarrow> returns P (f w')"
  shows "returns P (andThen p f)"
  using assms(2) by (rule returns_andThen) (auto intro: assms(3) same_role_trans [OF assms(1)])

lemma iter_loop_role: "same_role w0 w \<Longrightarrow> returns (same_role w0) (iter_loop (tcp_module alloc L fuel) n w)"
proof (induction n arbitrary: w)
  case (Suc n)
  have "returns (same_role w0) (andThen (SendData w) RecvData)" "returns (same_role w0) (andThen (RecvData w) SendData)"
    using Suc.prems by (auto intro!: then_role [OF _ SendData_role] then_role [OF _ RecvData_role]
        returns_mono [OF SendData_role] returns_mono [OF RecvData_role] elim: same_role_trans)
  then show ?case using Suc.IH
    by (simp add: tcp_module_def) (intro conjI impI; simp only: andThen_assoc [symmetric]; erule returns_andThen; simp)
qed (auto intro: returns.ret)

lemma CheckBufferData_role: "CheckBufferData L n so ro w = Inr w' \<Longrightarrow> same_role w w'"
  unfolding CheckBufferData_def by (rule lfsrcheck_role)

lemma set_ptrs_role: "same_role w (set_ptrs w)"
  by (simp add: set_ptrs_def same_role_def Let_def)

lemma timed_part_role:
  assumes "same_role w0 w"
  shows "returns (\<lambda>(r, w'). same_role w0 w') (timed_part (tcp_module alloc L fuel) fl sz n w)"
proof -
  have chk: "returns (same_role w) (mCheckBufferData (tcp_module alloc L fuel) k so ro w)" for w k so ro
    by (simp add: tcp_module_def) (auto intro: returns_lift CheckBufferData_role)
  have fr: "returns (same_role w) (mFreeBuff (tcp_module alloc L fuel) b1 b2 w)" for w b1 b2
    by (simp add: tcp_module_def) (auto intro: returns_lift FreeBuff_role)
  show ?thesis
    unfolding timed_part_def When_def Let_def
    by (auto intro!: returns.clock returns.ret returns_andThen [OF iter_loop_role [OF assms]]
        then_role [OF _ chk] then_role [OF _ fr] split: prod.splits)
qed

lemma run_sized_role:
  assumes "same_role w0 w"
  shows "returns (\<lambda>(r, w'). same_role w0 w') (run_sized (tcp_module alloc L fuel) fl sz n w)"
proof -
  have my: "returns (same_role w) (lift (MyMalloc alloc k so ro w))"
    and ini: "returns (same_role w) (lift (InitBufferData L k so ro w))" for w :: tcp_world and k so ro
    by (auto intro: returns_lift MyMalloc_role InitBufferData_role)
  have "same_role w0 (set_ptrs w')" if "same_role w0 w'" for w'
    using that set_ptrs_role by (rule same_role_trans)
  then show ?thesis
    using assms timed_part_role unfolding run_sized_def Let_def
    by (auto simp: tcp_module_def AfterAlignmentInit_def PrepareToReceive_def intro!: returns.ret
        then_role [OF _ SendRepeat_role] then_role [OF _ my] then_role [OF _ ini] then_role [OF _ Sync_role])
qed

lemma run_iters_role:
  "returns (\<lambda>(r, w'). same_role w w') (netpipe_run_iters (tcp_module alloc L fuel) fl pyargs w)"
proof -
  have rr: "returns (\<lambda>(n, w'). same_role w w') (mRecvRepeat (tcp_module alloc L fuel) w)" for w
    by (simp add: tcp_module_def RecvRepeat_role)
  show ?thesis
    unfolding netpipe_run_iters_def
    by (auto intro!: run_sized_role returns.ret returns_andThen [OF rr] elim: same_role_trans split: option.splits)
qed

lemma Init_wf: "self w = new_Netpipe zp temp \<Longrightarrow> tcp_wf (Init w)"
  by (simp add: tcp_wf_def Init_def new_Netpipe_def zero_args_def Let_def DEFPORT_def split: option.splits)

lemma tcp_start_wf: "tcp_wf (tcp_start temp)"
  by (simp add: tcp_start_def tcp_wf_def Init_def new_Netpipe_def zero_args_def Let_def DEFPORT_def split: option.splits)



section \<open>Times\<close>

text \<open>
  C18: A time travels as a 32-bit count of hundredths of microseconds.  When the product fits, a
  pair of \<open>SendTime\<close> and \<open>RecvTime\<close> ends in every run with the receiver holding the time cut off to
  that unit; with exact arithmetic that is within \<open>10 ^ -8\<close> seconds below the time sent.  A time whose
  product reaches \<open>2 ^ 32\<close>, about 43 seconds, is converted out of range.
\<close>

theorem tcp_time_roundtrip:
  assumes "0 \<le> fl (t * 10 ^ 8)" and "0 < cap"
  shows "(fl (t * 10 ^ 8) < 2 ^ 32 \<longrightarrow>
      ends_in (pair_step (commfd (p_of w1)) (commfd (p_of w2)) cap)
        (both_done (\<lambda>w. w = w1) (\<lambda>x. x = (fl' (real_of_int \<lfloor>fl (t * 10 ^ 8)\<rfloor> / 10 ^ 8), w2)))
        (pair_init (SendTime fl t w1) (RecvTime fl' w2))) \<and>
    (fl = id \<longrightarrow> real_of_int \<lfloor>fl (t * 10 ^ 8)\<rfloor> / 10 ^ 8 \<le> t \<and> t < real_of_int \<lfloor>fl (t * 10 ^ 8)\<rfloor> / 10 ^ 8 + 1 / 10 ^ 8) \<and>
    (2 ^ 32 \<le> fl (t * 10 ^ 8) \<longrightarrow> SendTime fl t w1 = Abort BadConversion)"
proof (intro conjI impI)
  let ?x = "fl (t * 10 ^ 8)"
  assume lt: "?x < 2 ^ 32"
  let ?n = "word_of_int \<lfloor>?x\<rfloor> :: u32"
  have fl: "0 \<le> \<lfloor>?x\<rfloor>" "\<lfloor>?x\<rfloor> < 2 ^ 32" using assms(1) lt by (auto simp: floor_less_iff)
  then have "uint ?n = \<lfloor>?x\<rfloor>" by (simp add: uint_word_of_int_eq take_bit_int_eq_self)
  then have n: "real (unat ?n) = real_of_int \<lfloor>?x\<rfloor>" using fl by (simp add: unat_eq_nat_uint)
  have "double_to_u32 ?x = Inr ?n" using assms(1) lt by (simp add: double_to_u32_def)
  then show "ends_in (pair_step (commfd (p_of w1)) (commfd (p_of w2)) cap)
        (both_done (\<lambda>w. w = w1) (\<lambda>x. x = (fl' (real_of_int \<lfloor>?x\<rfloor> / 10 ^ 8), w2)))
        (pair_init (SendTime fl t w1) (RecvTime fl' w2))"
    using follows_pair [OF SendTime_follows RecvTime_follows plays_ping [OF assms(2)]] n by metis
next
  assume "fl = id"
  then show "real_of_int \<lfloor>fl (t * 10 ^ 8)\<rfloor> / 10 ^ 8 \<le> t"
    "t < real_of_int \<lfloor>fl (t * 10 ^ 8)\<rfloor> / 10 ^ 8 + 1 / 10 ^ 8"
    using of_int_floor_le [of "t * 10 ^ 8"] floor_less_iff [of "t * 10 ^ 8" "\<lfloor>t * 10 ^ 8\<rfloor> + 1"]
    by (simp_all add: field_simps)
next
  assume "2 ^ 32 \<le> fl (t * 10 ^ 8)"
  then show "SendTime fl t w1 = Abort BadConversion" by (simp add: SendTime_def double_to_u32_def)
qed

theorem tcp_time_roundtrip_witness:
  "SendTime id 43 (tcp_start None) = Abort BadConversion \<and>
   ends_in (pair_step 0 0 1) (both_done (\<lambda>w. w = tcp_start None) (\<lambda>x. x = (real_of_int \<lfloor>3 * 10 ^ 8 / 10 ^ 5 :: real\<rfloor> / 10 ^ 8, tcp_start None)))
     (pair_init (SendTime id (3 / 10 ^ 5) (tcp_start None)) (RecvTime id (tcp_start None)))"
  using tcp_time_roundtrip [of id "3 / 10 ^ 5" 1 "tcp_start None" "tcp_start None" id]
    tcp_time_roundtrip [of id 43 1 "tcp_start None" "tcp_start None" id]
  by (simp add: tcp_start_simps)

end
