(* ===== verification/Mp_Memcpy.thy ===== *)
theory Mp_Memcpy
  imports Buffers "HOL-Library.Signed_Division" "HOL-Library.Log_Nat"
begin

text \<open>
  The optimised memory copies of \<open>MP_memcpy.c\<close>, and their equivalence with \<open>memcpy\<close>.  The
  header of the main loop of \<open>ntcopy\<close> (line 162) is not readable in the sources, so the loop's
  condition and update are parameters.
\<close>

section \<open>Copies with a head and a tail\<close>

text \<open>\<open>memcpy\<close> called with an \<open>int\<close> length.\<close>

definition memcpy_int :: "addr \<Rightarrow> addr \<Rightarrow> int \<Rightarrow> cheap \<Rightarrow> cheap res" where
  "memcpy_int dst src n h = memcpy h dst src (unat (size_t n))"

text \<open>\<open>(int) p\<close> of a pointer: the low 32 bits, read as a signed number.\<close>

definition ptr_int :: "addr \<Rightarrow> int" where
  "ptr_int p = sint (word_of_nat p :: u32)"

text \<open>The part that \<open>memcpy_8\<close> and \<open>memcpy_16\<close> share: \<open>c\<close> is 8 or 16, \<open>nb_b4\<close> the length of the head.\<close>

definition head_tail_copy :: "int \<Rightarrow> int \<Rightarrow> addr \<Rightarrow> addr \<Rightarrow> int \<Rightarrow> cheap \<Rightarrow> cheap res" where
  "head_tail_copy c nb_b4 dest src nbytes h =
     res_bind
       (if nb_b4 \<noteq> c \<and> nb_b4 \<le> nbytes
        then res_bind (memcpy_int dest src nb_b4 h) (\<lambda>h.
             Inr (src + nat nb_b4, dest + nat nb_b4, nbytes - nb_b4, h))
        else Inr (src, dest, nbytes, h))
       (\<lambda>(src, dest, nbytes, h).
     let nb_after = nbytes smod c;
         nbytes = nbytes - nb_after in
     res_bind (if nbytes > 0 then memcpy_int dest src nbytes h else Inr h) (\<lambda>h.
     if nb_after > 0 then memcpy_int (dest + nat nbytes) (src + nat nbytes) nb_after h else Inr h))"

text \<open>\<open>memcpy_8\<close> aligns the source; \<open>(long int) src\<close> is positive for a user address.\<close>

definition memcpy_8 :: "addr \<Rightarrow> addr \<Rightarrow> int \<Rightarrow> cheap \<Rightarrow> cheap res" where
  "memcpy_8 destination source nbytes =
     head_tail_copy 8 (8 - sint (word_of_nat source :: u64) smod 8) destination source nbytes"

text \<open>\<open>memcpy_16\<close> aligns the destination, through a conversion of the pointer to \<open>int\<close>.\<close>

definition memcpy_16 :: "addr \<Rightarrow> addr \<Rightarrow> int \<Rightarrow> cheap \<Rightarrow> cheap res" where
  "memcpy_16 destination source nbytes =
     head_tail_copy 16 (16 - ptr_int destination smod 16) destination source nbytes"

section \<open>The non-temporal copy\<close>

definition ALIGNMENT :: int where "ALIGNMENT = 16"
definition BLOCKSIZE :: int where "BLOCKSIZE = 131072"
definition NUMPERPAGE :: nat where "NUMPERPAGE = 512"

text \<open>
  \<open>_mm_stream_ps\<close> of 16 bytes: it faults on an address that is not a multiple of 16, as does
  \<open>_mm_load_ps\<close>; \<open>_mm_loadu_ps\<close> does not.  Indices count doubles.
\<close>

definition stream_ps :: "bool \<Rightarrow> addr \<Rightarrow> addr \<Rightarrow> nat \<Rightarrow> cheap \<Rightarrow> cheap res" where
  "stream_ps unaligned a b k h =
     (if (b + 8 * k) mod 16 \<noteq> 0 \<or> (\<not> unaligned \<and> (a + 8 * k) mod 16 \<noteq> 0) then Inl BadAccess
      else res_bind (cload h (a + 8 * k) 16) (cstore h (b + 8 * k)))"

text \<open>\<open>for (kk = 0; kk < size1; kk += 16)\<close>, eight stores in a round.\<close>

function line_loop :: "bool \<Rightarrow> addr \<Rightarrow> addr \<Rightarrow> nat \<Rightarrow> nat \<Rightarrow> cheap \<Rightarrow> cheap res" where
  "line_loop u a b size1 kk h =
     (if kk < size1
      then res_bind (stream_ps u a b kk h) (\<lambda>h.
           res_bind (stream_ps u a b (kk + 2) h) (\<lambda>h.
           res_bind (stream_ps u a b (kk + 4) h) (\<lambda>h.
           res_bind (stream_ps u a b (kk + 6) h) (\<lambda>h.
           res_bind (stream_ps u a b (kk + 8) h) (\<lambda>h.
           res_bind (stream_ps u a b (kk + 10) h) (\<lambda>h.
           res_bind (stream_ps u a b (kk + 12) h) (\<lambda>h.
           res_bind (stream_ps u a b (kk + 14) h) (\<lambda>h.
           line_loop u a b size1 (kk + 16) h))))))))
      else Inr h)"
  by pat_completeness auto
termination
  by (relation "measure (\<lambda>(u, a, b, n, k, h). n - k)") auto

text \<open>\<open>for (kk = size1; kk < blocksize; kk += 2)\<close>\<close>

function pair_loop :: "bool \<Rightarrow> addr \<Rightarrow> addr \<Rightarrow> nat \<Rightarrow> nat \<Rightarrow> cheap \<Rightarrow> cheap res" where
  "pair_loop u a b blocksize kk h =
     (if kk < blocksize
      then res_bind (stream_ps u a b kk h) (pair_loop u a b blocksize (kk + 2))
      else Inr h)"
  by pat_completeness auto
termination
  by (relation "measure (\<lambda>(u, a, b, n, k, h). n - k)") auto

text \<open>The reads that prime the TLB; the prefetch instructions have no effect on the state.\<close>

function prime_loop :: "addr \<Rightarrow> nat \<Rightarrow> nat \<Rightarrow> cheap \<Rightarrow> cheap res" where
  "prime_loop a blocksize jj h =
     (if jj < blocksize
      then res_bind (if jj + NUMPERPAGE < blocksize then cload h (a + 8 * (jj + NUMPERPAGE)) 8 else Inr [])
             (\<lambda>_. prime_loop a blocksize (jj + NUMPERPAGE) h)
      else Inr h)"
  by pat_completeness auto
termination
  by (relation "measure (\<lambda>(a, n, j, h). n - j)") (auto simp: NUMPERPAGE_def)

declare line_loop.simps [simp del] pair_loop.simps [simp del] prime_loop.simps [simp del]

record nt_state =
  nt_a :: addr
  nt_b :: addr
  nt_N :: int
  nt_blocksize :: int
  nt_heap :: cheap

text \<open>One round of the main loop.\<close>

definition ntcopy_block :: "nt_state \<Rightarrow> nt_state res" where
  "ntcopy_block s =
     (let blocksize = (if nt_N s < nt_blocksize s then nt_N s else nt_blocksize s);
          a = nt_a s; b = nt_b s; n = nat blocksize; size1 = n - n mod 16;
          u = ((ptr_int a) mod ALIGNMENT \<noteq> 0) in
      res_bind (prime_loop a n 0 (nt_heap s)) (\<lambda>h.
      res_bind (line_loop u a b size1 0 h) (\<lambda>h.
      res_bind (pair_loop u a b n size1 h) (\<lambda>h.
      Inr (s\<lparr>nt_a := a + 8 * n, nt_b := b + 8 * n, nt_blocksize := blocksize, nt_heap := h\<rparr>)))))"

primrec nt_loop :: "(nt_state \<Rightarrow> bool) \<Rightarrow> (nt_state \<Rightarrow> nt_state) \<Rightarrow> nat \<Rightarrow> nt_state \<Rightarrow> nt_state res" where
  "nt_loop cond upd 0 s = (if cond s then Inl OutOfFuel else Inr s)"
| "nt_loop cond upd (Suc fuel) s =
     (if cond s then res_bind (ntcopy_block s) (\<lambda>s. nt_loop cond upd fuel (upd s)) else Inr s)"

definition ntcopy :: "(nt_state \<Rightarrow> bool) \<Rightarrow> (nt_state \<Rightarrow> nt_state) \<Rightarrow> nat \<Rightarrow> addr \<Rightarrow> addr \<Rightarrow> int \<Rightarrow> cheap \<Rightarrow> cheap res" where
  "ntcopy cond upd fuel dst src sz h =
     (if sz \<le> ALIGNMENT then memcpy_int dst src sz h
      else
      let delta = ptr_int dst mod ALIGNMENT in
      res_bind (if delta \<noteq> 0 then res_bind (memcpy_int dst src (ALIGNMENT - delta) h)
                                  (\<lambda>h. Inr (ALIGNMENT - delta, sz - (ALIGNMENT - delta), h))
                else Inr (0, sz, h)) (\<lambda>(delta, sz, h).
      let N = 2 * (sz sdiv 16);
          LEFT = sz smod 16;
          blocksize = (if N > BLOCKSIZE div 8 then BLOCKSIZE div 8 else N) in
      res_bind (nt_loop cond upd fuel \<lparr>nt_a = src + nat delta, nt_b = dst + nat delta, nt_N = N,
                                       nt_blocksize = blocksize, nt_heap = h\<rparr>) (\<lambda>s.
      if LEFT > 0 then memcpy_int (nt_b s) (nt_a s) LEFT (nt_heap s) else Inr (nt_heap s))))"

section \<open>MP_memcpy\<close>

definition LONGMSGSIZE :: int where "LONGMSGSIZE = 327680"

text \<open>The copy type of the sources is \<open>CBCOPY\<close>.\<close>

definition MP_memcpy :: "(nt_state \<Rightarrow> bool) \<Rightarrow> (nt_state \<Rightarrow> nt_state) \<Rightarrow> nat \<Rightarrow> addr \<Rightarrow> addr \<Rightarrow> int \<Rightarrow> cheap \<Rightarrow> cheap res" where
  "MP_memcpy cond upd fuel dst src nbytes h =
     (if nbytes > LONGMSGSIZE then ntcopy cond upd fuel dst src nbytes h
      else memcpy_16 dst src nbytes h)"

section \<open>intlog2\<close>

text \<open>
  The bits of \<open>(float) i\<close> for a nonnegative \<open>i\<close>: the 24 leading bits, rounded to nearest with
  ties to even, under the exponent; a carry out of the significand raises the exponent.
\<close>

definition float_bits :: "int \<Rightarrow> int" where
  "float_bits i =
     (if i = 0 then 0
      else let e = int (floorlog 2 (nat i)) - 1 in
        if e \<le> 23 then (e + 126) * 2 ^ 23 + i * 2 ^ nat (23 - e)
        else let d = 2 ^ nat (e - 23); q = i div d; r = i mod d in
          (e + 126) * 2 ^ 23 + (if 2 * r > d \<or> (2 * r = d \<and> odd q) then q + 1 else q))"

definition intlog2 :: "int \<Rightarrow> int" where
  "intlog2 i = drop_bit 23 (float_bits i) - 127"

section \<open>Copying piece by piece\<close>

text \<open>The heap after the first \<open>k\<close> bytes of a copy.\<close>

definition copied :: "cheap \<Rightarrow> addr \<Rightarrow> addr \<Rightarrow> nat \<Rightarrow> cheap" where
  "copied h dst src k = store h dst (load h src k)"

text \<open>A copy that is allowed: both ranges live, and apart.\<close>

definition can_copy :: "cheap \<Rightarrow> addr \<Rightarrow> addr \<Rightarrow> nat \<Rightarrow> bool" where
  "can_copy h dst src n \<longleftrightarrow> valid h dst n \<and> valid h src n \<and> disjoint_ranges dst n src n"

lemma copied_0 [simp]: "copied h dst src 0 = h"
  by (simp add: copied_def)

lemma valid_copied [simp]: "valid (copied h dst src k) p n = valid h p n"
  by (simp add: copied_def)

lemma load_copied:
  assumes "can_copy h dst src n" and "k + m \<le> n"
  shows "load (copied h dst src k) (src + k) m = load h (src + k) m"
  unfolding copied_def using assms
  by (intro load_store_disjoint) (auto simp: can_copy_def disjoint_ranges_def)

lemma copied_step:
  assumes "can_copy h dst src n" and "k + m \<le> n"
  shows "store (copied h dst src k) (dst + k) (load (copied h dst src k) (src + k) m) = copied h dst src (k + m)"
  by (simp add: load_copied [OF assms]) (simp add: copied_def store_append' load_append)

lemma memcpy_piece:
  assumes "can_copy h dst src n" and "k + m \<le> n" and "m < 2 ^ 63"
  shows "memcpy_int (dst + k) (src + k) (int m) (copied h dst src k) = Inr (copied h dst src (k + m))"
proof -
  have "valid h (dst + k) m" "valid h (src + k) m"
    using assms by (auto simp: can_copy_def intro: valid_sub)
  moreover have "disjoint_ranges (dst + k) m (src + k) m"
    using assms by (auto simp: can_copy_def disjoint_ranges_def)
  ultimately show ?thesis
    using assms(3) by (simp add: memcpy_int_def memcpy_ok copied_step [OF assms(1,2)])
qed

lemma can_copy_memcpy: "can_copy h dst src n \<Longrightarrow> memcpy h dst src n = Inr (copied h dst src n)"
  by (simp add: can_copy_def memcpy_ok copied_def)

lemma smod_nonneg: "0 \<le> a \<Longrightarrow> 0 < b \<Longrightarrow> a smod b = a mod (b :: int)"
  by (simp add: signed_modulo_int_def signed_divide_int_def sgn_if minus_mult_div_eq_mod mult.commute)

lemma sdiv_nonneg: "0 \<le> a \<Longrightarrow> 0 < b \<Longrightarrow> a sdiv b = a div (b :: int)"
  by (simp add: signed_divide_int_def sgn_if)

lemma smod_less: "0 < b \<Longrightarrow> a smod b < (b :: int)"
proof -
  assume b: "0 < b"
  have "a smod b = (if 0 \<le> a then a mod b else - ((- a) mod b))"
    using b by (simp add: signed_modulo_int_def signed_divide_int_def sgn_if minus_mult_div_eq_mod
        mult.commute minus_mod_eq_mult_div [symmetric])
  then show ?thesis using b pos_mod_bound [OF b, of a] pos_mod_bound [OF b, of "- a"]
    pos_mod_sign [OF b, of "- a"] by (auto split: if_splits)
qed

lemma head_tail_copy_ok:
  assumes c: "can_copy h dest src n" and n: "n < 2 ^ 31" and k: "0 < k" and "0 < nb"
  shows "head_tail_copy (int k) nb dest src (int n) h = Inr (copied h dest src n)"
proof -
  define j where "j = (if nb \<noteq> int k \<and> nb \<le> int n then nat nb else 0)"
  define m where "m = n - j"
  have j: "j \<le> n" using assms(4) by (auto simp: j_def)
  then have n': "n = j + m" by (simp add: m_def)
  have head: "(if nb \<noteq> int k \<and> nb \<le> int n
        then res_bind (memcpy_int dest src nb h) (\<lambda>h. Inr (src + nat nb, dest + nat nb, int n - nb, h))
        else Inr (src, dest, int n, h)) = Inr (src + j, dest + j, int m, copied h dest src j)"
    using memcpy_piece [OF c, of 0 j] j n assms(4) by (auto simp: j_def m_def of_nat_diff)
  have md: "int m smod int k = int (m mod k)" using k by (simp add: smod_nonneg zmod_int)
  let ?q = "m - m mod k"
  have q: "int m - int (m mod k) = int ?q" by (simp add: of_nat_diff)
  have mid: "(if int ?q > 0 then memcpy_int (dest + j) (src + j) (int ?q) (copied h dest src j)
      else Inr (copied h dest src j)) = Inr (copied h dest src (j + ?q))"
    using memcpy_piece [OF c, of j ?q] n n' by (cases "?q = 0") (simp_all only: of_nat_0_less_iff, auto)
  have last: "(if int (m mod k) > 0
      then memcpy_int (dest + j + ?q) (src + j + ?q) (int (m mod k)) (copied h dest src (j + ?q))
      else Inr (copied h dest src (j + ?q))) = Inr (copied h dest src n)"
  proof (cases "m mod k = 0")
    case True
    then show ?thesis using n' by simp
  next
    case False
    have "memcpy_int (dest + (j + ?q)) (src + (j + ?q)) (int (m mod k)) (copied h dest src (j + ?q))
        = Inr (copied h dest src (j + ?q + m mod k))"
    proof (intro memcpy_piece [OF c])
      have "m mod k \<le> m" by simp
      then have "j + ?q + m mod k \<le> n \<and> m mod k < 2 ^ 31" using n n' by linarith
      then show "j + ?q + m mod k \<le> n" "m mod k < 2 ^ 63" by simp_all
    qed
    moreover have "j + ?q + m mod k = n" using mod_less_eq_dividend [of m k] n' by linarith
    ultimately show ?thesis using False by (simp only: add.assoc of_nat_0_less_iff) simp
  qed
  show ?thesis
    unfolding head_tail_copy_def head res_bind_simps prod.case Let_def md q mid nat_int
    using last by simp
qed

lemma memcpy_8_ok: "can_copy h dst src n \<Longrightarrow> n < 2 ^ 31 \<Longrightarrow> memcpy_8 dst src (int n) h = Inr (copied h dst src n)"
  unfolding memcpy_8_def using head_tail_copy_ok [of h dst src n 8] smod_less [of 8] by simp

lemma memcpy_16_ok: "can_copy h dst src n \<Longrightarrow> n < 2 ^ 31 \<Longrightarrow> memcpy_16 dst src (int n) h = Inr (copied h dst src n)"
  unfolding memcpy_16_def using head_tail_copy_ok [of h dst src n 16] smod_less [of 16] by simp

section \<open>The blocks of ntcopy\<close>

text \<open>
  In a block the copy has reached \<open>k\<close> doubles; the destination is aligned, and so is the source
  whenever the aligned load is used.
\<close>

definition nt_aligned :: "bool \<Rightarrow> addr \<Rightarrow> addr \<Rightarrow> bool" where
  "nt_aligned u a b \<longleftrightarrow> b mod 16 = 0 \<and> (u \<or> a mod 16 = 0)"

lemma stream_ps_ok:
  assumes "can_copy h b a (8 * n)" and "nt_aligned u a b" and "even k" and "k + 2 \<le> n"
  shows "stream_ps u a b k (copied h b a (8 * k)) = Inr (copied h b a (8 * (k + 2)))"
proof -
  obtain i where k: "k = 2 * i" using assms(3) by (elim evenE)
  have "8 * k = i * 16" using k by simp
  then have al: "(b + 8 * k) mod 16 = 0" "u \<or> (a + 8 * k) mod 16 = 0"
    using assms(2) by (auto simp: nt_aligned_def)
  have v: "valid h (b + 8 * k) 16" "valid h (a + 8 * k) 16"
    using assms(1,4) by (auto simp: can_copy_def intro: valid_sub)
  have "store (copied h b a (8 * k)) (b + 8 * k) (load (copied h b a (8 * k)) (a + 8 * k) 16)
      = copied h b a (8 * k + 16)"
    by (rule copied_step [OF assms(1)]) (use assms(4) in simp)
  moreover have "8 * k + 16 = 8 * (k + 2)" by simp
  ultimately show ?thesis using al v by (simp add: stream_ps_def)
qed

lemma line_loop_ok:
  assumes c: "can_copy h b a (8 * n)" and al: "nt_aligned u a b"
  shows "size1 \<le> n \<Longrightarrow> 16 dvd size1 \<Longrightarrow> 16 dvd kk \<Longrightarrow> kk \<le> size1 \<Longrightarrow>
    line_loop u a b size1 kk (copied h b a (8 * kk)) = Inr (copied h b a (8 * size1))"
proof (induction "size1 - kk" arbitrary: kk rule: less_induct)
  case less
  show ?case
  proof (cases "kk < size1")
    case True
    from less.prems True have k16: "kk + 16 \<le> size1" by (auto elim!: dvdE)
    have ev: "even kk" using less.prems(3) by (auto elim: dvd_trans [rotated])
    have st: "stream_ps u a b (kk + d) (copied h b a (8 * (kk + d))) = Inr (copied h b a (8 * (kk + d + 2)))"
      if "d \<le> 14" "even d" for d
      using that ev k16 less.prems(1) by (intro stream_ps_ok [OF c al]) auto
    have IH: "line_loop u a b size1 (kk + 16) (copied h b a (8 * (kk + 16))) = Inr (copied h b a (8 * size1))"
      using k16 less.prems by (intro less.hyps) auto
    show ?thesis
      apply (subst line_loop.simps)
      using True st [of 0] st [of 2] st [of 4] st [of 6] st [of 8] st [of 10] st [of 12] st [of 14] IH
      by (simp add: algebra_simps)
  next
    case False
    then show ?thesis using less.prems by (simp add: line_loop.simps)
  qed
qed

lemma pair_loop_ok:
  assumes c: "can_copy h b a (8 * n)" and al: "nt_aligned u a b" and n: "even n"
  shows "even kk \<Longrightarrow> kk \<le> n \<Longrightarrow>
    pair_loop u a b n kk (copied h b a (8 * kk)) = Inr (copied h b a (8 * n))"
proof (induction "n - kk" arbitrary: kk rule: less_induct)
  case less
  show ?case
  proof (cases "kk < n")
    case True
    then have k2: "kk + 2 \<le> n" using n less.prems(1) by presburger
    have "pair_loop u a b n (kk + 2) (copied h b a (8 * (kk + 2))) = Inr (copied h b a (8 * n))"
      using k2 less.prems by (intro less.hyps) auto
    then show ?thesis
      using True stream_ps_ok [OF c al less.prems(1) k2] by (subst pair_loop.simps) simp
  next
    case False
    then show ?thesis using less.prems by (simp add: pair_loop.simps)
  qed
qed

lemma prime_loop_ok: "valid h a (8 * n) \<Longrightarrow> prime_loop a n jj h = Inr h"
proof (induction "n - jj" arbitrary: jj rule: less_induct)
  case less
  have "valid h (a + 8 * (jj + NUMPERPAGE)) 8" if "jj + NUMPERPAGE < n"
    using that by (intro valid_sub [OF less.prems]) simp
  moreover have "prime_loop a n (jj + NUMPERPAGE) h = Inr h" if "jj < n"
    by (rule less.hyps) (use that less.prems in \<open>auto simp: NUMPERPAGE_def\<close>)
  ultimately show ?case by (subst prime_loop.simps) auto
qed

text \<open>\<open>(int) p & 15\<close> is the offset of \<open>p\<close> from a 16-byte boundary.\<close>

lemma ptr_int_mod16: "ptr_int p mod 16 = int (p mod 16)"
proof -
  have "take_bit 4 (ptr_int p) = take_bit 4 (uint (word_of_nat p :: u32))"
    by (simp add: ptr_int_def sint_uint take_bit_signed_take_bit)
  also have "\<dots> = take_bit 4 (int p)"
    by (simp add: uint_nat unat_of_nat take_bit_eq_mod zmod_int mod_mod_cancel)
  finally have "ptr_int p mod 16 = int p mod 16" by (simp add: take_bit_eq_mod)
  then show ?thesis by (simp add: zmod_int)
qed

text \<open>The body of the main loop copies its block and moves both pointers past it.\<close>

lemma ntcopy_block_ok:
  assumes "nt_b s mod 16 = 0" and "can_copy (nt_heap s) (nt_b s) (nt_a s) (8 * n)"
    and n: "int n = min (nt_N s) (nt_blocksize s)" and "even n"
  shows "ntcopy_block s = Inr (s\<lparr>nt_a := nt_a s + 8 * n, nt_b := nt_b s + 8 * n, nt_blocksize := int n,
     nt_heap := copied (nt_heap s) (nt_b s) (nt_a s) (8 * n)\<rparr>)"
proof -
  let ?u = "ptr_int (nt_a s) mod ALIGNMENT \<noteq> 0" and ?m = "n - n mod 16"
  have bs: "(if nt_N s < nt_blocksize s then nt_N s else nt_blocksize s) = int n" using n by auto
  have al: "nt_aligned ?u (nt_a s) (nt_b s)"
    using assms(1) by (auto simp: nt_aligned_def ALIGNMENT_def ptr_int_mod16)
  have m: "?m \<le> n" "16 dvd ?m" by (auto simp: minus_mod_eq_mult_div)
  have ev: "even ?m" using m(2) by (rule dvd_trans [rotated]) simp
  have p: "prime_loop (nt_a s) n 0 (nt_heap s) = Inr (nt_heap s)"
    using assms(2) by (intro prime_loop_ok) (simp add: can_copy_def)
  have l: "line_loop ?u (nt_a s) (nt_b s) ?m 0 (nt_heap s)
      = Inr (copied (nt_heap s) (nt_b s) (nt_a s) (8 * ?m))"
    using line_loop_ok [OF assms(2) al m, of 0] by simp
  have q: "pair_loop ?u (nt_a s) (nt_b s) n ?m (copied (nt_heap s) (nt_b s) (nt_a s) (8 * ?m))
      = Inr (copied (nt_heap s) (nt_b s) (nt_a s) (8 * n))"
    by (rule pair_loop_ok [OF assms(2) al assms(4) ev m(1)])
  show ?thesis unfolding ntcopy_block_def Let_def bs nat_int p res_bind_simps l q ..
qed

text \<open>
  What the loop header must do for the blocks to add up: go on exactly while doubles are left,
  and take the block that was copied off their number.
\<close>

definition counts_down :: "(nt_state \<Rightarrow> bool) \<Rightarrow> (nt_state \<Rightarrow> nt_state) \<Rightarrow> bool" where
  "counts_down cond upd \<longleftrightarrow> (\<forall>s. cond s = (nt_N s > 0) \<and> upd s = s\<lparr>nt_N := nt_N s - nt_blocksize s\<rparr>)"

lemma can_copy_rest:
  assumes "can_copy h dst src n" and "k \<le> n"
  shows "can_copy (copied h dst src k) (dst + k) (src + k) (n - k)"
  using assms valid_sub [of h dst n k "n - k"] valid_sub [of h src n k "n - k"]
  by (auto simp: can_copy_def disjoint_ranges_def)

lemma copied_copied:
  assumes "can_copy h dst src n" and "k + m \<le> n"
  shows "copied (copied h dst src k) (dst + k) (src + k) m = copied h dst src (k + m)"
  using copied_step [OF assms] by (simp add: copied_def)

lemma nt_loop_ok:
  assumes hdr: "counts_down cond upd"
  shows "nt_b s mod 16 = 0 \<Longrightarrow> can_copy (nt_heap s) (nt_b s) (nt_a s) (8 * n) \<Longrightarrow> nt_N s = int n \<Longrightarrow>
    even n \<Longrightarrow> (n = 0 \<or> (2 \<le> nt_blocksize s \<and> even (nt_blocksize s))) \<Longrightarrow> n \<le> fuel \<Longrightarrow>
    \<exists>s'. nt_loop cond upd fuel s = Inr s' \<and> nt_a s' = nt_a s + 8 * n \<and> nt_b s' = nt_b s + 8 * n \<and>
      nt_heap s' = copied (nt_heap s) (nt_b s) (nt_a s) (8 * n)"
proof (induction fuel arbitrary: s n)
  case 0
  then show ?case using hdr by (simp add: counts_down_def)
next
  case (Suc fuel)
  show ?case
  proof (cases "n = 0")
    case True
    then show ?thesis using hdr Suc.prems by (simp add: counts_down_def)
  next
    case False
    define k where "k = nat (min (nt_N s) (nt_blocksize s))"
    have bs: "2 \<le> nt_blocksize s" "even (nt_blocksize s)" using Suc.prems(5) False by auto
    have k: "int k = min (nt_N s) (nt_blocksize s)" "k \<le> n" "0 < k" "even k"
      using bs Suc.prems(3,4) False by (auto simp: k_def min_def even_nat_iff)
    let ?h = "copied (nt_heap s) (nt_b s) (nt_a s) (8 * k)"
    let ?s = "s\<lparr>nt_a := nt_a s + 8 * k, nt_b := nt_b s + 8 * k, nt_blocksize := int k, nt_heap := ?h\<rparr>"
    have c: "can_copy (nt_heap s) (nt_b s) (nt_a s) (8 * k)"
      using Suc.prems(2) k(2) by (auto simp: can_copy_def disjoint_ranges_def elim: valid_sub0)
    have blk: "ntcopy_block s = Inr ?s"
      by (rule ntcopy_block_ok [OF Suc.prems(1) c k(1,4)])
    let ?t = "?s\<lparr>nt_N := int (n - k)\<rparr>"
    have up: "upd ?s = ?t" using hdr Suc.prems(3) k(2) by (simp add: counts_down_def of_nat_diff)
    have two: "2 \<le> int k" using k(3,4) by presburger
    have al: "nt_b ?t mod 16 = 0" using Suc.prems(1) k(4) by (auto elim!: evenE)
    have cc: "can_copy (nt_heap ?t) (nt_b ?t) (nt_a ?t) (8 * (n - k))"
      using can_copy_rest [OF Suc.prems(2), of "8 * k"] k(2) by (simp add: diff_mult_distrib2)
    obtain s' where s': "nt_loop cond upd fuel ?t = Inr s'"
      "nt_a s' = nt_a ?t + 8 * (n - k)" "nt_b s' = nt_b ?t + 8 * (n - k)"
      "nt_heap s' = copied (nt_heap ?t) (nt_b ?t) (nt_a ?t) (8 * (n - k))"
      using Suc.IH [OF al cc _ _ disjI2 [OF conjI]] Suc.prems(4,6) k(2-4) two by fastforce
    have "nt_heap s' = copied (nt_heap s) (nt_b s) (nt_a s) (8 * n)"
      using s'(4) copied_copied [OF Suc.prems(2), of "8 * k" "8 * (n - k)"] k(2)
      by (simp add: diff_mult_distrib2)
    moreover have "nt_loop cond upd (Suc fuel) s = Inr s'"
      using hdr Suc.prems(3) False s'(1) by (simp add: counts_down_def blk) (simp add: counts_down_def up [symmetric])
    ultimately show ?thesis using s'(2,3) k(2) by simp
  qed
qed

text \<open>The head of \<open>ntcopy\<close>: the first \<open>d\<close> bytes, after which the destination is aligned.\<close>

lemma ntcopy_head:
  assumes "can_copy h dst src n" and "16 < n" and "n < 2 ^ 31"
  obtains d where "d < 16" "(dst + d) mod 16 = 0"
    "(if ptr_int dst mod ALIGNMENT \<noteq> 0
      then res_bind (memcpy_int dst src (ALIGNMENT - ptr_int dst mod ALIGNMENT) h)
             (\<lambda>h. Inr (ALIGNMENT - ptr_int dst mod ALIGNMENT, int n - (ALIGNMENT - ptr_int dst mod ALIGNMENT), h))
      else Inr (0, int n, h)) = Inr (int d, int (n - d), copied h dst src d)"
proof -
  define d where "d = (if dst mod 16 = 0 then 0 else 16 - dst mod 16)"
  have d: "d < 16" "(dst + d) mod 16 = 0" using mod_align [of 16 dst] by (auto simp: d_def)
  have e: "ALIGNMENT - ptr_int dst mod ALIGNMENT = int d" if "dst mod 16 \<noteq> 0"
    using that by (simp add: d_def ALIGNMENT_def ptr_int_mod16 of_nat_diff)
  have z: "ptr_int dst mod ALIGNMENT \<noteq> 0 \<longleftrightarrow> dst mod 16 \<noteq> 0" by (simp add: ALIGNMENT_def ptr_int_mod16)
  have "memcpy_int dst src (int d) h = Inr (copied h dst src d)"
    using memcpy_piece [OF assms(1), of 0 d] d(1) assms(2) by simp
  then have "(if ptr_int dst mod ALIGNMENT \<noteq> 0
      then res_bind (memcpy_int dst src (ALIGNMENT - ptr_int dst mod ALIGNMENT) h)
             (\<lambda>h. Inr (ALIGNMENT - ptr_int dst mod ALIGNMENT, int n - (ALIGNMENT - ptr_int dst mod ALIGNMENT), h))
      else Inr (0, int n, h)) = Inr (int d, int (n - d), copied h dst src d)"
    unfolding z using e d(1) assms(2) by (auto simp: d_def of_nat_diff)
  with d show thesis by (rule that)
qed

lemma ntcopy_ok:
  assumes c: "can_copy h dst src n" and n: "n < 2 ^ 31" and hdr: "counts_down cond upd" and f: "n \<le> fuel"
  shows "ntcopy cond upd fuel dst src (int n) h = Inr (copied h dst src n)"
proof (cases "n \<le> 16")
  case True
  then show ?thesis using memcpy_piece [OF c, of 0 n] n by (simp add: ntcopy_def ALIGNMENT_def)
next
  case False
  then have n16: "16 < n" by simp
  obtain d where d: "d < 16" "(dst + d) mod 16 = 0" and head: "(if ptr_int dst mod ALIGNMENT \<noteq> 0
      then res_bind (memcpy_int dst src (ALIGNMENT - ptr_int dst mod ALIGNMENT) h)
             (\<lambda>h. Inr (ALIGNMENT - ptr_int dst mod ALIGNMENT, int n - (ALIGNMENT - ptr_int dst mod ALIGNMENT), h))
      else Inr (0, int n, h)) = Inr (int d, int (n - d), copied h dst src d)"
    by (rule ntcopy_head [OF c n16 n])
  define m r where "m = 2 * ((n - d) div 16)" and "r = (n - d) mod 16"
  have mr: "8 * m + r = n - d" by (simp add: m_def r_def)
  have split: "d + 8 * m + r = n" "d + 8 * m \<le> n" using mr d(1) n16 by linarith+
  have N: "2 * (int (n - d) sdiv 16) = int m" by (simp add: sdiv_nonneg m_def zdiv_int)
  have LE: "int (n - d) smod 16 = int r" by (simp add: smod_nonneg r_def zmod_int)
  let ?bs = "if int m > BLOCKSIZE div 8 then BLOCKSIZE div 8 else int m"
  let ?s = "\<lparr>nt_a = src + d, nt_b = dst + d, nt_N = int m, nt_blocksize = ?bs, nt_heap = copied h dst src d\<rparr>"
  have "can_copy (copied h dst src d) (dst + d) (src + d) (n - d)"
    using d(1) n16 by (intro can_copy_rest [OF c]) simp
  then have "can_copy (nt_heap ?s) (nt_b ?s) (nt_a ?s) (8 * m)"
    using mr by (auto simp: can_copy_def disjoint_ranges_def elim: valid_sub0)
  moreover have "m = 0 \<or> (2 \<le> nt_blocksize ?s \<and> even (nt_blocksize ?s))"
    by (auto simp: BLOCKSIZE_def m_def)
  moreover have "even m" "m \<le> fuel" using split f by (simp_all add: m_def)
  ultimately obtain s' where s': "nt_loop cond upd fuel ?s = Inr s'"
    "nt_a s' = src + d + 8 * m" "nt_b s' = dst + d + 8 * m"
    "nt_heap s' = copied (copied h dst src d) (dst + d) (src + d) (8 * m)"
    using nt_loop_ok [OF hdr, of ?s m fuel] d(2) by auto
  have hp: "nt_heap s' = copied h dst src (d + 8 * m)" using s'(4) copied_copied [OF c split(2)] by simp
  have last: "(if int r > 0 then memcpy_int (nt_b s') (nt_a s') (int r) (nt_heap s') else Inr (nt_heap s'))
      = Inr (copied h dst src n)"
    using memcpy_piece [OF c, of "d + 8 * m" r] split n by (auto simp: hp s' add.assoc)
  have "(int n \<le> ALIGNMENT) = False" using n16 by (simp add: ALIGNMENT_def)
  then show ?thesis
    unfolding ntcopy_def Let_def head res_bind_simps prod.case N LE nat_int s'(1) using last by simp
qed

section \<open>The optimised copies are copies\<close>

text \<open>
  C8: \<open>memcpy_8\<close> and \<open>memcpy_16\<close> have exactly the effect of one \<open>memcpy\<close>, for every length and
  every alignment of the two pointers, also when the conversion of the pointer to \<open>int\<close> makes it
  negative and the remainder modulo 16 with it.
\<close>

theorem memcpy_8_16_equiv:
  assumes "valid h dst n" and "valid h src n" and "disjoint_ranges dst n src n" and "n < 2 ^ 31"
  shows "memcpy_8 dst src (int n) h = memcpy h dst src n \<and> memcpy_16 dst src (int n) h = memcpy h dst src n"
proof -
  have "can_copy h dst src n" using assms(1-3) by (simp add: can_copy_def)
  then show ?thesis using assms(4) by (simp add: memcpy_8_ok memcpy_16_ok can_copy_memcpy)
qed

text \<open>
  C2: \<open>MP_memcpy\<close> has exactly the effect of one \<open>memcpy\<close> and terminates, for every length below
  \<open>2^31\<close>, provided the header of the main loop of \<open>ntcopy\<close> runs while doubles are left and takes
  the copied block off their number; none of its 16-byte stores and aligned loads is misaligned.
\<close>

theorem MP_memcpy_equiv:
  assumes "valid h dst n" and "valid h src n" and "disjoint_ranges dst n src n" and "n < 2 ^ 31"
    and "counts_down cond upd" and "n \<le> fuel"
  shows "MP_memcpy cond upd fuel dst src (int n) h = memcpy h dst src n"
proof -
  have "can_copy h dst src n" using assms(1-3) by (simp add: can_copy_def)
  then show ?thesis
    using assms(4-6) by (simp add: MP_memcpy_def ntcopy_ok memcpy_16_ok can_copy_memcpy)
qed

theorem memcpy_8_16_equiv_witness:
  "memcpy_8 100 7 50 \<lparr>hbytes = (\<lambda>i. word_of_nat i), hblocks = [(1, 200)]\<rparr>
     = memcpy \<lparr>hbytes = (\<lambda>i. word_of_nat i), hblocks = [(1, 200)]\<rparr> 100 7 50"
  using memcpy_8_16_equiv [of "\<lparr>hbytes = (\<lambda>i. word_of_nat i), hblocks = [(1, 200)]\<rparr>" 100 50 7]
  by (simp add: valid_def disjoint_ranges_def)

theorem MP_memcpy_equiv_witness:
  "MP_memcpy (\<lambda>s. nt_N s > 0) (\<lambda>s. s\<lparr>nt_N := nt_N s - nt_blocksize s\<rparr>) 400000 1000000 7 400000
       \<lparr>hbytes = (\<lambda>i. word_of_nat i), hblocks = [(1, 2000000)]\<rparr>
     = memcpy \<lparr>hbytes = (\<lambda>i. word_of_nat i), hblocks = [(1, 2000000)]\<rparr> 1000000 7 400000"
  using MP_memcpy_equiv [of "\<lparr>hbytes = (\<lambda>i. word_of_nat i), hblocks = [(1, 2000000)]\<rparr>" 1000000 400000 7
      "\<lambda>s. nt_N s > 0" "\<lambda>s. s\<lparr>nt_N := nt_N s - nt_blocksize s\<rparr>" 400000]
  by (simp add: valid_def disjoint_ranges_def counts_down_def)

end
