(* ===== verification/Memcpy_Run.thy ===== *)
theory Memcpy_Run
  imports Driver Mp_Memcpy
begin

text \<open>
  The single-process module \<open>memcpy.c\<close>: "sending" copies the send buffer to the receive buffer,
  "receiving" copies it back.  The copy routine is \<open>memcpy\<close> or, in a build with
  \<open>USE_MP_MEMCPY\<close>, \<open>MP_memcpy\<close>; it is the first argument of the two functions.
\<close>

type_synonym copier = "addr \<Rightarrow> addr \<Rightarrow> int \<Rightarrow> cheap \<Rightarrow> cheap res"

definition memcpy_note :: string where
  "memcpy_note = concat (map (\<lambda>l. l @ [CHR 0x0A])
    [''The memcpy module is sensitive to the L1 and L2 cache sizes,'',
     ''the size of the cache-lines, and the compiler.  The following'',
     ''may help to interpret the results:'', '''',
     ''* With cache effects and no perturbations (NPmemcpy -p 0),'',
     ''    the plot will show 2 peaks.  The first peak is where data is'',
     ''    copied from L1 cache to L1, peaking around half the L1 cache'',
     ''    size.  The second peak is where data is copied from the L2 cache'',
     ''    to L2, peaking around half the L2 cache size.  The curve then'',
     ''    will drop off as messages are copied from RAM through the caches'',
     ''    and back to RAM.'', '''',
     ''* Without cache effects and no perturbations (NPmemcpy -I -p 0).'',
     ''    Data always starts in RAM, and is copied through the caches'',
     ''    up in L1, L2, or RAM depending on the message size.'', '''',
     ''* Compiler effects (NPmemcpy)'',
     ''    The memcpy() function in even current versions of glibc is'',
     ''    poorly optimized.  Performance is great when the message size'',
     ''    is divisible by 4 bytes, but other sizes revert to a byte-by-byte'',
     ''    copy that can be 4-5 times slower.  This produces sharp peaks'',
     ''    in the curve that are not seen using other compilers.''])"

definition memcpy_Init :: "('p, 'g) world \<Rightarrow> ('p, 'g) world" where
  "memcpy_Init w =
     (let w = printf [CHR 0x0A] [] w;
          w = printf (''  *** Note about memcpy module results ***  '' @ [CHR 0x0A]) [] w;
          w = printf [CHR 0x0A] [] w;
          w = printf memcpy_note [] w;
          w = printf [CHR 0x0A] [] w
      in upd_args (\<lambda>p. p\<lparr>tr := 1, rcv := 0\<rparr>) w)"

definition memcpy_SendData :: "copier \<Rightarrow> ('p, 'g) world \<Rightarrow> ('p, 'g) world res" where
  "memcpy_SendData copy w =
     res_bind (copy (r_ptr (p_of w)) (s_ptr (p_of w)) (bufflen (p_of w)) (heap w)) (\<lambda>h. Inr (upd_heap h w))"

definition memcpy_RecvData :: "copier \<Rightarrow> ('p, 'g) world \<Rightarrow> ('p, 'g) world res" where
  "memcpy_RecvData copy w =
     res_bind (copy (s_ptr (p_of w)) (r_ptr (p_of w)) (bufflen (p_of w)) (heap w)) (\<lambda>h. Inr (upd_heap h w))"

text \<open>
  The other functions of the module do nothing; \<open>RecvRepeat\<close> leaves its result variable as it
  finds it, \<open>rpt\<close>.
\<close>

definition memcpy_module :: "copier \<Rightarrow> allocator \<Rightarrow> lfsr \<Rightarrow> u32 \<Rightarrow> ('e, 'r, 'p, 'g) comm_module" where
  "memcpy_module copy alloc L rpt =
     \<lparr>mInit = (\<lambda>w. Ret (memcpy_Init w)), mSetup = Ret, mSendRepeat = (\<lambda>_. Ret), mRecvRepeat = (\<lambda>w. Ret (rpt, w)),
      mMyMalloc = (\<lambda>len so ro w. lift (MyMalloc alloc len so ro w)),
      mInitBufferData = (\<lambda>n so ro w. lift (InitBufferData L n so ro w)),
      mAfterAlignmentInit = Ret, mPrepareToReceive = Ret, mSync = Ret,
      mSendData = (\<lambda>w. lift (memcpy_SendData copy w)), mRecvData = (\<lambda>w. lift (memcpy_RecvData copy w)),
      mCheckBufferData = (\<lambda>n so ro w. lift (CheckBufferData L n so ro w)),
      mFreeBuff = (\<lambda>b1 b2 w. lift (FreeBuff b1 b2 w))\<rparr>"

text \<open>The module makes no external call.\<close>

definition no_calls :: "('e, 'r, unit) accepts" where
  "no_calls e s R \<longleftrightarrow> False"

lemma memcpy_prepare: "\<forall>w. mPrepareToReceive (memcpy_module copy alloc L rpt) w = Ret w"
  by (simp add: memcpy_module_def)

lemma framed_no_calls: "framed no_calls"
  by (simp add: framed_def no_calls_def)

text \<open>What the module needs of its copy routine.\<close>

locale copy_routine =
  fixes copy :: copier
  assumes copies: "can_copy h dst src n \<Longrightarrow> n < 2 ^ 31 \<Longrightarrow> copy dst src (int n) h = Inr (copied h dst src n)"
begin

text \<open>One round leaves the send pattern in both buffers.\<close>

lemma round_copies:
  assumes r: "ready L bl nb w"
  shows "memcpy_SendData copy w = Inr (received L nb w)"
    and "memcpy_RecvData copy (received L nb w) = Inr (received L nb w)"
proof -
  let ?p = "r_buff (p_of w)" and ?q = "s_buff (p_of w)"
  have d: "disjoint_ranges ?p nb ?q nb" and n: "nb < 2 ^ 31" "bufflen (p_of w) = int nb"
    and ptr: "r_ptr (p_of w) = ?p" "s_ptr (p_of w) = ?q" and pat: "load (heap w) ?q nb = pattern L 98 nb"
    using r by (simp_all add: ready_def Let_def)
  have c: "can_copy (heap w) ?p ?q nb" using ready_valid [OF r] d by (simp add: can_copy_def)
  show "memcpy_SendData copy w = Inr (received L nb w)"
    using copies [OF c n(1)] by (simp add: memcpy_SendData_def n ptr received_def copied_def pat)
  let ?h = "heap (received L nb w)"
  have h: "?h = store (heap w) ?p (pattern L 98 nb)" by (simp add: received_def)
  have "can_copy ?h ?q ?p nb"
    using ready_valid [OF r] d by (simp add: can_copy_def h disjoint_ranges_sym)
  moreover have "load ?h ?p nb = load ?h ?q nb"
    using load_store_same [of "heap w" ?p "pattern L 98 nb"] d by (simp add: h load_store_disjoint pat)
  ultimately have "copy ?q ?p (int nb) ?h = Inr ?h"
    using copies [OF _ n(1)] by (simp add: copied_def store_load_same)
  then show "memcpy_RecvData copy (received L nb w) = Inr (received L nb w)"
    by (simp add: memcpy_RecvData_def n ptr upd_heap_def)
qed

end

sublocale copy_routine \<subseteq> timed: timed_module "memcpy_module copy alloc L rpt" alloc L
    "\<lambda>_. no_calls" "\<lambda>(_, _, t, _, _). t \<noteq> 0" "\<lambda>_. []" "\<lambda>w. w" "[]"
    "\<lambda>w. tr (p_of w) \<noteq> 0" "[]" "\<lambda>_ _. []" for alloc L rpt
  by unfold_locales (auto simp: memcpy_module_def round_copies cfg_def framed_no_calls intro: obeys.ret)

lemma concat_Nils [simp]: "concat (map (\<lambda>_. []) xs) = []"
  by (induction xs) auto

context copy_routine
begin

lemma run_iters_silent:
  assumes "alloc_ok alloc" and "\<forall>h n. alloc h n \<noteq> NULL" and "cache (p_of w) = 0" and "tr (p_of w) \<noteq> 0"
  shows "obeys no_calls (good_result sz nrepeat (hblocks (heap w)) (out w))
    (netpipe_run_iters (memcpy_module copy alloc L rpt) fl (Some (sz, nrepeat)) w) []"
  using timed.transmitter_obeys [OF assms(1-3) _ disjI2 [OF memcpy_prepare] assms(4)] assms(4)
  by (simp add: cfg_def)

end

interpretation libc: copy_routine memcpy_int
  by unfold_locales (auto simp: memcpy_int_def can_copy_memcpy)

lemma MP_memcpy_copies:
  "counts_down cond upd \<Longrightarrow> copy_routine (MP_memcpy cond upd (2 ^ 31))"
  by unfold_locales (auto simp: MP_memcpy_def ntcopy_ok memcpy_16_ok)

text \<open>
  C3: The memory-copy module, started by its \<open>Init\<close>: for every size and repeat count,
  \<open>run_iters\<close> makes no external call but the clock readings, returns the tuple, releases its
  buffers and, after at least one round, finds the pattern that was sent in the receive buffer.
  This holds for the build with \<open>memcpy\<close>, and for the one with \<open>MP_memcpy\<close> when the header of the
  loop of \<open>ntcopy\<close> counts the copied doubles down.
\<close>

theorem memcpy_run_iters_correct:
  assumes "alloc_ok alloc" and "\<forall>h n. alloc h n \<noteq> NULL" and "cache (p_of w) = 0"
    and "copy = memcpy_int \<or> (\<exists>cond upd. counts_down cond upd \<and> copy = MP_memcpy cond upd (2 ^ 31))"
  shows "obeys no_calls (good_result sz nrepeat (hblocks (heap w)) (out (memcpy_Init w)))
    (netpipe_run_iters (memcpy_module copy alloc lfsr23 rpt) fl (Some (sz, nrepeat)) (memcpy_Init w)) []"
proof -
  let ?w = "memcpy_Init w"
  have w: "tr (p_of ?w) \<noteq> 0" "cache (p_of ?w) = 0" "heap ?w = heap w"
    using assms(3) by (simp_all add: memcpy_Init_def Let_def)
  have c: "copy_routine copy" using assms(4) libc.copy_routine_axioms MP_memcpy_copies by auto
  from copy_routine.run_iters_silent [OF c assms(1,2) w(2,1)]
  show ?thesis by (simp add: w)
qed

theorem memcpy_run_iters_correct_witness:
  "obeys no_calls (good_result 100 3 [(1, 10)] (out (memcpy_Init (sample_world 10))))
    (netpipe_run_iters (memcpy_module memcpy_int bump lfsr23 0) id (Some (100, 3)) (memcpy_Init (sample_world 10))) []"
  using memcpy_run_iters_correct [of bump "sample_world 10" memcpy_int 100 3 0 id] bump_ok
  by (simp add: sample_world_def)

end
