(* ===== verification/Messages.thy ===== *)
theory Messages
  imports NP_Types
begin

text \<open>
  Two processes joined by a message-passing library, whichever it is: \<open>view\<close> says what an
  external call of a process means in terms of messages.  A send hands its message over and
  returns when the message has been received or, if the library likes to and the send is not a
  synchronous one, as soon as the message is buffered; a receive takes the first message of the
  types it asks for; a collective call is passed by both together, and each gets what the other
  contributed to it.  The main result is the counterpart of the one for
  streams: when the two programs obey dual scripts, every run ends with both returning, whatever
  the library buffers and in whatever order the processes move.
\<close>

section \<open>What calls mean\<close>

text \<open>The type (or tag) of a message and its contents.\<close>

type_synonym message = "int \<times> byte list"

text \<open>
  A send (synchronous or not) of a message, with the reply it gets; a receive of a message of
  one of the given types whose contents the call can take, with the reply made from them; a
  collective call of some kind, with what the process contributes and the reply made from what
  the other contributes (nothing, for a barrier); a call that involves no other process;
  anything else.
\<close>

datatype 'r mview =
    VSend bool message 'r
  | VRecv "int \<Rightarrow> bool" "byte list \<Rightarrow> bool" "byte list \<Rightarrow> 'r"
  | VSync int "message list" "message list \<Rightarrow> 'r"
  | VLocal 'r
  | VNone

datatype mact = MS message | MR message | MB int "message list" "message list"

primrec dual :: "mact \<Rightarrow> mact" where
  "dual (MS m) = MR m"
| "dual (MR m) = MS m"
| "dual (MB c a b) = MB c b a"

lemma dual_dual [simp]: "dual (dual a) = a"
  by (cases a) auto

lemma map_dual_dual [simp]: "map dual (map dual t) = t"
  by (simp add: comp_def)

lemma dual_simps [simp]:
  "MS m = dual a \<longleftrightarrow> a = MR m" "MR m = dual a \<longleftrightarrow> a = MS m" "MB c x y = dual a \<longleftrightarrow> a = MB c y x"
  by (cases a; auto)+

inductive msg_acc :: "('e \<Rightarrow> 'r mview) \<Rightarrow> ('e, 'r, mact) accepts" for view where
  send: "view e = VSend y m r \<Longrightarrow> msg_acc view e (MS m # t) (\<lambda>r' u. r' = r \<and> u = t)"
| recv: "view e = VRecv sel fit mk \<Longrightarrow> sel tag \<Longrightarrow> fit bs \<Longrightarrow>
    msg_acc view e (MR (tag, bs) # t) (\<lambda>r' u. r' = mk bs \<and> u = t)"
| sync: "view e = VSync c ms mk \<Longrightarrow> msg_acc view e (MB c ms os # t) (\<lambda>r' u. r' = mk os \<and> u = t)"
| local: "view e = VLocal r \<Longrightarrow> msg_acc view e t (\<lambda>r' u. r' = r \<and> u = t)"

lemma framed_msg_acc: "framed (msg_acc view)"
  unfolding framed_def
proof (intro allI impI)
  fix e s R t assume "msg_acc view e s R"
  then show "\<exists>R'. msg_acc view e (s @ t) R' \<and> (\<forall>r u. R' r u \<longrightarrow> (\<exists>s'. R r s' \<and> u = s' @ t))"
  proof cases
    case (send y m r u)
    show ?thesis unfolding send append_Cons by (intro exI conjI, rule msg_acc.send [where view = view, OF send(3)]) auto
  next
    case (recv sel fit mk tag bs u)
    show ?thesis unfolding recv append_Cons by (intro exI conjI, rule msg_acc.recv [where view = view, OF recv(3-5)]) auto
  next
    case (sync c ms mk os u)
    show ?thesis unfolding sync append_Cons by (intro exI conjI, rule msg_acc.sync [where view = view, OF sync(3)]) auto
  next
    case (local r)
    show ?thesis unfolding local by (intro exI conjI, rule msg_acc.local [where view = view, OF local(2)]) auto
  qed
qed

text \<open>Program steps, as rules for \<open>obeys\<close>.\<close>

lemma obeys_send: "view e = VSend y m r \<Longrightarrow> obeys (msg_acc view) Q (k r) t \<Longrightarrow> obeys (msg_acc view) Q (Call e k) (MS m # t)"
  by (rule obeys.call, rule msg_acc.send) auto

lemma obeys_recv:
  "view e = VRecv sel fit mk \<Longrightarrow> sel tag \<Longrightarrow> fit bs \<Longrightarrow> obeys (msg_acc view) Q (k (mk bs)) t \<Longrightarrow>
   obeys (msg_acc view) Q (Call e k) (MR (tag, bs) # t)"
  by (rule obeys.call, erule msg_acc.recv) auto

lemma obeys_sync:
  "view e = VSync c ms mk \<Longrightarrow> obeys (msg_acc view) Q (k (mk os)) t \<Longrightarrow> obeys (msg_acc view) Q (Call e k) (MB c ms os # t)"
  by (rule obeys.call, erule msg_acc.sync) auto

lemma obeys_local: "view e = VLocal r \<Longrightarrow> obeys (msg_acc view) Q (k r) t \<Longrightarrow> obeys (msg_acc view) Q (Call e k) t"
  by (rule obeys.call, rule msg_acc.local) auto

inductive_cases obeys_RetE: "obeys acc Q (Ret x) t"
inductive_cases obeys_AbortE: "obeys acc Q (Abort x) t"
inductive_cases obeys_ClockE: "obeys acc Q (Clock k) t"
inductive_cases obeys_CallE: "obeys acc Q (Call e k) t"

lemma obeys_VSend: "obeys (msg_acc view) Q (Call e k) t \<Longrightarrow> view e = VSend y m r \<Longrightarrow>
    \<exists>t'. t = MS m # t' \<and> obeys (msg_acc view) Q (k r) t'"
  by (elim obeys_CallE) (auto elim: msg_acc.cases)

lemma obeys_VRecv: "obeys (msg_acc view) Q (Call e k) t \<Longrightarrow> view e = VRecv sel fit mk \<Longrightarrow>
    \<exists>t' tag bs. t = MR (tag, bs) # t' \<and> sel tag \<and> fit bs \<and> obeys (msg_acc view) Q (k (mk bs)) t'"
  by (elim obeys_CallE) (auto elim!: msg_acc.cases)

lemma obeys_VSync: "obeys (msg_acc view) Q (Call e k) t \<Longrightarrow> view e = VSync c ms mk \<Longrightarrow>
    \<exists>os t'. t = MB c ms os # t' \<and> obeys (msg_acc view) Q (k (mk os)) t'"
  by (elim obeys_CallE) (auto elim!: msg_acc.cases)

lemma obeys_VLocal: "obeys (msg_acc view) Q (Call e k) t \<Longrightarrow> view e = VLocal r \<Longrightarrow> obeys (msg_acc view) Q (k r) t"
  by (elim obeys_CallE) (auto elim: msg_acc.cases)

lemma obeys_VNone: "obeys (msg_acc view) Q (Call e k) t \<Longrightarrow> view e \<noteq> VNone"
  by (elim obeys_CallE) (auto elim: msg_acc.cases)

section \<open>Two processes\<close>

text \<open>
  \<open>i\<close> and \<open>q\<close> are the messages on their way to and from the process, \<open>b\<close> whether the send it is
  in has handed its message over.  \<open>eager\<close> says for which messages a send may return early.
\<close>

inductive mnode_step :: "('e \<Rightarrow> 'r mview) \<Rightarrow> (message \<Rightarrow> bool) \<Rightarrow> ('e, 'r, 'a) prog \<Rightarrow> bool \<Rightarrow> message list \<Rightarrow> message list \<Rightarrow>
    ('e, 'r, 'a) prog \<Rightarrow> bool \<Rightarrow> message list \<Rightarrow> message list \<Rightarrow> bool" for view eager where
  clock: "mnode_step view eager (Clock k) False i q (k c) False i q"
| local: "view e = VLocal r \<Longrightarrow> mnode_step view eager (Call e k) False i q (k r) False i q"
| post: "view e = VSend y m r \<Longrightarrow> mnode_step view eager (Call e k) False i q (Call e k) True i (q @ [m])"
| sent: "view e = VSend y m r \<Longrightarrow> q = [] \<or> \<not> y \<and> eager m \<Longrightarrow>
    mnode_step view eager (Call e k) True i q (k r) False i q"
| recv: "view e = VRecv sel fit mk \<Longrightarrow> \<forall>x \<in> set xs. \<not> sel (fst x) \<Longrightarrow> sel tag \<Longrightarrow> fit bs \<Longrightarrow>
    mnode_step view eager (Call e k) False (xs @ (tag, bs) # ys) q (k (mk bs)) False (xs @ ys) q"

record ('e, 'r, 'a, 'f, 's, 'b) mpair =
  mprog1 :: "('e, 'r, 'a) prog"
  posted1 :: bool
  mprog2 :: "('f, 's, 'b) prog"
  posted2 :: bool
  mq12 :: "message list"
  mq21 :: "message list"

inductive mpair_step :: "('e \<Rightarrow> 'r mview) \<Rightarrow> ('f \<Rightarrow> 's mview) \<Rightarrow> (message \<Rightarrow> bool) \<Rightarrow>
    ('e, 'r, 'a, 'f, 's, 'b) mpair \<Rightarrow> ('e, 'r, 'a, 'f, 's, 'b) mpair \<Rightarrow> bool" for view1 view2 eager where
  step1: "mnode_step view1 eager (mprog1 s) (posted1 s) (mq21 s) (mq12 s) p b i q \<Longrightarrow>
    mpair_step view1 view2 eager s (s\<lparr>mprog1 := p, posted1 := b, mq21 := i, mq12 := q\<rparr>)"
| step2: "mnode_step view2 eager (mprog2 s) (posted2 s) (mq12 s) (mq21 s) p b i q \<Longrightarrow>
    mpair_step view1 view2 eager s (s\<lparr>mprog2 := p, posted2 := b, mq12 := i, mq21 := q\<rparr>)"
| barrier: "mprog1 s = Call e1 k1 \<Longrightarrow> \<not> posted1 s \<Longrightarrow> view1 e1 = VSync c ms1 mk1 \<Longrightarrow>
    mprog2 s = Call e2 k2 \<Longrightarrow> \<not> posted2 s \<Longrightarrow> view2 e2 = VSync c ms2 mk2 \<Longrightarrow>
    mpair_step view1 view2 eager s (s\<lparr>mprog1 := k1 (mk1 ms2), mprog2 := k2 (mk2 ms1)\<rparr>)"

definition mpair_init :: "('e, 'r, 'a) prog \<Rightarrow> ('f, 's, 'b) prog \<Rightarrow> ('e, 'r, 'a, 'f, 's, 'b) mpair" where
  "mpair_init p1 p2 = \<lparr>mprog1 = p1, posted1 = False, mprog2 = p2, posted2 = False, mq12 = [], mq21 = []\<rparr>"

definition mboth_done :: "('a \<Rightarrow> bool) \<Rightarrow> ('b \<Rightarrow> bool) \<Rightarrow> ('e, 'r, 'a, 'f, 's, 'b) mpair \<Rightarrow> bool" where
  "mboth_done Q1 Q2 s \<longleftrightarrow> (\<exists>x y. mprog1 s = Ret x \<and> Q1 x \<and> mprog2 s = Ret y \<and> Q2 y \<and> mq12 s = [] \<and> mq21 s = [])"

section \<open>The rule\<close>

text \<open>The script that is left for a process, after the message it has handed over.\<close>

definition mnode_ok :: "('e \<Rightarrow> 'r mview) \<Rightarrow> ('a \<Rightarrow> bool) \<Rightarrow> ('e, 'r, 'a) prog \<Rightarrow> bool \<Rightarrow> mact list \<Rightarrow> bool" where
  "mnode_ok view Q p b t \<longleftrightarrow>
     (if b then \<exists>e k y m r. p = Call e k \<and> view e = VSend y m r \<and> obeys (msg_acc view) Q (k r) t
      else obeys (msg_acc view) Q p t)"

text \<open>One side is ahead of the other by the messages on their way.\<close>

definition fits :: "message list \<Rightarrow> message list \<Rightarrow> mact list \<Rightarrow> mact list \<Rightarrow> bool" where
  "fits q i t u \<longleftrightarrow> i = [] \<and> u = map MR q @ map dual t \<or> q = [] \<and> t = map MR i @ map dual u"

lemma fits_sym: "fits q i t u \<longleftrightarrow> fits i q u t"
  by (auto simp: fits_def)

lemma fits_send: "fits q i (MS m # t) u \<Longrightarrow> fits (q @ [m]) i t u"
  by (auto simp: fits_def Cons_eq_append_conv Cons_eq_map_conv comp_def)

lemma fits_recv:
  assumes "fits q (xs @ (tag, bs) # ys) (MR (tag', bs') # t) u" and "\<forall>x \<in> set xs. \<not> sel (fst x)" and "sel tag'"
  shows "xs = [] \<and> bs = bs' \<and> fits q ys t u"
  using assms by (cases xs) (auto simp: fits_def)

lemma fits_barrier: "fits q i (MB c a b # t) (MB c a' b' # u) \<Longrightarrow> a' = b \<and> b' = a \<and> fits q i t u"
  by (auto simp: fits_def Cons_eq_append_conv Cons_eq_map_conv)

lemma mnode_step_ok:
  assumes "mnode_step view eager p b i q p' b' i' q'" and "mnode_ok view Q p b t" and "fits q i t u"
  shows "\<exists>t'. mnode_ok view Q p' b' t' \<and> fits q' i' t' u"
  using assms
proof (cases rule: mnode_step.cases)
  case (clock k c)
  with assms show ?thesis by (auto simp: mnode_ok_def elim: obeys_ClockE)
next
  case (local e r k)
  with assms obeys_VLocal [of view Q e k t r] show ?thesis by (auto simp: mnode_ok_def)
next
  case (post e y m r k)
  with assms obeys_VSend [of view Q e k t y m r] show ?thesis
    by (auto simp: mnode_ok_def dest: fits_send)
next
  case (sent e y m r k)
  with assms show ?thesis by (auto simp: mnode_ok_def)
next
  case (recv e sel fit mk xs tag bs k ys)
  with assms obtain t' tag' bs' where t: "t = MR (tag', bs') # t'" "sel tag'" "obeys (msg_acc view) Q (k (mk bs')) t'"
    using obeys_VRecv [of view Q e k t sel fit mk] by (auto simp: mnode_ok_def)
  with recv assms(3) fits_recv [of q xs tag bs ys tag' bs' t' u sel] show ?thesis by (auto simp: mnode_ok_def)
qed

text \<open>A process moves when its script lets it; one that has reached a barrier waits there.\<close>

lemma mnode_progress:
  assumes "mnode_ok view Q p b t" and "b \<Longrightarrow> q = []" and "\<And>m t'. \<not> b \<Longrightarrow> t = MR m # t' \<Longrightarrow> \<exists>i'. i = m # i'"
  shows "(\<exists>p' b' i' q'. mnode_step view eager p b i q p' b' i' q') \<or> (\<exists>x. p = Ret x \<and> Q x \<and> t = []) \<or>
    (\<exists>e k c ms mk os t'. p = Call e k \<and> \<not> b \<and> view e = VSync c ms mk \<and> t = MB c ms os # t')"
proof (cases b)
  case True
  with assms(1) obtain e k y m r where "p = Call e k" "view e = VSend y m r" by (auto simp: mnode_ok_def)
  with True assms(2) have "mnode_step view eager p b i q (k r) False i q" by (auto intro: mnode_step.sent)
  then show ?thesis by blast
next
  case False
  with assms(1) have ob: "obeys (msg_acc view) Q p t" by (simp add: mnode_ok_def)
  show ?thesis
  proof (cases p)
    case (Ret x)
    with ob show ?thesis by (auto elim: obeys_RetE)
  next
    case (Abort x)
    with ob show ?thesis by (auto elim: obeys_AbortE)
  next
    case (Clock k)
    with False show ?thesis using mnode_step.clock [of view eager k i q undefined] by auto
  next
    case p: (Call e k)
    show ?thesis
    proof (cases "view e")
      case (VSend y m r)
      have "mnode_step view eager p b i q p True i (q @ [m])"
        using mnode_step.post [of view e y m r eager k i q] VSend p False by simp
      then show ?thesis by blast
    next
      case (VRecv sel fit mk)
      with ob p obtain t' tag bs where t: "t = MR (tag, bs) # t'" "sel tag" "fit bs"
        using obeys_VRecv [of view Q e k t sel fit mk] by auto
      with assms(3) False obtain i' where i: "i = (tag, bs) # i'" by blast
      have "mnode_step view eager p b i q (k (mk bs)) False i' q"
        using mnode_step.recv [of view e sel fit mk "[]" tag bs eager k i' q] VRecv p False t(2,3) i by simp
      then show ?thesis by blast
    next
      case (VSync c ms mk)
      then obtain os t' where "t = MB c ms os # t'" using ob p obeys_VSync [of view Q e k t c ms mk] by auto
      then show ?thesis using VSync p False by simp
    next
      case (VLocal r)
      have "mnode_step view eager p b i q (k r) False i q"
        using mnode_step.local [of view e r eager k i q] VLocal p False by simp
      then show ?thesis by blast
    next
      case VNone
      then show ?thesis using ob p obeys_VNone [of view Q e k t] by simp
    qed
  qed
qed

definition mpair_ok :: "('e \<Rightarrow> 'r mview) \<Rightarrow> ('f \<Rightarrow> 's mview) \<Rightarrow> ('a \<Rightarrow> bool) \<Rightarrow> ('b \<Rightarrow> bool) \<Rightarrow>
    ('e, 'r, 'a, 'f, 's, 'b) mpair \<Rightarrow> bool" where
  "mpair_ok view1 view2 Q1 Q2 s \<longleftrightarrow> (\<exists>t u. mnode_ok view1 Q1 (mprog1 s) (posted1 s) t \<and>
     mnode_ok view2 Q2 (mprog2 s) (posted2 s) u \<and> fits (mq12 s) (mq21 s) t u)"

lemma mpair_step_ok:
  assumes "mpair_step view1 view2 eager s s'" and "mpair_ok view1 view2 Q1 Q2 s"
  shows "mpair_ok view1 view2 Q1 Q2 s'"
proof -
  from assms(2) obtain t u where ok: "mnode_ok view1 Q1 (mprog1 s) (posted1 s) t"
    "mnode_ok view2 Q2 (mprog2 s) (posted2 s) u" and f: "fits (mq12 s) (mq21 s) t u"
    by (auto simp: mpair_ok_def)
  from assms(1) show ?thesis
  proof cases
    case (step1 p b i q)
    with ok f show ?thesis using mnode_step_ok [OF step1(2) ok(1) f] by (auto simp: mpair_ok_def)
  next
    case (step2 p b i q)
    then obtain u' where "mnode_ok view2 Q2 p b u'" "fits q i u' t"
      using mnode_step_ok [OF step2(2) ok(2)] f fits_sym by metis
    with step2 ok(1) show ?thesis by (auto simp: mpair_ok_def fits_sym [of i])
  next
    case (barrier e1 k1 c ms1 mk1 e2 k2 ms2 mk2)
    with ok obtain os1 os2 t' u' where tu: "t = MB c ms1 os1 # t'" "obeys (msg_acc view1) Q1 (k1 (mk1 os1)) t'"
      "u = MB c ms2 os2 # u'" "obeys (msg_acc view2) Q2 (k2 (mk2 os2)) u'"
      using obeys_VSync [of view1 Q1 e1 k1 t c ms1 mk1] obeys_VSync [of view2 Q2 e2 k2 u c ms2 mk2]
      by (auto simp: mnode_ok_def)
    with f have "ms2 = os1 \<and> os2 = ms1 \<and> fits (mq12 s) (mq21 s) t' u'" using fits_barrier by metis
    with barrier tu show ?thesis by (auto simp: mpair_ok_def mnode_ok_def)
  qed
qed

text \<open>
  When neither process can move on its own, both are at a barrier or both have returned: the
  side that is behind always finds the message it waits for.
\<close>

definition at_sync :: "('e \<Rightarrow> 'r mview) \<Rightarrow> ('e, 'r, 'a) prog \<Rightarrow> bool \<Rightarrow> int \<Rightarrow> bool" where
  "at_sync view p b c \<longleftrightarrow> (\<exists>e k ms mk. p = Call e k \<and> \<not> b \<and> view e = VSync c ms mk)"

lemma ahead_progress:
  assumes ok: "mnode_ok view1 Q1 p1 b1 t" "mnode_ok view2 Q2 p2 b2 (map MR q @ map dual t)"
    and stuck: "\<nexists>p b i q'. mnode_step view1 eager p1 b1 [] q p b i q'"
      "\<nexists>p b i q'. mnode_step view2 eager p2 b2 q [] p b i q'"
  shows "q = [] \<and> ((\<exists>x y. p1 = Ret x \<and> Q1 x \<and> p2 = Ret y \<and> Q2 y) \<or> (\<exists>c. at_sync view1 p1 b1 c \<and> at_sync view2 p2 b2 c))"
proof -
  have p2: "(\<exists>y. p2 = Ret y \<and> Q2 y \<and> map MR q @ map dual t = []) \<or>
      (\<exists>c ms os u. at_sync view2 p2 b2 c \<and> map MR q @ map dual t = MB c ms os # u)"
    if "\<And>m u. map MR q @ map dual t = MR m # u \<Longrightarrow> \<exists>i'. q = m # i'"
    using mnode_progress [OF ok(2), of "[]" q eager] that stuck(2) by (auto simp: at_sync_def)
  have q: "q = []"
  proof (rule ccontr)
    assume "q \<noteq> []"
    then obtain m q' where "q = m # q'" by (cases q) auto
    then show False using p2 by auto
  qed
  have p1: "(\<exists>x. p1 = Ret x \<and> Q1 x \<and> t = []) \<or> (\<exists>c ms os u. at_sync view1 p1 b1 c \<and> t = MB c ms os # u)"
    if "\<And>m u. t \<noteq> MR m # u"
    using mnode_progress [OF ok(1), of q "[]" eager] that stuck(1) q by (auto simp: at_sync_def)
  show ?thesis
  proof (cases t)
    case Nil
    then show ?thesis using p1 p2 q by auto
  next
    case (Cons a t')
    then show ?thesis by (cases a) (use p1 p2 q in auto)
  qed
qed

lemma mpair_progress:
  assumes "mpair_ok view1 view2 Q1 Q2 s"
  shows "(\<exists>s'. mpair_step view1 view2 eager s s') \<or> mboth_done Q1 Q2 s"
proof (rule disjCI)
  assume nd: "\<not> mboth_done Q1 Q2 s"
  show "\<exists>s'. mpair_step view1 view2 eager s s'"
  proof (rule ccontr)
    assume stuck: "\<nexists>s'. mpair_step view1 view2 eager s s'"
    from assms obtain t u where ok: "mnode_ok view1 Q1 (mprog1 s) (posted1 s) t"
      "mnode_ok view2 Q2 (mprog2 s) (posted2 s) u" and f: "fits (mq12 s) (mq21 s) t u"
      by (auto simp: mpair_ok_def)
    have n: "\<nexists>p b i q. mnode_step view1 eager (mprog1 s) (posted1 s) (mq21 s) (mq12 s) p b i q"
      "\<nexists>p b i q. mnode_step view2 eager (mprog2 s) (posted2 s) (mq12 s) (mq21 s) p b i q"
      using stuck mpair_step.step1 mpair_step.step2 by blast+
    have "mq12 s = [] \<and> mq21 s = [] \<and> ((\<exists>x y. mprog1 s = Ret x \<and> Q1 x \<and> mprog2 s = Ret y \<and> Q2 y) \<or>
        (\<exists>c. at_sync view1 (mprog1 s) (posted1 s) c \<and> at_sync view2 (mprog2 s) (posted2 s) c))"
      using f unfolding fits_def
    proof
      assume "mq21 s = [] \<and> u = map MR (mq12 s) @ map dual t"
      then show ?thesis using ahead_progress [of view1 Q1 "mprog1 s" "posted1 s" t view2 Q2 "mprog2 s" "posted2 s" "mq12 s" eager]
        ok n by auto
    next
      assume "mq12 s = [] \<and> t = map MR (mq21 s) @ map dual u"
      then show ?thesis using ahead_progress [of view2 Q2 "mprog2 s" "posted2 s" u view1 Q1 "mprog1 s" "posted1 s" "mq21 s" eager]
        ok n by auto
    qed
    then obtain c where "at_sync view1 (mprog1 s) (posted1 s) c \<and> at_sync view2 (mprog2 s) (posted2 s) c"
      using nd by (auto simp: mboth_done_def)
    then obtain e1 k1 ms1 mk1 e2 k2 ms2 mk2 where
      "mprog1 s = Call e1 k1" "\<not> posted1 s" "view1 e1 = VSync c ms1 mk1"
      "mprog2 s = Call e2 k2" "\<not> posted2 s" "view2 e2 = VSync c ms2 mk2"
      unfolding at_sync_def by blast
    then have "mpair_step view1 view2 eager s (s\<lparr>mprog1 := k1 (mk1 ms2), mprog2 := k2 (mk2 ms1)\<rparr>)"
      by (rule mpair_step.barrier)
    with stuck show False by blast
  qed
qed

definition mrank :: "('e, 'r, 'a, 'f, 's, 'b) mpair \<Rightarrow> (('e, 'r, 'a) prog \<times> nat) \<times> (('f, 's, 'b) prog \<times> nat)" where
  "mrank s = ((mprog1 s, if posted1 s then 0 else 1), (mprog2 s, if posted2 s then 0 else 1))"

definition mrel :: "(('e, 'r, 'a, 'f, 's, 'b) mpair \<times> ('e, 'r, 'a, 'f, 's, 'b) mpair) set" where
  "mrel = inv_image (({(p, q). sub p q} <*lex*> measure (\<lambda>x. x)) <*lex*> ({(p, q). sub p q} <*lex*> measure (\<lambda>x. x))) mrank"

lemma wf_sub: "wf {(p, q). sub p q}"
  using wfp_sub by (simp add: wfp_def)

lemma wf_mrel: "wf mrel"
  unfolding mrel_def by (intro wf_inv_image wf_lex_prod wf_sub wf_measure)

lemma mnode_step_decreases:
  "mnode_step view eager p b i q p' b' i' q' \<Longrightarrow>
   ((p', if b' then 0 else 1), (p, if b then 0 else 1)) \<in> {(p, q). sub p q} <*lex*> measure (\<lambda>x::nat. x)"
  by (erule mnode_step.cases) (auto intro: sub.intros)

lemma mpair_step_decreases: "mpair_step view1 view2 eager s s' \<Longrightarrow> (s', s) \<in> mrel"
  by (erule mpair_step.cases) (auto simp: mrel_def mrank_def sub.intros dest!: mnode_step_decreases split: if_splits)

text \<open>The rule: dual scripts are played to their end.\<close>

theorem msg_pair:
  assumes "obeys (msg_acc view1) Q1 p1 t" and "obeys (msg_acc view2) Q2 p2 (map dual t)"
  shows "ends_in (mpair_step view1 view2 eager) (mboth_done Q1 Q2) (mpair_init p1 p2)"
proof (rule ends_in_rule [OF wf_mrel, where I = "mpair_ok view1 view2 Q1 Q2"])
  show "mpair_ok view1 view2 Q1 Q2 (mpair_init p1 p2)"
    using assms by (auto simp: mpair_ok_def mnode_ok_def mpair_init_def fits_def)
qed (simp_all add: mpair_step_decreases mpair_step_ok mpair_progress)

section \<open>Both send first\<close>

text \<open>
  Two processes that each send a message and then receive the one of the other.  Where the four
  stages of a process are (before the send, in it, before the receive, at the end), the state of
  the pair is determined by the two stages.
\<close>

fun crossed_prog :: "'e \<Rightarrow> 'e \<Rightarrow> ('r \<Rightarrow> 'a) \<Rightarrow> 'r \<Rightarrow> nat \<Rightarrow> ('e, 'r, 'a) prog" where
  "crossed_prog e f g r i = (if i \<le> 1 then Call e (\<lambda>_. Call f (\<lambda>r. Ret (g r))) else if i = 2 then Call f (\<lambda>r. Ret (g r)) else Ret (g r))"

declare crossed_prog.simps [simp del]

definition crossed :: "'e \<Rightarrow> 'e \<Rightarrow> ('r \<Rightarrow> 'a) \<Rightarrow> 'r \<Rightarrow> message \<Rightarrow> 'f \<Rightarrow> 'f \<Rightarrow> ('s \<Rightarrow> 'b) \<Rightarrow> 's \<Rightarrow> message \<Rightarrow> nat \<Rightarrow> nat \<Rightarrow>
    ('e, 'r, 'a, 'f, 's, 'b) mpair" where
  "crossed e1 f1 g1 r1 m1 e2 f2 g2 r2 m2 i j =
     \<lparr>mprog1 = crossed_prog e1 f1 g1 r1 i, posted1 = (i = 1), mprog2 = crossed_prog e2 f2 g2 r2 j, posted2 = (j = 1),
      mq12 = (if 1 \<le> i \<and> j < 3 then [m1] else []), mq21 = (if 1 \<le> j \<and> i < 3 then [m2] else [])\<rparr>"

lemma crossed_node:
  assumes "view e = VSend False m y" and "view f = VRecv sel fit mk" and "sel (fst m')" and "fit (snd m')"
    and "mnode_step view eager (crossed_prog e f g (mk (snd m')) i) (i = 1) (if a then [m'] else []) q p b i' q'"
  shows "i < 3 \<and> p = crossed_prog e f g (mk (snd m')) (Suc i) \<and> b = (i = 0) \<and>
    (if i = 0 then i' = (if a then [m'] else []) \<and> q' = q @ [m]
     else if i = 1 then i' = (if a then [m'] else []) \<and> q' = q \<and> (q = [] \<or> eager m)
     else a \<and> i' = [] \<and> q' = q)"
  using assms(5)
proof (cases rule: mnode_step.cases)
  case (recv e' sel' fit' mk' xs tag bs k ys)
  then show ?thesis using assms(1-4)
    by (cases xs) (auto simp: crossed_prog.simps split: if_splits)
qed (use assms(1-4) in \<open>auto simp: crossed_prog.simps split: if_splits\<close>)


definition stages :: "nat \<Rightarrow> nat \<Rightarrow> bool" where
  "stages i j \<longleftrightarrow> i \<le> 3 \<and> j \<le> 3 \<and> (i = 3 \<longrightarrow> 1 \<le> j) \<and> (j = 3 \<longrightarrow> 1 \<le> i)"

lemma crossed_step:
  assumes v1: "view1 e1 = VSend False m1 y1" "view1 f1 = VRecv sel1 fit1 mk1" "sel1 (fst m2)" "fit1 (snd m2)"
    and v2: "view2 e2 = VSend False m2 y2" "view2 f2 = VRecv sel2 fit2 mk2" "sel2 (fst m1)" "fit2 (snd m1)"
    and st: "stages i j"
    and step: "mpair_step view1 view2 eager (crossed e1 f1 g1 (mk1 (snd m2)) m1 e2 f2 g2 (mk2 (snd m1)) m2 i j) s'"
      (is "mpair_step _ _ _ (?c i j) _")
  shows "s' = ?c (Suc i) j \<and> stages (Suc i) j \<and> (i = 1 \<longrightarrow> eager m1 \<or> j = 3) \<or>
    s' = ?c i (Suc j) \<and> stages i (Suc j) \<and> (j = 1 \<longrightarrow> eager m2 \<or> i = 3)"
  using step
proof (cases rule: mpair_step.cases)
  case (step1 p b i' q')
  then have "mnode_step view1 eager (crossed_prog e1 f1 g1 (mk1 (snd m2)) i) (i = 1)
      (if 1 \<le> j \<and> i < 3 then [m2] else []) (if 1 \<le> i \<and> j < 3 then [m1] else []) p b i' q'"
    by (simp add: crossed_def)
  from crossed_node [where view = view1, OF v1 this] step1 st show ?thesis
    by (auto simp: crossed_def stages_def split: if_splits)
next
  case (step2 p b i' q')
  then have "mnode_step view2 eager (crossed_prog e2 f2 g2 (mk2 (snd m1)) j) (j = 1)
      (if 1 \<le> i \<and> j < 3 then [m1] else []) (if 1 \<le> j \<and> i < 3 then [m2] else []) p b i' q'"
    by (simp add: crossed_def)
  from crossed_node [where view = view2, OF v2 this] step2 st show ?thesis
    by (auto simp: crossed_def stages_def split: if_splits)
next
  case (barrier e k c ms mk e' k' ms' mk')
  then show ?thesis using v1 by (auto simp: crossed_def crossed_prog.simps split: if_splits)
qed

lemma crossed_moves:
  assumes v: "view e = VSend False m y" "view f = VRecv sel fit mk" "sel (fst m')" "fit (snd m')"
    and i: "i < 3" "i = 2 \<longrightarrow> a" "i = 1 \<longrightarrow> eager m"
  shows "\<exists>p b i' q'. mnode_step view eager (crossed_prog e f g r i) (i = 1) (if a then [m'] else []) q p b i' q'"
proof -
  let ?k = "\<lambda>_. Call f (\<lambda>r. Ret (g r))" and ?i = "if a then [m'] else []"
  consider "i = 0" | "i = 1" | "i = 2" using i(1) by linarith
  then show ?thesis
  proof cases
    case 1
    then have "mnode_step view eager (crossed_prog e f g r i) (i = 1) ?i q (Call e ?k) True ?i (q @ [m])"
      using mnode_step.post [of view e False m y eager ?k ?i q] v by (simp add: crossed_prog.simps)
    then show ?thesis by blast
  next
    case 2
    then have "mnode_step view eager (crossed_prog e f g r i) (i = 1) ?i q (Call f (\<lambda>r. Ret (g r))) False ?i q"
      using mnode_step.sent [of view e False m y q eager ?k ?i] v i by (simp add: crossed_prog.simps)
    then show ?thesis by blast
  next
    case 3
    then have "mnode_step view eager (crossed_prog e f g r i) (i = 1) ?i q (Ret (g (mk (snd m')))) False [] q"
      using mnode_step.recv [of view f sel fit mk "[]" "fst m'" "snd m'" eager "\<lambda>r. Ret (g r)" "[]" q] v i
      by (simp add: crossed_prog.simps)
    then show ?thesis by blast
  qed
qed

text \<open>With buffering both get the other's message; without it both wait for ever in their sends.\<close>

lemma crossed_eager:
  assumes v1: "view1 e1 = VSend False m1 y1" "view1 f1 = VRecv sel1 fit1 mk1" "sel1 (fst m2)" "fit1 (snd m2)"
    and v2: "view2 e2 = VSend False m2 y2" "view2 f2 = VRecv sel2 fit2 mk2" "sel2 (fst m1)" "fit2 (snd m1)"
    and "eager m1" "eager m2"
  shows "ends_in (mpair_step view1 view2 eager)
    (mboth_done (\<lambda>x. x = g1 (mk1 (snd m2))) (\<lambda>y. y = g2 (mk2 (snd m1))))
    (mpair_init (Call e1 (\<lambda>_. Call f1 (\<lambda>r. Ret (g1 r)))) (Call e2 (\<lambda>_. Call f2 (\<lambda>r. Ret (g2 r)))))"
proof (rule ends_in_rule [OF wf_mrel, where
      I = "\<lambda>s. \<exists>i j. stages i j \<and> s = crossed e1 f1 g1 (mk1 (snd m2)) m1 e2 f2 g2 (mk2 (snd m1)) m2 i j"])
  let ?c = "crossed e1 f1 g1 (mk1 (snd m2)) m1 e2 f2 g2 (mk2 (snd m1)) m2"
  fix s assume "\<exists>i j. stages i j \<and> s = ?c i j"
  then obtain i j where s: "stages i j" "s = ?c i j" by blast
  show "\<exists>i j. stages i j \<and> s' = ?c i j" if "mpair_step view1 view2 eager s s'" for s'
    using crossed_step [where ?view1.0 = view1 and ?view2.0 = view2, OF v1 v2 s(1)] that s(2) by blast
  consider "i < 3" "i = 2 \<longrightarrow> 1 \<le> j" | "j < 3" "j = 2 \<longrightarrow> 1 \<le> i" | "i = 3" "j = 3"
    using s(1) unfolding stages_def by linarith
  then show "(\<exists>s'. mpair_step view1 view2 eager s s') \<or> mboth_done (\<lambda>x. x = g1 (mk1 (snd m2))) (\<lambda>y. y = g2 (mk2 (snd m1))) s"
  proof cases
    case 1
    have "\<exists>p b i' q'. mnode_step view1 eager (mprog1 s) (posted1 s) (mq21 s) (mq12 s) p b i' q'"
      unfolding s(2) crossed_def mpair.select_convs
      by (rule crossed_moves [where view = view1, OF v1]) (use 1 assms(9) in auto)
    then show ?thesis using mpair_step.step1 by blast
  next
    case 2
    have "\<exists>p b i' q'. mnode_step view2 eager (mprog2 s) (posted2 s) (mq12 s) (mq21 s) p b i' q'"
      unfolding s(2) crossed_def mpair.select_convs
      by (rule crossed_moves [where view = view2, OF v2]) (use 2 assms(10) in auto)
    then show ?thesis using mpair_step.step2 by blast
  next
    case 3
    then show ?thesis by (auto simp: s(2) crossed_def crossed_prog.simps mboth_done_def)
  qed
next
  show "\<exists>i j. stages i j \<and> mpair_init (Call e1 (\<lambda>_. Call f1 (\<lambda>r. Ret (g1 r)))) (Call e2 (\<lambda>_. Call f2 (\<lambda>r. Ret (g2 r))))
      = crossed e1 f1 g1 (mk1 (snd m2)) m1 e2 f2 g2 (mk2 (snd m1)) m2 i j"
    by (rule exI [of _ 0], rule exI [of _ 0]) (simp add: stages_def crossed_def crossed_prog.simps mpair_init_def)
qed (simp add: mpair_step_decreases)

lemma crossed_blocked:
  assumes v1: "view1 e1 = VSend False m1 y1" "view1 f1 = VRecv sel1 fit1 mk1" "sel1 (fst m2)" "fit1 (snd m2)"
    and v2: "view2 e2 = VSend False m2 y2" "view2 f2 = VRecv sel2 fit2 mk2" "sel2 (fst m1)" "fit2 (snd m1)"
    and "\<not> eager m1" "\<not> eager m2"
  shows "ends_in (mpair_step view1 view2 eager)
    (\<lambda>s. (\<exists>k. mprog1 s = Call e1 k) \<and> (\<exists>k. mprog2 s = Call e2 k))
    (mpair_init (Call e1 (\<lambda>_. Call f1 (\<lambda>r. Ret (g1 r)))) (Call e2 (\<lambda>_. Call f2 (\<lambda>r. Ret (g2 r)))))"
proof (rule ends_in_rule [OF wf_mrel, where
      I = "\<lambda>s. \<exists>i j. i \<le> 1 \<and> j \<le> 1 \<and> s = crossed e1 f1 g1 (mk1 (snd m2)) m1 e2 f2 g2 (mk2 (snd m1)) m2 i j"])
  let ?c = "crossed e1 f1 g1 (mk1 (snd m2)) m1 e2 f2 g2 (mk2 (snd m1)) m2"
  fix s assume "\<exists>i j. i \<le> 1 \<and> j \<le> 1 \<and> s = ?c i j"
  then obtain i j where s: "i \<le> 1" "j \<le> 1" "s = ?c i j" by blast
  have st: "stages i j" using s by (simp add: stages_def)
  show "\<exists>i j. i \<le> 1 \<and> j \<le> 1 \<and> s' = ?c i j" if "mpair_step view1 view2 eager s s'" for s'
  proof -
    from crossed_step [where ?view1.0 = view1 and ?view2.0 = view2, OF v1 v2 st that [unfolded s(3)]] assms(9,10) s(1,2)
    have "s' = ?c (Suc i) j \<and> Suc i \<le> 1 \<or> s' = ?c i (Suc j) \<and> Suc j \<le> 1" by (cases "i = 1"; cases "j = 1") auto
    with s(1,2) show ?thesis by blast
  qed
  show "(\<exists>s'. mpair_step view1 view2 eager s s') \<or> ((\<exists>k. mprog1 s = Call e1 k) \<and> (\<exists>k. mprog2 s = Call e2 k))"
    using s by (simp add: crossed_def crossed_prog.simps)
next
  show "\<exists>i j. i \<le> 1 \<and> j \<le> 1 \<and> mpair_init (Call e1 (\<lambda>_. Call f1 (\<lambda>r. Ret (g1 r)))) (Call e2 (\<lambda>_. Call f2 (\<lambda>r. Ret (g2 r))))
      = crossed e1 f1 g1 (mk1 (snd m2)) m1 e2 f2 g2 (mk2 (snd m1)) m2 i j"
    by (rule exI [of _ 0], rule exI [of _ 0]) (simp add: crossed_def crossed_prog.simps mpair_init_def)
qed (simp add: mpair_step_decreases)

end
