(* ===== verification/Message_Run.thy ===== *)
theory Message_Run
  imports Driver Messages
begin

text \<open>
  The timed exchange over any message-passing library: two processes whose modules go through
  \<open>run_iters\<close> with dual scripts both finish it.
\<close>

locale exchange_ends =
  tx: exchange_module m1 alloc1 L "\<lambda>c. msg_acc (view c)" role announce arm after armed sync round announced +
  rx: exchange_module m2 alloc2 L "\<lambda>c. msg_acc (view c)" role announce arm after armed sync round announced
  for m1 :: "('e, 'r, 'p, 'g) comm_module" and m2 :: "('e, 'r, 'p, 'g) comm_module"
    and alloc1 alloc2 :: allocator and L :: lfsr and view :: "('p, 'g) cfg \<Rightarrow> 'e \<Rightarrow> 'r mview"
    and role announce arm after armed sync round announced +
  assumes announced_dual: "announced n = map dual (announce n)"
    and after_dual: "map dual after = after"
    and sync_dual: "map dual sync = sync"
    and round_dual: "tx \<noteq> 0 \<Longrightarrow> map dual (round tx nb) = round 0 nb"
begin

lemma dual_rounds:
  "tx \<noteq> 0 \<Longrightarrow> map dual (concat (map (\<lambda>_. round tx nb) [0..<n])) = concat (map (\<lambda>_. round 0 nb) [0..<n])"
  by (simp add: map_concat comp_def round_dual)

lemma run_iters_pair:
  assumes "alloc_ok alloc1" "\<forall>h n. alloc1 h n \<noteq> NULL" "alloc_ok alloc2" "\<forall>h n. alloc2 h n \<noteq> NULL"
    and "cache (p_of w1) = 0" "role (cfg w1)" and p1: "asyncReceive (self w1) = 0 \<or> (\<forall>w. mPrepareToReceive m1 w = Ret w)"
    and "tr (p_of w1) \<noteq> 0"
    and "cache (p_of w2) = 0" "role (cfg w2)" and p2: "asyncReceive (self w2) = 0 \<or> (\<forall>w. mPrepareToReceive m2 w = Ret w)"
    and "tr (p_of w2) = 0" "rcv (p_of w2) \<noteq> 0" and "sz \<noteq> 0"
  shows "ends_in (mpair_step (view (cfg w1)) (view (cfg w2)) eager)
    (mboth_done (good_result sz nrepeat (hblocks (heap w1)) (out w1))
                (good_result sz nrepeat (hblocks (heap w2)) (out w2)))
    (mpair_init (netpipe_run_iters m1 fl1 (Some (sz, nrepeat)) w1) (netpipe_run_iters m2 fl2 None w2))"
  by (rule msg_pair [OF tx.transmitter_obeys [OF assms(1,2,5,6) p1 assms(8)]])
    (use rx.receiver_obeys [OF assms(3,4,9,10) p2 assms(12-14)] in
      \<open>simp add: dual_rounds [OF assms(8)] announced_dual after_dual sync_dual\<close>)

end

text \<open>The modules that transfer messages between their buffers and the network.\<close>

locale message_ends =
  tx: transfer_module m1 alloc1 L "\<lambda>c. msg_acc (view c)" role announce announced sync give get +
  rx: transfer_module m2 alloc2 L "\<lambda>c. msg_acc (view c)" role announce announced sync give get
  for m1 :: "('e, 'r, 'p, 'g) comm_module" and m2 :: "('e, 'r, 'p, 'g) comm_module"
    and alloc1 alloc2 :: allocator and L :: lfsr and view :: "('p, 'g) cfg \<Rightarrow> 'e \<Rightarrow> 'r mview"
    and role announce announced sync give get +
  assumes announced_dual: "announced n = map dual (announce n)"
    and sync_dual: "map dual sync = sync"
    and get_dual: "get bs = map dual (give bs)"

sublocale message_ends \<subseteq> ends: exchange_ends m1 m2 alloc1 alloc2 L view role announce "\<lambda>w. w" "[]"
    "\<lambda>w. role (cfg w)" sync "round_script give get L" announced
  by unfold_locales (simp_all add: announced_dual sync_dual get_dual round_script_def comp_def)

end
