(* ===== verification/Mpi.thy ===== *)
theory Mpi
  imports Message_Run
begin

text \<open>
  The MPI module \<open>mpi.c\<close>: the functions as interaction programs over the MPI calls, the receive
  that may be posted ahead of time, and the timed exchange between the first and the last rank.
\<close>

section \<open>Calls and state\<close>

text \<open>
  The MPI calls of the three MPI modules.  Counts are in bytes; a reply carries the call's result,
  the bytes it leaves in the caller's object and the puts into the caller's window that have
  become visible (offset and bytes).  All communication is on \<open>MPI_COMM_WORLD\<close>.  A fence lists
  the puts of the epoch it closes (target, offset and bytes).
\<close>

datatype mpi_ev =
    MPI_Init
  | MPI_Finalize
  | MPI_Comm_rank
  | MPI_Comm_size
  | Gethostname
  | MPI_Buffer_attach addr int
  | MPI_Barrier
  | MPI_Send "byte list" int int
  | MPI_Ssend "byte list" int int
  | MPI_Bsend "byte list" int int
  | MPI_Recv nat int int
  | MPI_Irecv addr nat int int
  | MPI_Wait int
  | MPI_Bcast "byte list" int
  | MPI_Alltoall "byte list" nat
  | MPI_Win_create addr int
  | MPI_Win_fence "(int \<times> message) list"
  | MPI_Put "byte list" int int
  | MPI_Get nat int int
  | Sched_yield

record mpi_reply =
  ret :: int
  data :: "byte list"
  puts :: "message list"

record MpiProt =
  nbor :: int
  iproc :: int
  nprocs :: int
  use_get :: int
  no_fence :: int

text \<open>
  The statics: whether a receive is posted, its request, and the library's record of the buffer
  it was posted with; \<open>messbuff\<close> exists in a build with \<open>BSEND\<close>.
\<close>

record mpi_glob =
  recvPosted :: int
  recvRequest :: int
  recvAddr :: addr
  messbuff :: addr

type_synonym mpi_world = "(MpiProt, mpi_glob) world"
type_synonym 'a mpi_prog = "(mpi_ev, mpi_reply, 'a) prog"

definition upd_mprot :: "(MpiProt \<Rightarrow> MpiProt) \<Rightarrow> (MpiProt, 'g) world \<Rightarrow> (MpiProt, 'g) world" where
  "upd_mprot f = upd_args (\<lambda>a. a\<lparr>prot := f (prot a)\<rparr>)"

definition MAXBUFSIZE :: int where "MAXBUFSIZE = 10 * 1024 * 1024"

section \<open>The functions\<close>

definition mpi_Init :: "mpi_world \<Rightarrow> mpi_world mpi_prog" where
  "mpi_Init w = Call MPI_Init (\<lambda>_. Ret (upd_args (\<lambda>p. p\<lparr>source_node := 0\<rparr>) w))"

text \<open>The host name without its domain, unless it starts with a dot.\<close>

definition base_name :: "string \<Rightarrow> string" where
  "base_name s = (if s \<noteq> [] \<and> hd s \<noteq> CHR ''.'' then takeWhile (\<lambda>c. c \<noteq> CHR ''.'') s else s)"

definition chars :: "byte list \<Rightarrow> string" where
  "chars = map (\<lambda>b. char_of (unat b))"

definition set_ends :: "int \<Rightarrow> (MpiProt, 'g) world \<Rightarrow> (MpiProt, 'g) world" where
  "set_ends np w =
     (let w = upd_args (\<lambda>p. p\<lparr>tr := 0, rcv := 0\<rparr>) w in
      if iproc (prot (p_of w)) = 0
      then upd_mprot (\<lambda>q. q\<lparr>nbor := np - 1\<rparr>) (upd_args (\<lambda>p. p\<lparr>tr := 1\<rparr>) w)
      else if iproc (prot (p_of w)) = np - 1
      then upd_mprot (\<lambda>q. q\<lparr>nbor := 0\<rparr>) (upd_args (\<lambda>p. p\<lparr>rcv := 1\<rparr>) w)
      else w)"

definition mpi_Setup :: "bool \<Rightarrow> allocator \<Rightarrow> mpi_world \<Rightarrow> mpi_world mpi_prog" where
  "mpi_Setup BSEND alloc w =
     Call MPI_Comm_rank (\<lambda>r.
     let w = upd_mprot (\<lambda>q. q\<lparr>iproc := ret r\<rparr>) w in
     Call MPI_Comm_size (\<lambda>r.
     let np = ret r in
     Call Gethostname (\<lambda>r.
     let w = printf ''%d: %s'' [AInt (iproc (prot (p_of w))), AStr (base_name (chars (data r)))] w in
     if np < 2 then Abort (Exit (- 2))
     else
     let w = set_ends np w;
         w = (if source_node (p_of w) = 0
              then upd_args (\<lambda>p. p\<lparr>source_node := nbor (prot p)\<rparr>) w else w) in
     andThen
       (if BSEND
        then case malloc alloc (heap w) (nat MAXBUFSIZE) of (q, h) \<Rightarrow>
             let w = upd_heap h (w\<lparr>glob := (glob w)\<lparr>messbuff := q\<rparr>\<rparr>) in
             if q = NULL then Abort (Exit (- 1))
             else Call (MPI_Buffer_attach q MAXBUFSIZE) (\<lambda>_. Ret (upd_args (\<lambda>p. p\<lparr>upper := MAXBUFSIZE\<rparr>) w))
        else Ret w) (\<lambda>w.
     Ret (if bidir (p_of w) \<noteq> 0
          then printf ''You may need to run using -a to avoid locking up.'' []
                 (printf ''MPI implementations do not have to guarantee message progress.'' [] w)
          else w)))))"

definition mpi_Sync :: "('p, 'g) world \<Rightarrow> ('p, 'g) world mpi_prog" where
  "mpi_Sync w = Call MPI_Barrier (\<lambda>_. Ret w)"

definition mpi_PrepareToReceive :: "mpi_world \<Rightarrow> mpi_world mpi_prog" where
  "mpi_PrepareToReceive w =
     (if recvPosted (glob w) \<noteq> 0 then Abort (Exit (- 1))
      else Call (MPI_Irecv (r_ptr (p_of w)) (nat (bufflen (p_of w))) (source_node (p_of w)) 1) (\<lambda>r.
           Ret (w\<lparr>glob := (glob w)\<lparr>recvRequest := ret r, recvAddr := r_ptr (p_of w), recvPosted := - 1\<rparr>\<rparr>)))"

definition mpi_SendData :: "bool \<Rightarrow> mpi_world \<Rightarrow> mpi_world mpi_prog" where
  "mpi_SendData BSEND w =
     andThen (lift (cload (heap w) (s_ptr (p_of w)) (nat (bufflen (p_of w))))) (\<lambda>bs.
     if BSEND then Call (MPI_Bsend bs (nbor (prot (p_of w))) 1) (\<lambda>_. Ret w)
     else if syncflag (p_of w) \<noteq> 0 then Call (MPI_Ssend bs (nbor (prot (p_of w))) 1) (\<lambda>_. Ret w)
     else Call (MPI_Send bs (nbor (prot (p_of w))) 1) (\<lambda>_. Ret w))"

text \<open>The received bytes go to the buffer of the call, or to the one of the posted receive.\<close>

definition mpi_RecvData :: "mpi_world \<Rightarrow> mpi_world mpi_prog" where
  "mpi_RecvData w =
     (if recvPosted (glob w) \<noteq> 0
      then Call (MPI_Wait (recvRequest (glob w))) (\<lambda>r.
           andThen (lift (put_bytes w (recvAddr (glob w)) (data r))) (\<lambda>w.
           Ret (w\<lparr>glob := (glob w)\<lparr>recvPosted := 0\<rparr>\<rparr>)))
      else Call (MPI_Recv (nat (bufflen (p_of w))) (source_node (p_of w)) 1) (\<lambda>r.
           lift (put_bytes w (r_ptr (p_of w)) (data r))))"

text \<open>A double travels as its eight bytes; \<open>enc\<close> and \<open>dec\<close> are its memory representation.\<close>

definition mpi_SendTime :: "(real \<Rightarrow> byte list) \<Rightarrow> real \<Rightarrow> (MpiProt, 'g) world \<Rightarrow> (MpiProt, 'g) world mpi_prog" where
  "mpi_SendTime enc t w = Call (MPI_Send (enc t) (nbor (prot (p_of w))) 2) (\<lambda>_. Ret w)"

definition mpi_RecvTime :: "(byte list \<Rightarrow> real) \<Rightarrow> (MpiProt, 'g) world \<Rightarrow> (real \<times> (MpiProt, 'g) world) mpi_prog" where
  "mpi_RecvTime dec w = Call (MPI_Recv 8 (nbor (prot (p_of w))) 2) (\<lambda>r. Ret (dec (data r), w))"

definition mpi_SendRepeat :: "u32 \<Rightarrow> (MpiProt, 'g) world \<Rightarrow> (MpiProt, 'g) world mpi_prog" where
  "mpi_SendRepeat rpt w = Call (MPI_Send (le_bytes rpt) (nbor (prot (p_of w))) 2) (\<lambda>_. Ret w)"

definition mpi_RecvRepeat :: "(MpiProt, 'g) world \<Rightarrow> (u32 \<times> (MpiProt, 'g) world) mpi_prog" where
  "mpi_RecvRepeat w = Call (MPI_Recv 4 (source_node (p_of w)) 2) (\<lambda>r. Ret (le_word (data r), w))"

definition mpi_CleanUp :: "('p, 'g) world \<Rightarrow> ('p, 'g) world mpi_prog" where
  "mpi_CleanUp w = Call MPI_Finalize (\<lambda>_. Ret w)"

definition mpi_module :: "bool \<Rightarrow> allocator \<Rightarrow> lfsr \<Rightarrow> (mpi_ev, mpi_reply, MpiProt, mpi_glob) comm_module" where
  "mpi_module BSEND alloc L =
     \<lparr>mInit = mpi_Init, mSetup = mpi_Setup BSEND alloc, mSendRepeat = mpi_SendRepeat, mRecvRepeat = mpi_RecvRepeat,
      mMyMalloc = (\<lambda>len so ro w. lift (MyMalloc alloc len so ro w)),
      mInitBufferData = (\<lambda>n so ro w. lift (InitBufferData L n so ro w)),
      mAfterAlignmentInit = Ret, mPrepareToReceive = mpi_PrepareToReceive, mSync = mpi_Sync,
      mSendData = mpi_SendData BSEND, mRecvData = mpi_RecvData,
      mCheckBufferData = (\<lambda>n so ro w. lift (CheckBufferData L n so ro w)),
      mFreeBuff = (\<lambda>b1 b2 w. lift (FreeBuff b1 b2 w))\<rparr>"

section \<open>The calls in terms of messages\<close>

text \<open>Between two ranks: the peer is \<open>nbor\<close>, and -1 is \<open>MPI_ANY_SOURCE\<close>.\<close>

definition ok_reply :: mpi_reply where
  "ok_reply = \<lparr>ret = 0, data = [], puts = []\<rparr>"

fun mpi_view :: "int \<Rightarrow> mpi_ev \<Rightarrow> mpi_reply mview" where
  "mpi_view peer (MPI_Send bs d tag) = (if d = peer then VSend False (tag, bs) ok_reply else VNone)"
| "mpi_view peer (MPI_Ssend bs d tag) = (if d = peer then VSend True (tag, bs) ok_reply else VNone)"
| "mpi_view peer (MPI_Bsend bs d tag) = (if d = peer then VSend False (tag, bs) ok_reply else VNone)"
| "mpi_view peer (MPI_Recv n s tag) =
     (if s = peer \<or> s = - 1 then VRecv (\<lambda>y. y = tag) (\<lambda>bs. length bs \<le> n) (\<lambda>bs. \<lparr>ret = 0, data = bs, puts = []\<rparr>) else VNone)"
| "mpi_view peer MPI_Barrier = VSync 0 [] (\<lambda>_. ok_reply)"
| "mpi_view peer _ = VNone"

text \<open>No receive is posted, and the source is the neighbour or any.\<close>

fun mpi_role :: "(MpiProt, mpi_glob) cfg \<Rightarrow> bool" where
  "mpi_role (fd, src, t, q, g) \<longleftrightarrow> recvPosted g = 0 \<and> (src = nbor q \<or> src = - 1)"

fun mpi_peer :: "(MpiProt, 'g) cfg \<Rightarrow> int" where
  "mpi_peer (fd, src, t, q, g) = nbor q"

lemma mpi_SendData_obeys:
  assumes "valid (heap w) (s_ptr (p_of w)) (nat (bufflen (p_of w)))"
  shows "obeys (msg_acc (mpi_view (mpi_peer (cfg w)))) (\<lambda>w'. w' = w) (mpi_SendData BSEND w)
    [MS (1, load (heap w) (s_ptr (p_of w)) (nat (bufflen (p_of w))))]"
  using assms by (auto simp: cfg_def mpi_SendData_def intro!: obeys_send obeys.ret)

lemma mpi_RecvData_obeys:
  assumes "mpi_role (cfg w)" and "valid (heap w) (r_ptr (p_of w)) (nat (bufflen (p_of w)))"
    and "length bs = nat (bufflen (p_of w))"
  shows "obeys (msg_acc (mpi_view (mpi_peer (cfg w)))) (\<lambda>w'. w' = upd_heap (store (heap w) (r_ptr (p_of w)) bs) w)
    (mpi_RecvData w) [MR (1, bs)]"
  using assms by (auto simp: cfg_def mpi_RecvData_def intro!: obeys_recv obeys.ret)

interpretation mpi: transfer_module "mpi_module BSEND alloc L" alloc L "\<lambda>c. msg_acc (mpi_view (mpi_peer c))" mpi_role
    "\<lambda>n. [MS (2, le_bytes n)]" "\<lambda>n. [MR (2, le_bytes n)]" "[MB 0 [] []]" "\<lambda>bs. [MS (1, bs)]" "\<lambda>bs. [MR (1, bs)]"
  for BSEND alloc L
  apply unfold_locales
            apply (simp_all add: mpi_module_def framed_msg_acc mpi_SendData_obeys mpi_RecvData_obeys)
    apply (auto simp: cfg_def mpi_SendRepeat_def intro!: obeys_send obeys.ret)[1]
   apply (auto simp: cfg_def mpi_RecvRepeat_def intro!: obeys_recv obeys.ret)[1]
  apply (auto simp: cfg_def mpi_Sync_def intro!: obeys_sync obeys.ret)[1]
  done

interpretation mpi_ends: message_ends "mpi_module BSEND1 alloc1 L" "mpi_module BSEND2 alloc2 L" alloc1 alloc2 L
    "\<lambda>c. mpi_view (mpi_peer c)" mpi_role "\<lambda>n. [MS (2, le_bytes n)]" "\<lambda>n. [MR (2, le_bytes n)]" "[MB 0 [] []]"
    "\<lambda>bs. [MS (1, bs)]" "\<lambda>bs. [MR (1, bs)]"
  for BSEND1 BSEND2 alloc1 alloc2 L
  by unfold_locales simp_all

section \<open>Correctness\<close>


text \<open>The state of rank \<open>i\<close> of \<open>np\<close> after the set-up, with nothing allocated.\<close>

definition mpi_start :: "int \<Rightarrow> int \<Rightarrow> mpi_world" where
  "mpi_start np i = (let w = set_ends np \<lparr>self = new_Netpipe \<lparr>nbor = 0, iproc = i, nprocs = 0, use_get = 0, no_fence = 0\<rparr> None,
     heap = \<lparr>hbytes = (\<lambda>_. 0), hblocks = []\<rparr>, lfsr_data = 0, fcflag = 0,
     glob = \<lparr>recvPosted = 0, recvRequest = 0, recvAddr = 0, messbuff = 0\<rparr>, out = []\<rparr>
     in upd_args (\<lambda>p. p\<lparr>source_node := nbor (prot p)\<rparr>) w)"


text \<open>
  Roles after \<open>Setup\<close>.  Fewer than two processes end the program with \<open>exit(-2)\<close>.  Otherwise
  rank 0 becomes the transmitter with the last rank as its neighbour, the last rank the receiver
  with rank 0 as its neighbour, and every other rank neither; the source of receives is the
  neighbour unless another one was set before.
\<close>

theorem mpi_Setup_roles:
  assumes "bidir (p_of w) = 0" and "0 \<le> i" and "i < np"
  shows "case fst (feed (mpi_Setup False alloc w) [\<lparr>ret = i, data = [], puts = []\<rparr>, \<lparr>ret = np, data = [], puts = []\<rparr>, \<lparr>ret = 0, data = hs, puts = []\<rparr>] []) of
      Abort e \<Rightarrow> np < 2 \<and> e = Exit (- 2)
    | Ret w' \<Rightarrow> 2 \<le> np \<and>
        (tr (p_of w') = 1 \<longleftrightarrow> i = 0) \<and> (rcv (p_of w') = 1 \<longleftrightarrow> i = np - 1) \<and>
        tr (p_of w') \<in> {0, 1} \<and> rcv (p_of w') \<in> {0, 1} \<and>
        (i = 0 \<longrightarrow> nbor (prot (p_of w')) = np - 1) \<and> (i = np - 1 \<longrightarrow> nbor (prot (p_of w')) = 0) \<and>
        (source_node (p_of w) = 0 \<longrightarrow> source_node (p_of w') = nbor (prot (p_of w'))) \<and>
        (source_node (p_of w) \<noteq> 0 \<longrightarrow> source_node (p_of w') = source_node (p_of w))
    | _ \<Rightarrow> False"
  using assms by (auto simp: mpi_Setup_def set_ends_def upd_mprot_def Let_def)

theorem mpi_Setup_roles_witness:
  "case fst (feed (mpi_Setup False bump (mpi_start 4 0)) [\<lparr>ret = 3, data = [], puts = []\<rparr>, \<lparr>ret = 4, data = [], puts = []\<rparr>, \<lparr>ret = 0, data = [], puts = []\<rparr>] []) of
     Ret w' \<Rightarrow> rcv (p_of w') = 1 \<and> nbor (prot (p_of w')) = 0 | _ \<Rightarrow> False"
  using mpi_Setup_roles [of "mpi_start 4 0" 3 4 bump "[]"]
  by (simp add: mpi_start_def set_ends_def upd_mprot_def Let_def new_Netpipe_def zero_args_def split: prog.splits)

text \<open>
  C10: The receive posted ahead.  \<open>PrepareToReceive\<close> posts one receive into the receive buffer and
  the next \<open>RecvData\<close> waits for exactly that request: the data lands in the posted buffer, no other
  receive is started, and afterwards nothing is outstanding.  A second \<open>PrepareToReceive\<close> before
  that ends the program with \<open>exit(-1)\<close> and makes no call.
\<close>

theorem mpi_posted_receive:
  assumes "recvPosted (glob w) = 0" and "valid (heap w) (r_ptr (p_of w)) (length bs)"
  shows "\<exists>w'. feed (andThen (mpi_PrepareToReceive w) mpi_RecvData) [\<lparr>ret = rq, data = [], puts = []\<rparr>, \<lparr>ret = 0, data = bs, puts = []\<rparr>] []
      = (Ret w', [MPI_Irecv (r_ptr (p_of w)) (nat (bufflen (p_of w))) (source_node (p_of w)) 1, MPI_Wait rq]) \<and>
    heap w' = store (heap w) (r_ptr (p_of w)) bs \<and> recvPosted (glob w') = 0 \<and> self w' = self w \<and>
    feed (andThen (mpi_PrepareToReceive w) mpi_PrepareToReceive) [\<lparr>ret = rq, data = [], puts = []\<rparr>] []
      = (Abort (Exit (- 1)), [MPI_Irecv (r_ptr (p_of w)) (nat (bufflen (p_of w))) (source_node (p_of w)) 1])"
  using assms by (simp add: mpi_PrepareToReceive_def mpi_RecvData_def)

theorem mpi_posted_receive_witness:
  "\<exists>w'. feed (andThen (mpi_PrepareToReceive (mpi_start 2 1)) mpi_RecvData) [\<lparr>ret = 7, data = [], puts = []\<rparr>, \<lparr>ret = 0, data = [], puts = []\<rparr>] []
      = (Ret w', [MPI_Irecv 0 0 0 1, MPI_Wait 7])"
  using mpi_posted_receive [of "mpi_start 2 1" "[]" 7]
  by (auto simp: mpi_start_def set_ends_def upd_mprot_def Let_def new_Netpipe_def zero_args_def)

end
