(* ===== verification/Mpi2.thy ===== *)
theory Mpi2
  imports Mpi
begin

text \<open>
  The one-sided MPI-2 module \<open>mpi2.c\<close>: the window on the receive buffer, puts and gets into it, and
  the fences that complete them.  A put is handed to the library by \<open>MPI_Put\<close> and becomes visible
  in the target's window with the next fence; without fences the receiver polls its buffer.
\<close>

section \<open>State\<close>

text \<open>
  The static \<open>win\<close>, with the library's record of it: base and size, the puts of the current epoch
  (target, offset and bytes) and the gets (where the bytes go and how many).
\<close>

record mpi2_glob =
  wbase :: addr
  wsize :: int
  wputs :: "(int \<times> message) list"
  wgets :: "(addr \<times> nat) list"

type_synonym mpi2_world = "(MpiProt, mpi2_glob) world"

definition upd_win :: "(mpi2_glob \<Rightarrow> mpi2_glob) \<Rightarrow> mpi2_world \<Rightarrow> mpi2_world" where
  "upd_win f w = w\<lparr>glob := f (glob w)\<rparr>"

lemma upd_win_simps [simp]:
  "self (upd_win f w) = self w" "heap (upd_win f w) = heap w" "out (upd_win f w) = out w"
  "glob (upd_win f w) = f (glob w)"
  by (simp_all add: upd_win_def)

text \<open>Puts of others land in the window; a put beyond its end is an error.\<close>

fun land :: "message list \<Rightarrow> mpi2_world \<Rightarrow> mpi2_world res" where
  "land [] w = Inr w"
| "land ((off, bs) # ms) w =
     (if 0 \<le> off \<and> off + int (length bs) \<le> wsize (glob w)
      then res_bind (put_bytes w (wbase (glob w) + nat off) bs) (land ms) else Inl BadAccess)"

text \<open>The bytes of the completed gets, one after the other.\<close>

fun fetch :: "(addr \<times> nat) list \<Rightarrow> byte list \<Rightarrow> mpi2_world \<Rightarrow> mpi2_world res" where
  "fetch [] bs w = Inr w"
| "fetch ((a, n) # gs) bs w = res_bind (put_bytes w a (take n bs)) (fetch gs (drop n bs))"

section \<open>The functions\<close>

definition mpi2_Init :: "mpi2_world \<Rightarrow> mpi2_world mpi_prog" where
  "mpi2_Init w =
     (let w = upd_mprot (\<lambda>q. q\<lparr>use_get := 0, no_fence := 0\<rparr>) w in Call MPI_Init (\<lambda>_. Ret w))"

definition mpi2_Setup :: "mpi2_world \<Rightarrow> mpi2_world mpi_prog" where
  "mpi2_Setup w =
     Call MPI_Comm_rank (\<lambda>r.
     let w = upd_mprot (\<lambda>q. q\<lparr>iproc := ret r\<rparr>) w in
     Call MPI_Comm_size (\<lambda>r.
     let np = ret r in
     if np < 2 then Abort (Exit (- 2))
     else Call Gethostname (\<lambda>r.
     let w = printf ''%d: %s'' [AInt (iproc (prot (p_of w))), AStr (base_name (chars (data r)))] w in
     Ret (set_ends np w))))"

definition mpi2_fence :: "mpi2_world \<Rightarrow> mpi2_world mpi_prog" where
  "mpi2_fence w =
     Call (MPI_Win_fence (wputs (glob w))) (\<lambda>r.
     andThen (lift (land (puts r) w)) (\<lambda>w.
     andThen (lift (fetch (wgets (glob w)) (data r) w)) (\<lambda>w.
     Ret (upd_win (\<lambda>g. g\<lparr>wputs := [], wgets := []\<rparr>) w))))"

definition mpi2_Sync :: "mpi2_world \<Rightarrow> mpi2_world mpi_prog" where
  "mpi2_Sync w = mpi2_fence w"

definition mpi2_SendData :: "mpi2_world \<Rightarrow> mpi2_world mpi_prog" where
  "mpi2_SendData w =
     (let n = nat (bufflen (p_of w));
          target = nbor (prot (p_of w));
          buf_offset = (if cache (p_of w) = 0 then int (s_ptr (p_of w)) - int (s_buff (p_of w)) else 0) in
      andThen
        (if use_get (prot (p_of w)) \<noteq> 0
         then Call (MPI_Get n target buf_offset) (\<lambda>_.
              Ret (upd_win (\<lambda>g. g\<lparr>wgets := wgets g @ [(s_ptr (p_of w), n)]\<rparr>) w))
         else andThen (lift (cload (heap w) (s_ptr (p_of w)) n)) (\<lambda>bs.
              Call (MPI_Put bs target buf_offset) (\<lambda>_.
              Ret (upd_win (\<lambda>g. g\<lparr>wputs := wputs g @ [(target, buf_offset, bs)]\<rparr>) w))))
        (\<lambda>w. if no_fence (prot (p_of w)) = 0 then mpi2_fence w else Ret w))"

text \<open>
  The polling loop: the byte it looks at is the last one of the receive buffer; puts may land
  while it yields.  The number of rounds is bounded by the first argument.
\<close>

definition last_byte :: "('p, 'g) world \<Rightarrow> byte res" where
  "last_byte w = res_bind (cload (heap w) (nat (int (r_ptr (p_of w)) + bufflen (p_of w) - 1)) 1) (\<lambda>bs. Inr (hd bs))"

primrec poll_loop :: "nat \<Rightarrow> byte \<Rightarrow> mpi2_world \<Rightarrow> mpi2_world mpi_prog" where
  "poll_loop 0 c w = Abort OutOfFuel"
| "poll_loop (Suc n) c w =
     andThen (lift (last_byte w)) (\<lambda>b.
     if b \<noteq> c then Call Sched_yield (\<lambda>r. andThen (lift (land (puts r) w)) (poll_loop n c)) else Ret w)"

definition mpi2_RecvData :: "nat \<Rightarrow> mpi2_world \<Rightarrow> mpi2_world mpi_prog" where
  "mpi2_RecvData fuel w =
     (if no_fence (prot (p_of w)) \<noteq> 0
      then andThen (poll_loop fuel (word_of_int (97 + (if cache (p_of w) \<noteq> 0 then 1 - tr (p_of w) else 1))) w) (\<lambda>w.
           lift (put_bytes w (nat (int (r_ptr (p_of w)) + bufflen (p_of w) - 1))
                   [word_of_int (97 + (if cache (p_of w) \<noteq> 0 then tr (p_of w) else 0))]))
      else mpi2_fence w)"

definition mpi2_SendTime :: "(real \<Rightarrow> byte list) \<Rightarrow> real \<Rightarrow> mpi2_world \<Rightarrow> mpi2_world mpi_prog" where
  "mpi2_SendTime enc t w = Call (MPI_Send (enc t) (nbor (prot (p_of w))) 2) (\<lambda>_. Ret w)"

definition mpi2_RecvTime :: "(byte list \<Rightarrow> real) \<Rightarrow> mpi2_world \<Rightarrow> (real \<times> mpi2_world) mpi_prog" where
  "mpi2_RecvTime dec w = Call (MPI_Recv 8 (nbor (prot (p_of w))) 2) (\<lambda>r. Ret (dec (data r), w))"

definition mpi2_SendRepeat :: "u32 \<Rightarrow> mpi2_world \<Rightarrow> mpi2_world mpi_prog" where
  "mpi2_SendRepeat rpt w = Call (MPI_Send (le_bytes rpt) (nbor (prot (p_of w))) 2) (\<lambda>_. Ret w)"

definition mpi2_RecvRepeat :: "mpi2_world \<Rightarrow> (u32 \<times> mpi2_world) mpi_prog" where
  "mpi2_RecvRepeat w = Call (MPI_Recv 4 (nbor (prot (p_of w))) 2) (\<lambda>r. Ret (le_word (data r), w))"

definition mpi2_CleanUp :: "('p, 'g) world \<Rightarrow> ('p, 'g) world mpi_prog" where
  "mpi2_CleanUp w = Call MPI_Finalize (\<lambda>_. Ret w)"

text \<open>The window as \<open>MPI_Win_create\<close> leaves it.\<close>

definition window :: "mpi2_world \<Rightarrow> mpi2_world" where
  "window w = upd_win (\<lambda>g. g\<lparr>wbase := r_buff (p_of w), wsize := bufflen (p_of w), wputs := [], wgets := []\<rparr>) w"

definition mpi2_AfterAlignmentInit :: "mpi2_world \<Rightarrow> mpi2_world mpi_prog" where
  "mpi2_AfterAlignmentInit w = Call (MPI_Win_create (r_buff (p_of w)) (bufflen (p_of w))) (\<lambda>_. Ret (window w))"

text \<open>\<open>PrepareToReceive\<close> and \<open>Reset\<close> do nothing.\<close>

definition mpi2_module :: "allocator \<Rightarrow> lfsr \<Rightarrow> nat \<Rightarrow> (mpi_ev, mpi_reply, MpiProt, mpi2_glob) comm_module" where
  "mpi2_module alloc L fuel =
     \<lparr>mInit = mpi2_Init, mSetup = mpi2_Setup, mSendRepeat = mpi2_SendRepeat, mRecvRepeat = mpi2_RecvRepeat,
      mMyMalloc = (\<lambda>len so ro w. lift (MyMalloc alloc len so ro w)),
      mInitBufferData = (\<lambda>n so ro w. lift (InitBufferData L n so ro w)),
      mAfterAlignmentInit = mpi2_AfterAlignmentInit, mPrepareToReceive = Ret, mSync = mpi2_Sync,
      mSendData = mpi2_SendData, mRecvData = mpi2_RecvData fuel,
      mCheckBufferData = (\<lambda>n so ro w. lift (CheckBufferData L n so ro w)),
      mFreeBuff = (\<lambda>b1 b2 w. lift (FreeBuff b1 b2 w))\<rparr>"

section \<open>The calls in terms of messages\<close>

text \<open>
  Fences and the creation of the window are collective; a fence contributes the puts to the
  other process.  Gets and the polling of an open epoch have no view: MPI leaves open when puts
  become visible there.
\<close>

fun mpi2_view :: "int \<Rightarrow> mpi_ev \<Rightarrow> mpi_reply mview" where
  "mpi2_view peer (MPI_Put bs d off) = (if d = peer then VLocal ok_reply else VNone)"
| "mpi2_view peer (MPI_Win_create a n) = VSync 1 [] (\<lambda>_. ok_reply)"
| "mpi2_view peer (MPI_Win_fence ps) =
     (if \<forall>p \<in> set ps. fst p = peer
      then VSync 2 (map snd ps) (\<lambda>ms. \<lparr>ret = 0, data = [], puts = ms\<rparr>) else VNone)"
| "mpi2_view peer e = mpi_view peer e"

text \<open>Puts with fences, and nothing left over from an earlier epoch.\<close>

fun mpi2_role :: "(MpiProt, mpi2_glob) cfg \<Rightarrow> bool" where
  "mpi2_role (fd, src, t, q, g) \<longleftrightarrow> use_get q = 0 \<and> no_fence q = 0 \<and> wputs g = [] \<and> wgets g = []"

definition mpi2_armed :: "mpi2_world \<Rightarrow> bool" where
  "mpi2_armed w \<longleftrightarrow> mpi2_role (cfg w) \<and> wbase (glob w) = r_buff (p_of w) \<and> wsize (glob w) = bufflen (p_of w)"

definition mpi2_round :: "lfsr \<Rightarrow> int \<Rightarrow> nat \<Rightarrow> mact list" where
  "mpi2_round L tx nb = (let m = (0, pattern L 98 nb) in
     if tx \<noteq> 0 then [MB 2 [m] [], MB 2 [] [m]] else [MB 2 [] [m], MB 2 [m] []])"

lemma fence_obeys:
  assumes "\<forall>p \<in> set (wputs (glob w)). fst p = peer" and "land ms w = Inr w'" and "wgets (glob w') = []"
    and "Q (upd_win (\<lambda>g. g\<lparr>wputs := [], wgets := []\<rparr>) w')"
  shows "obeys (msg_acc (mpi2_view peer)) Q (mpi2_fence w) [MB 2 (map snd (wputs (glob w))) ms]"
  unfolding mpi2_fence_def
  by (rule obeys_sync [where mk = "\<lambda>ms. \<lparr>ret = 0, data = [], puts = ms\<rparr>"]) (use assms in \<open>auto intro: obeys.ret\<close>)

lemma upd_win_same: "wputs (glob w) = [] \<Longrightarrow> wgets (glob w) = [] \<Longrightarrow> upd_win (\<lambda>g. g\<lparr>wputs := [], wgets := []\<rparr>) w = w"
  by (simp add: upd_win_def)

lemma upd_win_added: "wputs (glob w) = [] \<Longrightarrow> wgets (glob w) = [] \<Longrightarrow>
    upd_win (\<lambda>g. g\<lparr>wputs := [], wgets := []\<rparr>) (upd_win (\<lambda>g. g\<lparr>wputs := ps\<rparr>) w) = w"
  by (simp add: upd_win_def)

lemma mpi2_armedD:
  assumes "mpi2_armed w"
  shows "use_get (prot (p_of w)) = 0" "no_fence (prot (p_of w)) = 0" "wputs (glob w) = []" "wgets (glob w) = []"
    "wbase (glob w) = r_buff (p_of w)" "wsize (glob w) = bufflen (p_of w)"
  using assms by (auto simp: mpi2_armed_def cfg_def)

lemma mpi2_peer: "mpi_peer (cfg w) = nbor (prot (p_of w))"
  by (simp add: cfg_def)

lemma mpi2_Sync_obeys:
  assumes "mpi2_armed w"
  shows "obeys (msg_acc (mpi2_view (mpi_peer (cfg w)))) (\<lambda>w'. w' = w) (mpi2_Sync w) [MB 2 [] []]"
  using fence_obeys [of w _ "[]" w "\<lambda>w'. w' = w"] mpi2_armedD [OF assms]
  by (simp add: mpi2_Sync_def upd_win_same)

lemma mpi2_SendData_obeys:
  assumes a: "mpi2_armed w" and "ready L bl nb w"
  shows "obeys (msg_acc (mpi2_view (mpi_peer (cfg w)))) (\<lambda>w'. w' = w) (mpi2_SendData w) [MB 2 [(0, pattern L 98 nb)] []]"
proof -
  let ?w = "upd_win (\<lambda>g. g\<lparr>wputs := [(nbor (prot (p_of w)), 0, pattern L 98 nb)]\<rparr>) w"
  have n: "bufflen (p_of w) = int nb" "cache (p_of w) = 0" "s_ptr (p_of w) = s_buff (p_of w)"
    "load (heap w) (s_buff (p_of w)) nb = pattern L 98 nb" "valid (heap w) (s_buff (p_of w)) nb"
    using assms(2) ready_valid [OF assms(2)] by (simp_all add: ready_def Let_def)
  have "obeys (msg_acc (mpi2_view (nbor (prot (p_of w))))) (\<lambda>w'. w' = w) (mpi2_fence ?w) [MB 2 [(0, pattern L 98 nb)] []]"
    using fence_obeys [of ?w "nbor (prot (p_of w))" "[]" ?w "\<lambda>w'. w' = w"] mpi2_armedD [OF a]
    by (simp add: upd_win_added)
  then show ?thesis
    using n mpi2_armedD [OF a]
    by (auto simp: mpi2_SendData_def mpi2_peer Let_def upd_win_def intro!: obeys_local)
qed

lemma mpi2_RecvData_obeys:
  assumes a: "mpi2_armed w" and "ready L bl nb w"
  shows "obeys (msg_acc (mpi2_view (mpi_peer (cfg w)))) (\<lambda>w'. w' = received L nb w) (mpi2_RecvData fuel w)
    [MB 2 [] [(0, pattern L 98 nb)]]"
proof -
  have n: "bufflen (p_of w) = int nb" "valid (heap w) (r_buff (p_of w)) nb"
    using assms(2) ready_valid [OF assms(2)] by (simp_all add: ready_def Let_def)
  have "land [(0, pattern L 98 nb)] w = Inr (received L nb w)"
    using n mpi2_armedD [OF a] by (simp add: received_def)
  then show ?thesis
    using fence_obeys [of w "nbor (prot (p_of w))" "[(0, pattern L 98 nb)]" "received L nb w" "\<lambda>w'. w' = received L nb w"]
      mpi2_armedD [OF a]
    by (simp add: mpi2_RecvData_def mpi2_peer received_def upd_win_same)
qed

lemma mpi2_armed_received: "mpi2_armed w \<Longrightarrow> mpi2_armed (received L nb w)"
  by (simp add: mpi2_armed_def) (simp add: received_def)

lemma mpi2_round_obeys:
  assumes a: "mpi2_armed w" and r: "ready L bl nb w"
  shows "obeys (msg_acc (mpi2_view (mpi_peer (cfg w)))) (\<lambda>w'. w' = received L nb w)
    (if tr (p_of w) \<noteq> 0 then andThen (mpi2_SendData w) (mpi2_RecvData fuel)
     else andThen (mpi2_RecvData fuel w) mpi2_SendData) (mpi2_round L (tr (p_of w)) nb)"
proof (cases "tr (p_of w) = 0")
  case True
  have "obeys (msg_acc (mpi2_view (mpi_peer (cfg w)))) (\<lambda>w'. w' = received L nb w) (mpi2_SendData (received L nb w))
      [MB 2 [(0, pattern L 98 nb)] []]"
    using mpi2_SendData_obeys [OF mpi2_armed_received [OF a] ready_received [OF r]] by simp
  then show ?thesis
    using obeys_andThen [OF framed_msg_acc mpi2_RecvData_obeys [OF a r]] True by (simp add: mpi2_round_def Let_def)
next
  case False
  then show ?thesis
    using obeys_andThen [OF framed_msg_acc mpi2_SendData_obeys [OF a r], of _ "mpi2_RecvData fuel"]
      mpi2_RecvData_obeys [OF a r, of fuel]
    by (simp add: mpi2_round_def Let_def)
qed

lemma window_armed: "mpi2_role (cfg w) \<Longrightarrow> mpi2_armed (window w)"
  by (simp add: window_def mpi2_armed_def cfg_def)

lemma window_keeps:
  "self (window w) = self w" "heap (window w) = heap w" "out (window w) = out w"
  "mpi_peer (cfg (window w)) = mpi_peer (cfg w)"
  by (simp_all add: window_def cfg_def)

interpretation mpi2: exchange_module "mpi2_module alloc L fuel" alloc L "\<lambda>c. msg_acc (mpi2_view (mpi_peer c))" mpi2_role
    "\<lambda>n. [MS (2, le_bytes n)]" window "[MB 1 [] []]" mpi2_armed "[MB 2 [] []]" "mpi2_round L" "\<lambda>n. [MR (2, le_bytes n)]"
  for alloc L fuel
proof unfold_locales
  fix w :: mpi2_world and n
  show "obeys (msg_acc (mpi2_view (mpi_peer (cfg w)))) (\<lambda>w'. w' = w) (mSendRepeat (mpi2_module alloc L fuel) n w) [MS (2, le_bytes n)]"
    by (auto simp: mpi2_module_def mpi2_SendRepeat_def cfg_def intro!: obeys_send obeys.ret)
  show "obeys (msg_acc (mpi2_view (mpi_peer (cfg w)))) (\<lambda>x. x = (n, w)) (mRecvRepeat (mpi2_module alloc L fuel) w) [MR (2, le_bytes n)]"
    by (auto simp: mpi2_module_def mpi2_RecvRepeat_def cfg_def intro!: obeys_recv obeys.ret)
  show "obeys (msg_acc (mpi2_view (mpi_peer (cfg w)))) (\<lambda>w'. w' = window w) (mAfterAlignmentInit (mpi2_module alloc L fuel) w)
      [MB 1 [] []]"
    by (auto simp: mpi2_module_def mpi2_AfterAlignmentInit_def intro!: obeys_sync obeys.ret)
  show "obeys (msg_acc (mpi2_view (mpi_peer (cfg w)))) (\<lambda>w'. w' = received L nb w)
      (if tr (p_of w) \<noteq> 0
       then andThen (mSendData (mpi2_module alloc L fuel) w) (mRecvData (mpi2_module alloc L fuel))
       else andThen (mRecvData (mpi2_module alloc L fuel) w) (mSendData (mpi2_module alloc L fuel)))
      (mpi2_round L (tr (p_of w)) nb)"
    if "mpi2_armed w" and "ready L bl nb w" for bl nb
    using mpi2_round_obeys [OF that, of fuel] by (simp add: mpi2_module_def split: if_splits)
qed (simp_all add: mpi2_module_def framed_msg_acc mpi2_Sync_obeys mpi2_armed_received
      window_armed window_keeps)

interpretation mpi2_ends: exchange_ends "mpi2_module alloc1 L fuel1" "mpi2_module alloc2 L fuel2" alloc1 alloc2 L
    "\<lambda>c. mpi2_view (mpi_peer c)" mpi2_role
    "\<lambda>n. [MS (2, le_bytes n)]" window "[MB 1 [] []]" mpi2_armed "[MB 2 [] []]" "mpi2_round L" "\<lambda>n. [MR (2, le_bytes n)]"
  for alloc1 alloc2 L fuel1 fuel2
  by unfold_locales (simp_all add: mpi2_round_def Let_def)

section \<open>Correctness\<close>

text \<open>
  C24: The timed exchange over one-sided MPI with puts and fences.  Both ends run \<open>run_iters\<close>: every
  run ends, whatever the library buffers; both return the tuple for the transmitter's size and
  count, release their buffers and, if there was at least one round, find the pattern that was put
  into their window.
\<close>

theorem mpi2_run_iters_correct:
  fixes w1 w2 :: mpi2_world
  assumes "alloc_ok alloc1" "\<forall>h n. alloc1 h n \<noteq> NULL" "alloc_ok alloc2" "\<forall>h n. alloc2 h n \<noteq> NULL"
    and "cache (p_of w1) = 0" "mpi2_role (cfg w1)" "tr (p_of w1) \<noteq> 0"
    and "cache (p_of w2) = 0" "mpi2_role (cfg w2)" "tr (p_of w2) = 0" "rcv (p_of w2) \<noteq> 0"
    and "sz \<noteq> 0"
  shows "ends_in (mpair_step (mpi2_view (nbor (prot (p_of w1)))) (mpi2_view (nbor (prot (p_of w2)))) eager)
    (mboth_done (good_result sz nrepeat (hblocks (heap w1)) (out w1))
                (good_result sz nrepeat (hblocks (heap w2)) (out w2)))
    (mpair_init (netpipe_run_iters (mpi2_module alloc1 lfsr23 fuel1) fl1 (Some (sz, nrepeat)) w1)
                (netpipe_run_iters (mpi2_module alloc2 lfsr23 fuel2) fl2 None w2))"
proof -
  have p: "\<forall>w. mPrepareToReceive (mpi2_module alloc L fuel) w = Ret w" for alloc L fuel
    by (simp add: mpi2_module_def)
  show ?thesis
    using mpi2_ends.run_iters_pair [OF assms(1-6) disjI2 [OF p] assms(7-9) disjI2 [OF p] assms(10-12)]
    by (simp add: mpi2_peer)
qed

definition mpi2_start :: "int \<Rightarrow> int \<Rightarrow> mpi2_world" where
  "mpi2_start np i = \<lparr>self = \<lparr>args = (zero_args \<lparr>nbor = np - 1 - i, iproc = i, nprocs = np, use_get = 0, no_fence = 0\<rparr>)
       \<lparr>tr := (if i = 0 then 1 else 0), rcv := (if i = 0 then 0 else 1)\<rparr>,
     outname = [], len_buf_align = 0, asyncReceive = 0, bufalign = 0, streamopt = 0, integCheck = 0\<rparr>,
     heap = \<lparr>hbytes = (\<lambda>_. 0), hblocks = []\<rparr>, lfsr_data = 0, fcflag = 0,
     glob = \<lparr>wbase = 0, wsize = 0, wputs = [], wgets = []\<rparr>, out = []\<rparr>"

theorem mpi2_run_iters_correct_witness:
  "ends_in (mpair_step (mpi2_view 1) (mpi2_view 0) (\<lambda>_. False))
    (mboth_done (good_result 100 3 [] []) (good_result 100 3 [] []))
    (mpair_init (netpipe_run_iters (mpi2_module bump lfsr23 1) id (Some (100, 3)) (mpi2_start 2 0))
                (netpipe_run_iters (mpi2_module bump lfsr23 1) id None (mpi2_start 2 1)))"
  using mpi2_run_iters_correct [of bump bump "mpi2_start 2 0" "mpi2_start 2 1" 100 "\<lambda>_. False" 3 1 id 1 id] bump_ok
  by (simp add: mpi2_start_def zero_args_def cfg_def)

end
