(* ===== verification/Mpi_Atoa.thy ===== *)
theory Mpi_Atoa
  imports Mpi
begin

text \<open>
  The collective module \<open>mpi_atoa.c\<close>: every rank sends a block to every rank with
  \<open>MPI_Alltoall\<close>.  The module brings its own buffer routines; the build it belongs to
  (\<open>COLLECTIVES\<close>) leaves those of \<open>netpipe.c\<close> out, \<open>CheckBufferData\<close> included.
\<close>

section \<open>The functions\<close>

type_synonym atoa_world = "(MpiProt, unit) world"

definition MAXPROCS :: int where "MAXPROCS = 2048"

definition atoa_Init :: "atoa_world \<Rightarrow> atoa_world mpi_prog" where
  "atoa_Init w =
     Call MPI_Init (\<lambda>_.
     Call MPI_Comm_rank (\<lambda>r.
     let w = upd_mprot (\<lambda>q. q\<lparr>iproc := ret r\<rparr>) w in
     Call MPI_Comm_size (\<lambda>r.
     let w = upd_mprot (\<lambda>q. q\<lparr>nprocs := ret r\<rparr>) w;
         w = upd_args (\<lambda>p. p\<lparr>source_node := 0\<rparr>) w;
         w = (if iproc (prot (p_of w)) = 0 then upd_args (\<lambda>p. p\<lparr>tr := 1, rcv := 0\<rparr>) w
              else upd_args (\<lambda>p. p\<lparr>tr := 0, rcv := 1\<rparr>) w) in
     if iproc (prot (p_of w)) = 0 \<or> iproc (prot (p_of w)) = nprocs (prot (p_of w)) - 1
     then if nprocs (prot (p_of w)) < 2 then Abort (Exit (- 1))
          else if nprocs (prot (p_of w)) > MAXPROCS then Abort (Exit (- 2))
          else Ret w
     else Ret w)))"

definition atoa_Sync :: "('p, 'g) world \<Rightarrow> ('p, 'g) world mpi_prog" where
  "atoa_Sync w = Call MPI_Barrier (\<lambda>_. Ret w)"

text \<open>
  \<open>MPI_Alltoall\<close> reads a block for every rank from the send buffer and fills the receive buffer
  with a block from every rank.
\<close>

definition atoa_SendData :: "atoa_world \<Rightarrow> atoa_world mpi_prog" where
  "atoa_SendData w =
     (let nb = nat (bufflen (p_of w)) in
      andThen (lift (cload (heap w) (s_ptr (p_of w)) (nat (nprocs (prot (p_of w))) * nb))) (\<lambda>bs.
      Call (MPI_Alltoall bs nb) (\<lambda>r. lift (put_bytes w (r_ptr (p_of w)) (data r)))))"

definition atoa_RecvData :: "atoa_world \<Rightarrow> atoa_world mpi_prog" where
  "atoa_RecvData w =
     (let nb = nat (bufflen (p_of w)) in
      andThen (lift (cload (heap w) (s_ptr (p_of w)) (nat (nprocs (prot (p_of w))) * nb))) (\<lambda>bs.
      Call (MPI_Alltoall bs nb) (\<lambda>r. lift (put_bytes w (r_ptr (p_of w)) (data r)))))"

text \<open>On the root, \<open>MPI_Bcast\<close> leaves the value as it is; on the others its reply is the root's.\<close>

definition atoa_SendRepeat :: "u32 \<Rightarrow> atoa_world \<Rightarrow> atoa_world mpi_prog" where
  "atoa_SendRepeat n w = Call (MPI_Bcast (le_bytes n) (source_node (p_of w))) (\<lambda>_. Ret w)"

text \<open>\<open>old\<close> is what the caller's variable held before.\<close>

definition atoa_RecvRepeat :: "u32 \<Rightarrow> atoa_world \<Rightarrow> (u32 \<times> atoa_world) mpi_prog" where
  "atoa_RecvRepeat old w = Call (MPI_Bcast (le_bytes old) (source_node (p_of w))) (\<lambda>r. Ret (le_word (data r), w))"

definition atoa_CleanUp :: "('p, 'g) world \<Rightarrow> ('p, 'g) world mpi_prog" where
  "atoa_CleanUp w = Call MPI_Finalize (\<lambda>_. Ret w)"

definition memset :: "addr \<Rightarrow> byte \<Rightarrow> nat \<Rightarrow> ('p, 'g) world \<Rightarrow> ('p, 'g) world res" where
  "memset a c n w = put_bytes w a (replicate n c)"

definition atoa_InitBufferData :: "int \<Rightarrow> int \<Rightarrow> int \<Rightarrow> atoa_world \<Rightarrow> atoa_world res" where
  "atoa_InitBufferData nbytes soff roff w =
     (let soff = 0; roff = 0; np = nprocs (prot (p_of w)) in
      res_bind (cmul nbytes np) (\<lambda>nbytes1.
      res_bind (memset (r_buff (p_of w)) 97 (unat (size_t (nbytes1 + CMAX soff roff))) w) (\<lambda>w.
      if cache (p_of w) \<noteq> 0
      then res_bind
             (if tr (p_of w) \<noteq> 0
              then for_up (nat np) 0 (\<lambda>i w. res_bind (cmul nbytes (int i + 1)) (\<lambda>k.
                     put_bytes w (nat (int (r_buff (p_of w)) + (k + CMAX soff roff - 1))) [98])) w
              else Inr w) (\<lambda>w.
           if rcv (p_of w) \<noteq> 0
           then put_bytes w (nat (int (r_buff (p_of w)) + (nbytes + CMAX soff roff - 1))) [98]
           else Inr w)
      else memset (s_buff (p_of w)) 98 (unat (size_t (nbytes + soff))) w)))"

definition atoa_MyMalloc :: "allocator \<Rightarrow> int \<Rightarrow> int \<Rightarrow> int \<Rightarrow> atoa_world \<Rightarrow> atoa_world res" where
  "atoa_MyMalloc alloc len soff roff w =
     (let soff = 0; roff = 0; np = nprocs (prot (p_of w)) in
      res_bind (cmul len np) (\<lambda>bufflen1.
      case malloc alloc (heap w) (unat (size_t (bufflen1 + CMAX soff roff))) of (p, h) \<Rightarrow>
      if p = NULL then Inl (Exit (- 2))
      else let w = upd_args (\<lambda>a. a\<lparr>r_buff := p\<rparr>) (upd_heap h w) in
           if cache (p_of w) = 0
           then (case malloc alloc (heap w) (unat (size_t (bufflen1 + soff))) of (q, h) \<Rightarrow>
                 if q = NULL then Inl (Exit (- 2))
                 else Inr (upd_args (\<lambda>a. a\<lparr>s_buff := q\<rparr>) (upd_heap h w)))
           else Inr w))"

definition atoa_FreeBuff :: "addr \<Rightarrow> addr \<Rightarrow> atoa_world \<Rightarrow> atoa_world res" where
  "atoa_FreeBuff buff1 buff2 w =
     res_bind (if buff1 \<noteq> NULL then free (heap w) buff1 else Inr (heap w)) (\<lambda>h.
     res_bind (if buff2 \<noteq> NULL then free h buff2 else Inr h) (\<lambda>h.
     Inr (upd_heap h w)))"

section \<open>The collective\<close>

text \<open>
  What \<open>MPI_Alltoall\<close> gives rank \<open>i\<close> when rank \<open>j\<close> contributes \<open>ss j\<close>: block \<open>i\<close> of every
  contribution, in the order of the ranks.
\<close>

definition block :: "nat \<Rightarrow> nat \<Rightarrow> byte list \<Rightarrow> byte list" where
  "block nb i bs = take nb (drop (i * nb) bs)"

definition alltoall :: "nat \<Rightarrow> nat \<Rightarrow> (nat \<Rightarrow> byte list) \<Rightarrow> nat \<Rightarrow> byte list" where
  "alltoall n nb ss i = concat (map (\<lambda>j. block nb i (ss j)) [0..<n])"

text \<open>The send buffer of a rank, and a step in which all ranks have made the call.\<close>

definition contribution :: "atoa_world \<Rightarrow> byte list" where
  "contribution w = load (heap w) (s_ptr (p_of w)) (nat (nprocs (prot (p_of w))) * nat (bufflen (p_of w)))"

definition prepare :: "allocator \<Rightarrow> int \<Rightarrow> atoa_world \<Rightarrow> atoa_world res" where
  "prepare alloc nb w =
     res_bind (atoa_MyMalloc alloc nb 0 0 (upd_args (\<lambda>a. a\<lparr>bufflen := nb\<rparr>) w)) (\<lambda>w.
     atoa_InitBufferData nb 0 0 (set_ptrs w))"

lemma cmul_ok: "0 \<le> a * b \<Longrightarrow> a * b < 2 ^ 31 \<Longrightarrow> cmul a b = Inr (a * b)"
  by (simp add: cmul_def)

lemma cmul_nat: "n * nb < 2 ^ 31 \<Longrightarrow> cmul (int nb) (int n) = Inr (int (n * nb))"
  using cmul_ok [of "int nb" "int n"] by (simp add: mult.commute flip: of_nat_mult)

lemma atoa_MyMalloc_eq:
  "cmul len (nprocs (prot (p_of w))) = Inr k \<Longrightarrow> MyMalloc alloc k 0 0 w = Inr w' \<Longrightarrow> atoa_MyMalloc alloc len so ro w = Inr w'"
  by (auto simp: MyMalloc_def atoa_MyMalloc_def Let_def split: prod.splits if_splits)

lemma memset_ok: "valid (heap w) a n \<Longrightarrow> memset a c n w = Inr (upd_heap (store (heap w) a (replicate n c)) w)"
  by (simp add: memset_def)

text \<open>The buffers of a rank before the first exchange.\<close>

definition atoa_ready :: "atoa_world \<Rightarrow> nat \<Rightarrow> nat \<Rightarrow> atoa_world \<Rightarrow> bool" where
  "atoa_ready w n nb v \<longleftrightarrow>
     (let p = r_buff (p_of v); q = s_buff (p_of v) in
      r_ptr (p_of v) = p \<and> s_ptr (p_of v) = q \<and> bufflen (p_of v) = int nb \<and> nprocs (prot (p_of v)) = int n \<and>
      hblocks (heap v) = (q, n * nb) # (p, n * nb) # hblocks (heap w) \<and>
      heap v = store (store (two_blocks (heap w) p q (n * nb)) p (replicate (n * nb) 97)) q (replicate nb 98) \<and>
      disjoint_ranges p (n * nb) q (n * nb))"

lemma atoa_InitBufferData_ok:
  assumes "cache (p_of w) = 0" and "nprocs (prot (p_of w)) = int n" and N: "n * nb < 2 ^ 31"
    and "valid (heap w) (r_buff (p_of w)) (n * nb)" and "valid (heap w) (s_buff (p_of w)) nb" and "nb < 2 ^ 31"
  shows "atoa_InitBufferData (int nb) 0 0 w = Inr (upd_heap
    (store (store (heap w) (r_buff (p_of w)) (replicate (n * nb) 97)) (s_buff (p_of w)) (replicate nb 98)) w)"
  using assms cmul_nat [OF N] by (simp add: atoa_InitBufferData_def memset_ok Let_def del: of_nat_mult)

lemma prepare_ready:
  assumes "alloc_ok alloc" and "\<forall>h n. alloc h n \<noteq> NULL" and "cache (p_of w) = 0"
    and "nprocs (prot (p_of w)) = int n" and n: "0 < n" "n * nb < 2 ^ 31"
  shows "\<exists>v. prepare alloc (int nb) w = Inr v \<and> atoa_ready w n nb v"
proof -
  let ?w = "upd_args (\<lambda>a. a\<lparr>bufflen := int nb\<rparr>) w" and ?N = "n * nb"
  have N: "int nb * int n = int ?N" "int ?N < 2 ^ 31" "int ?N < 2 ^ 63" using n by (simp_all flip: of_nat_mult)
  have nb: "nb < 2 ^ 31" using n by (metis mult_le_mono1 Suc_leI le_less_trans nat_mult_1 One_nat_def)
  have mul: "cmul (int nb) (int n) = Inr (int ?N)" by (rule cmul_nat [OF n(2)])
  obtain p q where M: "MyMalloc alloc (int ?N) 0 0 ?w =
      Inr (upd_args (\<lambda>a. a\<lparr>r_buff := p, s_buff := q\<rparr>) (upd_heap (two_blocks (heap w) p q ?N) ?w))"
    and d: "disjoint_ranges p ?N q ?N"
  proof (rule MyMalloc_nocache [OF assms(1), of ?w "int ?N"])
    assume "MyMalloc alloc (int ?N) 0 0 ?w = Inl (Exit (- 1))"
    then show thesis using MyMalloc_never_exits [OF assms(2)] by metis
  qed (use assms(3) N(3) in \<open>simp_all del: of_nat_mult\<close>)
  let ?v = "set_ptrs (upd_args (\<lambda>a. a\<lparr>r_buff := p, s_buff := q\<rparr>) (upd_heap (two_blocks (heap w) p q ?N) ?w))"
  have b: "valid (two_blocks (heap w) p q ?N) p ?N" "valid (two_blocks (heap w) p q ?N) q ?N"
    by (auto simp: two_blocks_def intro!: valid_block)
  have v: "valid (two_blocks (heap w) p q ?N) q nb" using b(2) by (rule valid_sub0) (use n in simp)
  have "prepare alloc (int nb) w = atoa_InitBufferData (int nb) 0 0 ?v"
    using atoa_MyMalloc_eq [OF _ M, of "int nb" 0 0] mul assms(4) by (simp add: prepare_def)
  moreover have "atoa_InitBufferData (int nb) 0 0 ?v = Inr (upd_heap
      (store (store (two_blocks (heap w) p q ?N) p (replicate ?N 97)) q (replicate nb 98)) ?v)"
    using atoa_InitBufferData_ok [of ?v n nb] b v n assms(3,4) nb
    by (simp add: set_ptrs_def Let_def)
  ultimately show ?thesis
    using d assms(3,4) by (simp add: atoa_ready_def set_ptrs_def Let_def two_blocks_def)
qed

text \<open>What a rank contributes: the blocks for rank 0 are initialised, the others are not.\<close>

lemma contribution_blocks:
  assumes r: "atoa_ready w n nb v" and "i < n"
  shows "length (contribution v) = n * nb"
    and "block nb i (contribution v)
      = (if i = 0 then replicate nb 98 else load (heap w) (s_buff (p_of v) + i * nb) nb)"
proof -
  let ?q = "s_buff (p_of v)" and ?p = "r_buff (p_of v)"
  have c: "contribution v = load (heap v) ?q (n * nb)" using r by (simp add: contribution_def atoa_ready_def Let_def)
  then show "length (contribution v) = n * nb" by simp
  have i: "i * nb + nb \<le> n * nb" using mult_le_mono1 [of "Suc i" n nb] assms(2) by simp
  then have b: "block nb i (contribution v) = load (heap v) (?q + i * nb) nb"
    by (simp add: block_def c load_sub)
  have h: "heap v = store (store (two_blocks (heap w) ?p ?q (n * nb)) ?p (replicate (n * nb) 97)) ?q (replicate nb 98)"
    and d: "disjoint_ranges ?p (n * nb) ?q (n * nb)"
    using r by (simp_all add: atoa_ready_def Let_def)
  show "block nb i (contribution v) = (if i = 0 then replicate nb 98 else load (heap w) (?q + i * nb) nb)"
  proof (cases "i = 0")
    case True
    then show ?thesis unfolding b h using load_store_same [of _ ?q "replicate nb 98"] by simp
  next
    case False
    then have "nb \<le> i * nb" by simp
    then have "disjoint_ranges ?q nb (?q + i * nb) nb" by (simp add: disjoint_ranges_def)
    moreover have "disjoint_ranges ?p (n * nb) (?q + i * nb) nb" using d i by (auto simp: disjoint_ranges_def)
    moreover have "load (two_blocks (heap w) ?p ?q (n * nb)) a k = load (heap w) a k" for a k
      by (simp add: load_def two_blocks_def)
    ultimately show ?thesis unfolding b h using False by (simp add: load_store_disjoint)
  qed
qed

lemma length_alltoall:
  "(\<And>j. j < n \<Longrightarrow> length (ss j) = n * nb) \<Longrightarrow> i < n \<Longrightarrow> length (alltoall n nb ss i) = n * nb"
proof -
  assume l: "\<And>j. j < n \<Longrightarrow> length (ss j) = n * nb" and "i < n"
  then have "i * nb + nb \<le> n * nb" using mult_le_mono1 [of "Suc i" n nb] by simp
  then have "map (\<lambda>j. length (block nb i (ss j))) [0..<n] = replicate n nb"
    using l by (auto simp: block_def list_eq_iff_nth_eq)
  then show ?thesis by (simp add: alltoall_def length_concat comp_def sum_list_replicate)
qed

lemma take_drop_concat:
  "(\<And>x. x \<in> set xs \<Longrightarrow> length (f x) = k) \<Longrightarrow> j < length xs \<Longrightarrow> take k (drop (j * k) (concat (map f xs))) = f (xs ! j)"
proof (induction xs arbitrary: j)
  case (Cons x xs)
  then show ?case by (cases j) simp_all
qed simp

lemma SendData_alltoall:
  assumes r: "atoa_ready w n nb v" and "length bs = n * nb"
  shows "feed (atoa_SendData v) [\<lparr>ret = 0, data = bs, puts = []\<rparr>] []
      = (Ret (upd_heap (store (heap v) (r_buff (p_of v)) bs) v), [MPI_Alltoall (contribution v) nb])"
proof -
  have "valid (heap v) (s_buff (p_of v)) (n * nb)" "valid (heap v) (r_buff (p_of v)) (n * nb)"
    using r by (auto simp: atoa_ready_def Let_def intro!: valid_block)
  then show ?thesis
    using r assms(2) by (simp add: atoa_ready_def Let_def atoa_SendData_def contribution_def)
qed

section \<open>Correctness\<close>

text \<open>
  C25: The all-to-all exchange among \<open>n\<close> ranks without cache mode, after \<open>MyMalloc\<close> and
  \<open>InitBufferData\<close> on every rank.  The preparation succeeds, every rank makes one
  \<open>MPI_Alltoall\<close>, and afterwards block \<open>j\<close> of the receive buffer of rank \<open>i\<close> is block \<open>i\<close> of the send
  buffer of rank \<open>j\<close>.  Rank 0 receives only the \<open>'b'\<close> bytes of \<open>InitBufferData\<close>; every other rank
  receives the bytes that the allocator happened to leave in the send buffers, since only their
  first block is initialised.
\<close>

theorem atoa_exchange:
  assumes "\<And>i. i < n \<Longrightarrow> alloc_ok (alloc i) \<and> (\<forall>h k. alloc i h k \<noteq> NULL)"
    and "\<And>i. i < n \<Longrightarrow> cache (p_of (w i)) = 0 \<and> nprocs (prot (p_of (w i))) = int n"
    and "n * nb < 2 ^ 31"
  shows "\<exists>v. (\<forall>i<n. prepare (alloc i) (int nb) (w i) = Inr (v i)) \<and>
    (\<forall>i<n. \<exists>x. feed (atoa_SendData (v i))
           [\<lparr>ret = 0, data = alltoall n nb (\<lambda>j. contribution (v j)) i, puts = []\<rparr>] []
         = (Ret x, [MPI_Alltoall (contribution (v i)) nb]) \<and>
       (\<forall>j<n. load (heap x) (r_buff (p_of x) + j * nb) nb = block nb i (contribution (v j)) \<and>
          block nb i (contribution (v j)) =
            (if i = 0 then replicate nb 98 else load (heap (w j)) (s_buff (p_of (v j)) + i * nb) nb)))"
proof -
  have "\<forall>i. \<exists>v. i < n \<longrightarrow> prepare (alloc i) (int nb) (w i) = Inr v \<and> atoa_ready (w i) n nb v"
    using prepare_ready assms by (metis gr_zeroI not_less_zero)
  then obtain v where v: "\<And>i. i < n \<Longrightarrow> prepare (alloc i) (int nb) (w i) = Inr (v i)"
    "\<And>i. i < n \<Longrightarrow> atoa_ready (w i) n nb (v i)" by metis
  let ?ss = "\<lambda>j. contribution (v j)"
  have "\<exists>x. feed (atoa_SendData (v i)) [\<lparr>ret = 0, data = alltoall n nb ?ss i, puts = []\<rparr>] []
         = (Ret x, [MPI_Alltoall (?ss i) nb]) \<and>
       (\<forall>j<n. load (heap x) (r_buff (p_of x) + j * nb) nb = block nb i (?ss j) \<and>
          block nb i (?ss j) =
            (if i = 0 then replicate nb 98 else load (heap (w j)) (s_buff (p_of (v j)) + i * nb) nb))"
    if i: "i < n" for i
  proof -
    let ?bs = "alltoall n nb ?ss i" and ?r = "r_buff (p_of (v i))"
    let ?x = "upd_heap (store (heap (v i)) ?r ?bs) (v i)"
    have len: "length ?bs = n * nb" by (rule length_alltoall [OF contribution_blocks(1) [OF v(2) i] i])
    have blk: "load (heap ?x) (?r + j * nb) nb = block nb i (?ss j)" if j: "j < n" for j
    proof -
      have "j * nb + nb \<le> n * nb" using mult_le_mono1 [of "Suc j" n nb] j by simp
      then have "load (heap ?x) (?r + j * nb) nb = take nb (drop (j * nb) (load (heap ?x) ?r (n * nb)))"
        by (simp add: load_sub)
      also have "load (heap ?x) ?r (n * nb) = ?bs" using load_store_same [of "heap (v i)" ?r ?bs] len by simp
      also have "take nb (drop (j * nb) ?bs) = block nb i (?ss j)"
        using take_drop_concat [of "[0..<n]" "\<lambda>j. block nb i (?ss j)" nb j] j contribution_blocks(2) [OF v(2) i]
        by (simp add: alltoall_def)
      finally show ?thesis .
    qed
    show ?thesis
      using SendData_alltoall [OF v(2) [OF i] len] blk contribution_blocks(2) [OF v(2) i]
      by (intro exI [of _ ?x]) simp
  qed
  with v(1) show ?thesis by blast
qed

definition atoa_start :: "int \<Rightarrow> int \<Rightarrow> atoa_world" where
  "atoa_start np i = \<lparr>self = \<lparr>args = zero_args \<lparr>nbor = 0, iproc = i, nprocs = np, use_get = 0, no_fence = 0\<rparr>,
     outname = [], len_buf_align = 0, asyncReceive = 0, bufalign = 0, streamopt = 0, integCheck = 0\<rparr>,
     heap = \<lparr>hbytes = (\<lambda>_. 0), hblocks = []\<rparr>, lfsr_data = 0, fcflag = 0, glob = (), out = []\<rparr>"

theorem atoa_exchange_witness:
  "\<exists>v. (\<forall>i<3. prepare bump (int 4) (atoa_start 3 (int i)) = Inr (v i)) \<and>
    (\<forall>i<3. \<exists>x. feed (atoa_SendData (v i))
           [\<lparr>ret = 0, data = alltoall 3 4 (\<lambda>j. contribution (v j)) i, puts = []\<rparr>] []
         = (Ret x, [MPI_Alltoall (contribution (v i)) 4]) \<and>
       (\<forall>j<3. load (heap x) (r_buff (p_of x) + j * 4) 4 = block 4 i (contribution (v j)) \<and>
          block 4 i (contribution (v j)) =
            (if i = 0 then replicate 4 98 else load (heap (atoa_start 3 (int j))) (s_buff (p_of (v j)) + i * 4) 4)))"
  by (rule atoa_exchange [of 3 "\<lambda>_. bump" "\<lambda>i. atoa_start 3 (int i)" 4])
    (simp_all add: bump_ok atoa_start_def zero_args_def del: neq0_conv)

text \<open>
  C26: The size of the buffers is computed in \<open>int\<close>: \<open>MyMalloc\<close> goes into signed overflow exactly
  when the message size times the number of ranks reaches \<open>2 ^ 31\<close>.  \<open>Init\<close> on the first rank lets
  every number of ranks from 2 to 2048 pass, and \<open>run_iters\<close> every message size up to \<open>2 ^ 29\<close>
  bytes, so such runs are not refused.
\<close>

theorem atoa_size_overflow:
  assumes "2 \<le> np" and "np \<le> 2048"
  shows "\<exists>v. fst (feed (atoa_Init w) [ok_reply, ok_reply, ok_reply\<lparr>ret := np\<rparr>] []) = Ret v \<and> tr (p_of v) = 1 \<and>
     (atoa_MyMalloc alloc (sint (size_bytes sz)) so ro v = Inl Overflow \<longleftrightarrow> 2 ^ 31 \<le> int ((unat sz + 7) div 8) * np)"
proof -
  let ?v = "upd_args (\<lambda>p. p\<lparr>tr := 1, rcv := 0\<rparr>) (upd_args (\<lambda>p. p\<lparr>source_node := 0\<rparr>)
     (upd_mprot (\<lambda>q. q\<lparr>nprocs := np\<rparr>) (upd_mprot (\<lambda>q. q\<lparr>iproc := 0\<rparr>) w)))"
  let ?n = "int ((unat sz + 7) div 8)"
  have "fst (feed (atoa_Init w) [ok_reply, ok_reply, ok_reply\<lparr>ret := np\<rparr>] []) = Ret ?v"
    using assms by (simp add: atoa_Init_def ok_reply_def Let_def MAXPROCS_def upd_mprot_def upd_args_def)
  moreover have "nprocs (prot (p_of ?v)) = np" by (simp add: upd_mprot_def)
  moreover have "- 2147483648 \<le> ?n * np"
    by (rule order.trans [of _ 0]) (use assms in simp_all)
  ultimately show ?thesis
    by (intro exI [of _ ?v])
      (auto simp: atoa_MyMalloc_def cmul_def Let_def sint_size_bytes unat_size_bytes res_bind_def
        split: prod.splits if_splits)
qed

theorem atoa_size_overflow_witness:
  "\<exists>v. fst (feed (atoa_Init (atoa_start 0 0)) [ok_reply, ok_reply, ok_reply\<lparr>ret := 2048\<rparr>] []) = Ret v \<and>
     atoa_MyMalloc bump (sint (size_bytes (2 ^ 23))) 0 0 v = Inl Overflow"
proof -
  have "unat (2 ^ 23 :: u32) = 2 ^ 23" by simp
  then show ?thesis
    using atoa_size_overflow [of 2048 "atoa_start 0 0" bump "2 ^ 23" 0 0] by auto
qed

end
