(* ===== verification/Pvm.thy ===== *)
theory Pvm
  imports Message_Run
begin

text \<open>
  The PVM module \<open>pvm.c\<close>.  PVM packs a message into its active send buffer and unpacks one from
  its active receive buffer; every send of the module starts with \<open>pvm_initsend\<close> and every unpack
  follows a \<open>pvm_recv\<close>, so the buffers are values that live inside one function.
\<close>

section \<open>Calls and state\<close>

datatype pvm_ev =
    Pvm_mytid
  | Pvm_tasks int
  | Pvm_setopt
  | Pvm_send int int "byte list"
  | Pvm_recv int int

text \<open>
  The reply: the result of the call, the task ids of a task list, and the contents of the message
  that became the active receive buffer.
\<close>

record pvm_reply =
  pret :: int
  tids :: "int list"
  rbuf :: "byte list"

record PvmProt =
  mytid :: int
  othertid :: int

type_synonym 'a pvm_prog = "(pvm_ev, pvm_reply, 'a) prog"

text \<open>The active send buffer, cleared by \<open>pvm_initsend\<close> and appended to by the pack functions.\<close>

definition pvm_initsend :: "byte list" where
  "pvm_initsend = []"

definition pvm_pk :: "byte list \<Rightarrow> byte list \<Rightarrow> byte list" where
  "pvm_pk bs sbuf = sbuf @ bs"

text \<open>Unpacking \<open>n\<close> bytes fails, and leaves the caller's object alone, when there are fewer.\<close>

definition pvm_upk :: "nat \<Rightarrow> byte list \<Rightarrow> byte list option" where
  "pvm_upk n bs = (if n \<le> length bs then Some (take n bs) else None)"

definition upd_pprot :: "(PvmProt \<Rightarrow> PvmProt) \<Rightarrow> (PvmProt, 'g) world \<Rightarrow> (PvmProt, 'g) world" where
  "upd_pprot f = upd_args (\<lambda>a. a\<lparr>prot := f (prot a)\<rparr>)"

lemma p_of_upd_pprot [simp]: "p_of (upd_pprot f w) = (p_of w)\<lparr>prot := f (prot (p_of w))\<rparr>"
  by (simp add: upd_pprot_def)

section \<open>The functions\<close>

definition pvm_Init :: "('p, 'g) world \<Rightarrow> ('p, 'g) world" where
  "pvm_Init w = upd_args (\<lambda>p. p\<lparr>tr := 0, rcv := 1\<rparr>) w"

text \<open>The tid among two tasks that is not ours, -1 when neither is ours; the second test wins.\<close>

definition other_tid :: "int \<Rightarrow> int \<Rightarrow> int \<Rightarrow> int" where
  "other_tid me t0 t1 =
     (let ot = - 1;
          ot = (if t0 = me then t1 else ot)
      in if t1 = me then t0 else ot)"

definition pvm_establish :: "(PvmProt, 'g) world \<Rightarrow> (PvmProt, 'g) world pvm_prog" where
  "pvm_establish w =
     (if tr (p_of w) \<noteq> 0 then
        Call (Pvm_tasks 0) (\<lambda>r.
        if length (tids r) \<noteq> 2 then Abort (Exit (- 1))
        else
        let ot = other_tid (mytid (prot (p_of w))) (tids r ! 0) (tids r ! 1);
            w = upd_pprot (\<lambda>q. q\<lparr>othertid := ot\<rparr>) w;
            w = (if ot = - 1
                 then printf ''Id's:  %d %d  '' [AInt (tids r ! 0), AInt (tids r ! 1)]
                        (printf ''Error, cannot find other (receiving) task '' [] w)
                 else w) in
        Call Pvm_setopt (\<lambda>_.
        let sbuf = pvm_pk (le_bytes (word_of_int (mytid (prot (p_of w))))) pvm_initsend in
        Call (Pvm_send (othertid (prot (p_of w))) 1 sbuf) (\<lambda>_. Ret w)))
      else
        Call (Pvm_recv (- 1) (- 1)) (\<lambda>r.
        if pret r < 0 then Abort (Exit (- 1))
        else Ret (case pvm_upk 4 (rbuf r) of None \<Rightarrow> w
                  | Some bs \<Rightarrow> upd_pprot (\<lambda>q. q\<lparr>othertid := sint (le_word bs)\<rparr>) w)))"

definition pvm_Setup :: "(PvmProt, 'g) world \<Rightarrow> (PvmProt, 'g) world pvm_prog" where
  "pvm_Setup w = Call Pvm_mytid (\<lambda>r. pvm_establish (upd_pprot (\<lambda>q. q\<lparr>mytid := pret r\<rparr>) w))"

definition pvm_SendData :: "(PvmProt, 'g) world \<Rightarrow> (PvmProt, 'g) world pvm_prog" where
  "pvm_SendData w =
     andThen (lift (cload (heap w) (s_ptr (p_of w)) (nat (bufflen (p_of w))))) (\<lambda>bs.
     Call (Pvm_send (othertid (prot (p_of w))) 1 (pvm_pk bs pvm_initsend)) (\<lambda>_. Ret w))"

definition pvm_RecvData :: "(PvmProt, 'g) world \<Rightarrow> (PvmProt, 'g) world pvm_prog" where
  "pvm_RecvData w =
     Call (Pvm_recv (- 1) (- 1)) (\<lambda>r.
     case pvm_upk (nat (bufflen (p_of w))) (rbuf r) of None \<Rightarrow> Ret w
     | Some bs \<Rightarrow> lift (put_bytes w (r_ptr (p_of w)) bs))"

text \<open>
  \<open>enc\<close> and \<open>dec\<close> are the packed form of a double; \<open>old\<close> is what the caller's variable holds when
  nothing can be unpacked.
\<close>

definition pvm_SendTime :: "(real \<Rightarrow> byte list) \<Rightarrow> real \<Rightarrow> (PvmProt, 'g) world \<Rightarrow> (PvmProt, 'g) world pvm_prog" where
  "pvm_SendTime enc t w =
     Call (Pvm_send (othertid (prot (p_of w))) 1 (pvm_pk (enc t) pvm_initsend)) (\<lambda>_. Ret w)"

definition pvm_RecvTime :: "(byte list \<Rightarrow> real) \<Rightarrow> real \<Rightarrow> (PvmProt, 'g) world \<Rightarrow> (real \<times> (PvmProt, 'g) world) pvm_prog" where
  "pvm_RecvTime dec old w =
     Call (Pvm_recv (- 1) (- 1)) (\<lambda>r.
     Ret (case pvm_upk 8 (rbuf r) of None \<Rightarrow> old | Some bs \<Rightarrow> dec bs, w))"

definition pvm_SendRepeat :: "u32 \<Rightarrow> (PvmProt, 'g) world \<Rightarrow> (PvmProt, 'g) world pvm_prog" where
  "pvm_SendRepeat rpt w =
     Call (Pvm_send (othertid (prot (p_of w))) 1 (pvm_pk (le_bytes rpt) pvm_initsend)) (\<lambda>_. Ret w)"

definition pvm_RecvRepeat :: "u32 \<Rightarrow> (PvmProt, 'g) world \<Rightarrow> (u32 \<times> (PvmProt, 'g) world) pvm_prog" where
  "pvm_RecvRepeat old w =
     Call (Pvm_recv (- 1) (- 1)) (\<lambda>r.
     Ret (case pvm_upk 4 (rbuf r) of None \<Rightarrow> old | Some bs \<Rightarrow> le_word bs, w))"

text \<open>\<open>Sync\<close>, \<open>PrepareToReceive\<close>, \<open>CleanUp\<close>, \<open>Reset\<close> and \<open>AfterAlignmentInit\<close> do nothing.\<close>

definition pvm_module :: "allocator \<Rightarrow> lfsr \<Rightarrow> u32 \<Rightarrow> (pvm_ev, pvm_reply, PvmProt, 'g) comm_module" where
  "pvm_module alloc L old =
     \<lparr>mInit = (\<lambda>w. Ret (pvm_Init w)), mSetup = pvm_Setup, mSendRepeat = pvm_SendRepeat, mRecvRepeat = pvm_RecvRepeat old,
      mMyMalloc = (\<lambda>len so ro w. lift (MyMalloc alloc len so ro w)),
      mInitBufferData = (\<lambda>n so ro w. lift (InitBufferData L n so ro w)),
      mAfterAlignmentInit = Ret, mPrepareToReceive = Ret, mSync = Ret,
      mSendData = pvm_SendData, mRecvData = pvm_RecvData,
      mCheckBufferData = (\<lambda>n so ro w. lift (CheckBufferData L n so ro w)),
      mFreeBuff = (\<lambda>b1 b2 w. lift (FreeBuff b1 b2 w))\<rparr>"

section \<open>The calls in terms of messages\<close>

definition pvm_ok :: pvm_reply where
  "pvm_ok = \<lparr>pret = 0, tids = [], rbuf = []\<rparr>"

text \<open>-1 is the wildcard of \<open>pvm_recv\<close> for the task and for the tag.\<close>

fun pvm_view :: "int \<Rightarrow> pvm_ev \<Rightarrow> pvm_reply mview" where
  "pvm_view peer (Pvm_send tid tag bs) = (if tid = peer then VSend False (tag, bs) pvm_ok else VNone)"
| "pvm_view peer (Pvm_recv tid tag) =
     (if tid = peer \<or> tid = - 1
      then VRecv (\<lambda>y. tag = - 1 \<or> y = tag) (\<lambda>_. True) (\<lambda>bs. \<lparr>pret = 1, tids = [], rbuf = bs\<rparr>) else VNone)"
| "pvm_view peer Pvm_setopt = VLocal pvm_ok"
| "pvm_view peer _ = VNone"

fun pvm_peer :: "(PvmProt, 'g) cfg \<Rightarrow> int" where
  "pvm_peer (fd, src, t, q, g) = othertid q"

lemma pvm_pk_initsend [simp]: "pvm_pk bs pvm_initsend = bs"
  by (simp add: pvm_pk_def pvm_initsend_def)

lemma pvm_upk_all [simp]: "length bs = n \<Longrightarrow> pvm_upk n bs = Some bs"
  by (simp add: pvm_upk_def)

interpretation pvm: transfer_module "pvm_module alloc L old" alloc L "\<lambda>c. msg_acc (pvm_view (pvm_peer c))" "\<lambda>_. True"
    "\<lambda>n. [MS (1, le_bytes n)]" "\<lambda>n. [MR (1, le_bytes n)]" "[]" "\<lambda>bs. [MS (1, bs)]" "\<lambda>bs. [MR (1, bs)]"
  for alloc L old
  apply unfold_locales
            apply (simp_all add: pvm_module_def framed_msg_acc)
      apply (auto simp: cfg_def pvm_SendRepeat_def intro!: obeys_send obeys.ret)[1]
     apply (auto simp: cfg_def pvm_RecvRepeat_def intro!: obeys_recv obeys.ret)[1]
    apply (auto intro!: obeys.ret)[1]
   apply (auto simp: cfg_def pvm_SendData_def intro!: obeys_send obeys.ret)[1]
  apply (auto simp: cfg_def pvm_RecvData_def intro!: obeys_recv obeys.ret)[1]
  done

interpretation pvm_ends: message_ends "pvm_module alloc1 L old1" "pvm_module alloc2 L old2" alloc1 alloc2 L
    "\<lambda>c. pvm_view (pvm_peer c)" "\<lambda>_. True" "\<lambda>n. [MS (1, le_bytes n)]" "\<lambda>n. [MR (1, le_bytes n)]" "[]"
    "\<lambda>bs. [MS (1, bs)]" "\<lambda>bs. [MR (1, bs)]"
  for alloc1 alloc2 L old1 old2
  by unfold_locales simp_all

lemma pvm_prepare: "\<forall>w. mPrepareToReceive (pvm_module alloc L old) w = Ret w"
  by (simp add: pvm_module_def)

section \<open>Correctness\<close>


definition pvm_start :: "int \<Rightarrow> int \<Rightarrow> int \<Rightarrow> (PvmProt, unit) world" where
  "pvm_start t me other = \<lparr>self = \<lparr>args = (zero_args \<lparr>mytid = me, othertid = other\<rparr>)\<lparr>tr := t, rcv := 1 - t\<rparr>,
     outname = [], len_buf_align = 0, asyncReceive = 0, bufalign = 0, streamopt = 0, integCheck = 0\<rparr>,
     heap = \<lparr>hbytes = (\<lambda>_. 0), hblocks = []\<rparr>, lfsr_data = 0, fcflag = 0, glob = (), out = []\<rparr>"


text \<open>
  Finding each other.  In a virtual machine with exactly the two tasks, the transmitter's
  \<open>Setup\<close> sends its task id to the other task and the receiver's \<open>Setup\<close> takes it: every run ends
  with each process holding the other's task id.
\<close>

theorem pvm_Setup_finds_peer:
  fixes w1 w2 :: "(PvmProt, 'g) world"
  assumes "tr (p_of w1) \<noteq> 0" and "tr (p_of w2) = 0" and "t1 \<noteq> t2" and "sint (word_of_int t1 :: u32) = t1"
    and ts: "ts = [t1, t2] \<or> ts = [t2, t1]"
  shows "ends_in (mpair_step (pvm_view t2) (pvm_view t1) eager)
    (mboth_done (\<lambda>w. prot (p_of w) = \<lparr>mytid = t1, othertid = t2\<rparr>) (\<lambda>w. prot (p_of w) = \<lparr>mytid = t2, othertid = t1\<rparr>))
    (mpair_init (fst (feed (pvm_Setup w1) [\<lparr>pret = t1, tids = [], rbuf = []\<rparr>, \<lparr>pret = 0, tids = ts, rbuf = []\<rparr>] []))
                (fst (feed (pvm_Setup w2) [\<lparr>pret = t2, tids = [], rbuf = []\<rparr>] [])))"
proof (rule msg_pair)
  have tx: "obeys (msg_acc (pvm_view t2)) (\<lambda>w. prot (p_of w) = \<lparr>mytid = t1, othertid = t2\<rparr>)
      (Call Pvm_setopt (\<lambda>_. Call (Pvm_send (othertid (prot (p_of w))) 1 (le_bytes (word_of_int (mytid (prot (p_of w))))))
         (\<lambda>_. Ret w))) [MS (1, le_bytes (word_of_int t1))]"
    if "prot (p_of w) = \<lparr>mytid = t1, othertid = t2\<rparr>" for w :: "(PvmProt, 'g) world"
    by (rule obeys_local, simp, rule obeys_send [where y = False], simp add: that, rule obeys.ret, rule that)
  show "obeys (msg_acc (pvm_view t2)) (\<lambda>w. prot (p_of w) = \<lparr>mytid = t1, othertid = t2\<rparr>)
      (fst (feed (pvm_Setup w1) [\<lparr>pret = t1, tids = [], rbuf = []\<rparr>, \<lparr>pret = 0, tids = ts, rbuf = []\<rparr>] []))
      [MS (1, le_bytes (word_of_int t1))]"
  proof -
    have "other_tid t1 (ts ! 0) (ts ! Suc 0) = t2" "length ts = 2"
      using ts assms(3) by (auto simp: other_tid_def Let_def)
    moreover from this have "(if length ts \<noteq> 2 then p else q) = q" for p q :: "(PvmProt, 'g) world pvm_prog" by simp
    ultimately show ?thesis
      using assms(1) tx [of "upd_pprot (\<lambda>q. q\<lparr>othertid := t2\<rparr>) (upd_pprot (\<lambda>q. q\<lparr>mytid := t1\<rparr>) w1)"]
        tx [of "printf x ys (printf y [] (upd_pprot (\<lambda>q. q\<lparr>othertid := t2\<rparr>) (upd_pprot (\<lambda>q. q\<lparr>mytid := t1\<rparr>) w1)))" for x y ys]
      by (auto simp: pvm_Setup_def pvm_establish_def Let_def)
  qed
  show "obeys (msg_acc (pvm_view t1)) (\<lambda>w. prot (p_of w) = \<lparr>mytid = t2, othertid = t1\<rparr>)
      (fst (feed (pvm_Setup w2) [\<lparr>pret = t2, tids = [], rbuf = []\<rparr>] []))
      (map dual [MS (1, le_bytes (word_of_int t1))])"
    using assms(2,4)
    by (auto simp: pvm_Setup_def pvm_establish_def upd_pprot_def Let_def intro!: obeys_recv obeys.ret)
qed

theorem pvm_Setup_finds_peer_witness:
  "ends_in (mpair_step (pvm_view 12) (pvm_view 11) (\<lambda>_. False))
    (mboth_done (\<lambda>w. prot (p_of w) = \<lparr>mytid = 11, othertid = 12\<rparr>) (\<lambda>w. prot (p_of w) = \<lparr>mytid = 12, othertid = 11\<rparr>))
    (mpair_init (fst (feed (pvm_Setup (pvm_start 1 0 0)) [\<lparr>pret = 11, tids = [], rbuf = []\<rparr>, \<lparr>pret = 0, tids = [12, 11], rbuf = []\<rparr>] []))
                (fst (feed (pvm_Setup (pvm_start 0 0 0)) [\<lparr>pret = 12, tids = [], rbuf = []\<rparr>] [])))"
  using pvm_Setup_finds_peer [of "pvm_start 1 0 0" "pvm_start 0 0 0" 11 12 "[12, 11]" "\<lambda>_. False"]
  by (simp add: pvm_start_def zero_args_def)

end
