(* ===== verification/Tcgmsg.thy ===== *)
theory Tcgmsg
  imports Message_Run
begin

text \<open>
  The TCGMSG module \<open>tcgmsg.c\<close>.  The message types \<open>MSGCHR\<close>, \<open>MSGINT\<close> and \<open>MSGDBL\<close> are constants of
  the library's header; \<open>code\<close> maps them to numbers.
\<close>

section \<open>Calls and state\<close>

datatype tcg_type = MSGCHR | MSGINT | MSGDBL

text \<open>
  The calls without the trailing underscore of their C names: \<open>SND type buf node sync\<close> and
  \<open>RCV type lenbuf nodesel sync\<close>; a send with \<open>sync\<close> 0 returns
  before the message is delivered.
\<close>

datatype tcg_ev =
    PBEGIN
  | PEND
  | NNODES
  | NODEID
  | Tcg_gethostname
  | SYNCH tcg_type
  | SND tcg_type "byte list" int bool
  | RCV tcg_type nat int bool

record tcg_reply =
  tret :: int
  tdata :: "byte list"

record TcgProt =
  tnbor :: int
  nid :: int

type_synonym 'a tcg_prog = "(tcg_ev, tcg_reply, 'a) prog"

definition upd_tprot :: "(TcgProt \<Rightarrow> TcgProt) \<Rightarrow> (TcgProt, 'g) world \<Rightarrow> (TcgProt, 'g) world" where
  "upd_tprot f = upd_args (\<lambda>a. a\<lparr>prot := f (prot a)\<rparr>)"

section \<open>The functions\<close>

definition tcg_Init :: "('p, 'g) world \<Rightarrow> ('p, 'g) world tcg_prog" where
  "tcg_Init w = Call PBEGIN (\<lambda>_. Ret w)"

definition tcg_Setup :: "(TcgProt, 'g) world \<Rightarrow> (TcgProt, 'g) world tcg_prog" where
  "tcg_Setup w =
     Call NNODES (\<lambda>r.
     let np = tret r in
     Call NODEID (\<lambda>r.
     let w = upd_tprot (\<lambda>q. q\<lparr>nid := tret r\<rparr>) w in
     Call Tcg_gethostname (\<lambda>r.
     let w = printf ''%d: %s'' [AInt (nid (prot (p_of w))), AStr (map (\<lambda>b. char_of (unat b)) (tdata r))] w in
     if np < 2 then Abort (Exit (- 2))
     else
     let w = upd_args (\<lambda>p. p\<lparr>tr := 0, rcv := 0\<rparr>) w in
     Ret (if nid (prot (p_of w)) = 0
          then upd_tprot (\<lambda>q. q\<lparr>tnbor := np - 1\<rparr>) (upd_args (\<lambda>p. p\<lparr>tr := 1\<rparr>) w)
          else if nid (prot (p_of w)) = np - 1
          then upd_tprot (\<lambda>q. q\<lparr>tnbor := 0\<rparr>) (upd_args (\<lambda>p. p\<lparr>rcv := 1\<rparr>) w)
          else w))))"

definition tcg_Sync :: "('p, 'g) world \<Rightarrow> ('p, 'g) world tcg_prog" where
  "tcg_Sync w = Call (SYNCH MSGCHR) (\<lambda>_. Ret w)"

definition tcg_SendData :: "(TcgProt, 'g) world \<Rightarrow> (TcgProt, 'g) world tcg_prog" where
  "tcg_SendData w =
     andThen (lift (cload (heap w) (s_ptr (p_of w)) (nat (bufflen (p_of w))))) (\<lambda>bs.
     Call (SND MSGCHR bs (tnbor (prot (p_of w))) False) (\<lambda>_. Ret w))"

definition tcg_RecvData :: "(TcgProt, 'g) world \<Rightarrow> (TcgProt, 'g) world tcg_prog" where
  "tcg_RecvData w =
     Call (RCV MSGCHR (nat (bufflen (p_of w))) (tnbor (prot (p_of w))) True) (\<lambda>r.
     lift (put_bytes w (r_ptr (p_of w)) (tdata r)))"

definition tcg_SendTime :: "(real \<Rightarrow> byte list) \<Rightarrow> real \<Rightarrow> (TcgProt, 'g) world \<Rightarrow> (TcgProt, 'g) world tcg_prog" where
  "tcg_SendTime enc t w = Call (SND MSGDBL (enc t) (tnbor (prot (p_of w))) True) (\<lambda>_. Ret w)"

definition tcg_RecvTime :: "(byte list \<Rightarrow> real) \<Rightarrow> (TcgProt, 'g) world \<Rightarrow> (real \<times> (TcgProt, 'g) world) tcg_prog" where
  "tcg_RecvTime dec w = Call (RCV MSGDBL 8 (tnbor (prot (p_of w))) True) (\<lambda>r. Ret (dec (tdata r), w))"

definition tcg_SendRepeat :: "u32 \<Rightarrow> (TcgProt, 'g) world \<Rightarrow> (TcgProt, 'g) world tcg_prog" where
  "tcg_SendRepeat n w = Call (SND MSGINT (le_bytes n) (tnbor (prot (p_of w))) True) (\<lambda>_. Ret w)"

definition tcg_RecvRepeat :: "(TcgProt, 'g) world \<Rightarrow> (u32 \<times> (TcgProt, 'g) world) tcg_prog" where
  "tcg_RecvRepeat w = Call (RCV MSGINT 4 (tnbor (prot (p_of w))) True) (\<lambda>r. Ret (le_word (tdata r), w))"

definition tcg_CleanUp :: "('p, 'g) world \<Rightarrow> ('p, 'g) world tcg_prog" where
  "tcg_CleanUp w = Call PEND (\<lambda>_. Ret w)"

text \<open>\<open>PrepareToReceive\<close>, \<open>Reset\<close> and \<open>AfterAlignmentInit\<close> do nothing.\<close>

definition tcg_module :: "allocator \<Rightarrow> lfsr \<Rightarrow> (tcg_ev, tcg_reply, TcgProt, 'g) comm_module" where
  "tcg_module alloc L =
     \<lparr>mInit = tcg_Init, mSetup = tcg_Setup, mSendRepeat = tcg_SendRepeat, mRecvRepeat = tcg_RecvRepeat,
      mMyMalloc = (\<lambda>len so ro w. lift (MyMalloc alloc len so ro w)),
      mInitBufferData = (\<lambda>n so ro w. lift (InitBufferData L n so ro w)),
      mAfterAlignmentInit = Ret, mPrepareToReceive = Ret, mSync = tcg_Sync,
      mSendData = tcg_SendData, mRecvData = tcg_RecvData,
      mCheckBufferData = (\<lambda>n so ro w. lift (CheckBufferData L n so ro w)),
      mFreeBuff = (\<lambda>b1 b2 w. lift (FreeBuff b1 b2 w))\<rparr>"

section \<open>The calls in terms of messages\<close>

definition tcg_ok :: tcg_reply where
  "tcg_ok = \<lparr>tret = 0, tdata = []\<rparr>"

fun tcg_view :: "(tcg_type \<Rightarrow> int) \<Rightarrow> int \<Rightarrow> tcg_ev \<Rightarrow> tcg_reply mview" where
  "tcg_view code peer (SND y bs node sync) = (if node = peer then VSend sync (code y, bs) tcg_ok else VNone)"
| "tcg_view code peer (RCV y n node sync) =
     (if node = peer \<and> sync
      then VRecv (\<lambda>z. z = code y) (\<lambda>bs. length bs \<le> n) (\<lambda>bs. \<lparr>tret = 0, tdata = bs\<rparr>) else VNone)"
| "tcg_view code peer (SYNCH y) = VSync 0 [] (\<lambda>_. tcg_ok)"
| "tcg_view code peer _ = VNone"

fun tcg_peer :: "(TcgProt, 'g) cfg \<Rightarrow> int" where
  "tcg_peer (fd, src, t, q, g) = tnbor q"

interpretation tcg: transfer_module "tcg_module alloc L" alloc L "\<lambda>c. msg_acc (tcg_view code (tcg_peer c))" "\<lambda>_. True"
    "\<lambda>n. [MS (code MSGINT, le_bytes n)]" "\<lambda>n. [MR (code MSGINT, le_bytes n)]" "[MB 0 [] []]"
    "\<lambda>bs. [MS (code MSGCHR, bs)]" "\<lambda>bs. [MR (code MSGCHR, bs)]"
  for alloc L code
  apply unfold_locales
            apply (simp_all add: tcg_module_def framed_msg_acc)
      apply (auto simp: cfg_def tcg_SendRepeat_def intro!: obeys_send obeys.ret)[1]
     apply (auto simp: cfg_def tcg_RecvRepeat_def intro!: obeys_recv obeys.ret)[1]
    apply (auto simp: cfg_def tcg_Sync_def intro!: obeys_sync obeys.ret)[1]
   apply (auto simp: cfg_def tcg_SendData_def intro!: obeys_send obeys.ret)[1]
  apply (auto simp: cfg_def tcg_RecvData_def intro!: obeys_recv obeys.ret)[1]
  done

interpretation tcg_ends: message_ends "tcg_module alloc1 L" "tcg_module alloc2 L" alloc1 alloc2 L
    "\<lambda>c. tcg_view code (tcg_peer c)" "\<lambda>_. True"
    "\<lambda>n. [MS (code MSGINT, le_bytes n)]" "\<lambda>n. [MR (code MSGINT, le_bytes n)]" "[MB 0 [] []]"
    "\<lambda>bs. [MS (code MSGCHR, bs)]" "\<lambda>bs. [MR (code MSGCHR, bs)]"
  for alloc1 alloc2 L code
  by unfold_locales simp_all

lemma tcg_prepare: "\<forall>w. mPrepareToReceive (tcg_module alloc L) w = Ret w"
  by (simp add: tcg_module_def)

section \<open>Correctness\<close>


definition tcg_start :: "int \<Rightarrow> int \<Rightarrow> (TcgProt, unit) world" where
  "tcg_start t other = \<lparr>self = \<lparr>args = (zero_args \<lparr>tnbor = other, nid = 0\<rparr>)\<lparr>tr := t, rcv := 1 - t\<rparr>,
     outname = [], len_buf_align = 0, asyncReceive = 0, bufalign = 0, streamopt = 0, integCheck = 0\<rparr>,
     heap = \<lparr>hbytes = (\<lambda>_. 0), hblocks = []\<rparr>, lfsr_data = 0, fcflag = 0, glob = (), out = []\<rparr>"


end
