(* ===== verification/Onesided.thy ===== *)
theory Onesided
  imports Netpipe
begin

text \<open>
  Two processes that write into each other's memory.  Memory that the other process may write is
  kept outside the programs, and every access to it is a call: a load, a store, a loop that polls
  a location, a routine that runs on it, a put into the memory of the other process.  Puts travel
  on their own and arrive while both processes go on; \<open>ordered\<close> says whether they arrive in
  the order they were made.
\<close>

section \<open>Calls\<close>

text \<open>
  A reply: a number, the bytes that were read, the addresses that a collective allocation returns
  for the two processes, and what a routine of \<open>netpipe.c\<close> that ran on the
  shared memory left behind (the error it ended in, its \<open>lfsr_data\<close> and its messages).
\<close>

record os_reply =
  oval :: int
  obytes :: "byte list"
  oaddrs :: "addr list"
  oerr :: "cerr option"
  olfsr :: u32
  oout :: "msg list"

text \<open>
  \<open>Spin a bs\<close> is a loop that does nothing until the memory at \<open>a\<close> holds \<open>bs\<close>.
  \<open>Put dst src n pe\<close> copies \<open>n\<close> bytes at \<open>src\<close> to \<open>dst\<close> in the memory of \<open>pe\<close>.  \<open>'c\<close> are the
  other calls of the library.
\<close>

datatype 'c os_ev =
    Load addr nat
  | Store addr "byte list"
  | Spin addr "byte list"
  | Put addr addr nat int
  | Routine "cheap \<Rightarrow> os_reply \<times> cheap"
  | Lib 'c

type_synonym ('c, 'a) os_prog = "('c os_ev, os_reply, 'a) prog"

definition os_ok :: os_reply where
  "os_ok = \<lparr>oval = 0, obytes = [], oaddrs = [], oerr = None, olfsr = 0, oout = []\<rparr>"

text \<open>The \<open>i\<close>-th number that a call stores through a pointer.\<close>

definition onum :: "os_reply \<Rightarrow> nat \<Rightarrow> nat" where
  "onum r i = (if i < length (oaddrs r) then oaddrs r ! i else 0)"

text \<open>\<open>malloc\<close> and \<open>free\<close> on the shared memory.\<close>

definition malloc_shared :: "allocator \<Rightarrow> nat \<Rightarrow> ('c, addr) os_prog" where
  "malloc_shared alloc n =
     Call (Routine (\<lambda>h. case malloc alloc h n of (p, h') \<Rightarrow> (os_ok\<lparr>oval := int p\<rparr>, h'))) (\<lambda>r. Ret (nat (oval r)))"

definition free_shared :: "addr \<Rightarrow> ('c, unit) os_prog" where
  "free_shared p =
     Call (Routine (\<lambda>h. case free h p of Inl e \<Rightarrow> (os_ok\<lparr>oerr := Some e\<rparr>, h) | Inr h' \<Rightarrow> (os_ok, h'))) (\<lambda>r.
     case oerr r of Some e \<Rightarrow> Abort e | None \<Rightarrow> Ret ())"

text \<open>A routine of \<open>netpipe.c\<close> on buffers in the shared memory.\<close>

definition on_shared :: "(('p, 'g) world \<Rightarrow> ('p, 'g) world res) \<Rightarrow> ('p, 'g) world \<Rightarrow> ('c, ('p, 'g) world) os_prog" where
  "on_shared f w =
     Call (Routine (\<lambda>h. case f (w\<lparr>heap := h\<rparr>) of
             Inl e \<Rightarrow> (os_ok\<lparr>oerr := Some e\<rparr>, h)
           | Inr w' \<Rightarrow> (os_ok\<lparr>olfsr := lfsr_data w', oout := out w'\<rparr>, heap w'))) (\<lambda>r.
     case oerr r of Some e \<Rightarrow> Abort e
     | None \<Rightarrow> Ret (w\<lparr>lfsr_data := olfsr r, out := oout r\<rparr>))"

text \<open>The bytes of an \<open>int\<close>.\<close>

definition int_bytes :: "int \<Rightarrow> byte list" where
  "int_bytes i = le_bytes (word_of_int i)"

lemma length_int_bytes [simp]: "length (int_bytes i) = 4"
  by (simp add: int_bytes_def)

section \<open>What the calls do\<close>

text \<open>
  An action on the process's own memory (which may have to wait), a put with the deliveries it may
  cause, a put that also changes the process's own memory, a fence that waits until the process's own puts have arrived, a call that both processes
  leave together once every put has arrived, or anything else.
\<close>

datatype ('m, 'd, 'r) oview =
    OAct "'m \<Rightarrow> ('r \<times> 'm) option"
  | OPut "'m \<Rightarrow> 'd list \<Rightarrow> bool" 'r
  | OSend "'m \<Rightarrow> 'd list \<Rightarrow> bool" "'m \<Rightarrow> 'm" 'r
  | OFence 'r
  | OSync 'r
  | ONone

text \<open>A put of up to eight bytes arrives at once, a longer one in pieces, from the front.\<close>

type_synonym delivery = "addr \<times> byte list"

fun pieces :: "addr \<Rightarrow> byte list \<Rightarrow> delivery list \<Rightarrow> bool" where
  "pieces a bs [] \<longleftrightarrow> bs = []"
| "pieces a bs ((b, x) # ds) \<longleftrightarrow> b = a \<and> x \<noteq> [] \<and> take (length x) bs = x \<and> pieces (a + length x) (drop (length x) bs) ds"

definition arrives_as :: "addr \<Rightarrow> byte list \<Rightarrow> delivery list \<Rightarrow> bool" where
  "arrives_as a bs ds \<longleftrightarrow> (if length bs \<le> 8 then ds = [(a, bs)] else pieces a bs ds)"

definition deliver :: "delivery \<Rightarrow> cheap \<Rightarrow> cheap" where
  "deliver d h = store h (fst d) (snd d)"

fun os_view :: "('c \<Rightarrow> (cheap, delivery, os_reply) oview) \<Rightarrow> int \<Rightarrow> 'c os_ev \<Rightarrow> (cheap, delivery, os_reply) oview" where
  "os_view lib peer (Load a n) = OAct (\<lambda>h. if valid h a n then Some (os_ok\<lparr>obytes := load h a n\<rparr>, h) else None)"
| "os_view lib peer (Store a bs) = OAct (\<lambda>h. if valid h a (length bs) then Some (os_ok, store h a bs) else None)"
| "os_view lib peer (Spin a bs) =
     OAct (\<lambda>h. if valid h a (length bs) \<and> load h a (length bs) = bs then Some (os_ok, h) else None)"
| "os_view lib peer (Put dst src n pe) =
     (if pe = peer then OPut (\<lambda>h ds. valid h src n \<and> arrives_as dst (load h src n) ds) os_ok else ONone)"
| "os_view lib peer (Routine f) = OAct (\<lambda>h. Some (f h))"
| "os_view lib peer (Lib c) = lib c"

section \<open>Two processes\<close>

text \<open>What a process can do on its own: the rest of the program, the memory, the new deliveries.\<close>

definition moves :: "('e \<Rightarrow> ('m, 'd, 'r) oview) \<Rightarrow> ('e, 'r, 'a) prog \<Rightarrow> 'm \<Rightarrow> (('e, 'r, 'a) prog \<times> 'm \<times> 'd list) set" where
  "moves view p m = (case p of
       Call e k \<Rightarrow> (case view e of
           OAct f \<Rightarrow> (case f m of None \<Rightarrow> {} | Some (r, m') \<Rightarrow> {(k r, m', [])})
         | OPut g r \<Rightarrow> {(k r, m, ds) |ds. g m ds}
         | OSend g f r \<Rightarrow> {(k r, f m, ds) |ds. g m ds}
         | _ \<Rightarrow> {})
     | Clock k \<Rightarrow> {(k c, m, []) |c. True}
     | _ \<Rightarrow> {})"

record ('e, 'r, 'a, 'b, 'm, 'd) opair =
  oprog1 :: "('e, 'r, 'a) prog"
  omem1 :: 'm
  oprog2 :: "('e, 'r, 'b) prog"
  omem2 :: 'm
  fly12 :: "'d list"
  fly21 :: "'d list"

inductive opair_step :: "bool \<Rightarrow> ('d \<Rightarrow> 'm \<Rightarrow> 'm) \<Rightarrow> ('e \<Rightarrow> ('m, 'd, 'r) oview) \<Rightarrow> ('e \<Rightarrow> ('m, 'd, 'r) oview) \<Rightarrow>
    ('e, 'r, 'a, 'b, 'm, 'd) opair \<Rightarrow> ('e, 'r, 'a, 'b, 'm, 'd) opair \<Rightarrow> bool"
  for ordered dlv view1 view2 where
  step1: "(p, m, ds) \<in> moves view1 (oprog1 s) (omem1 s) \<Longrightarrow>
    opair_step ordered dlv view1 view2 s (s\<lparr>oprog1 := p, omem1 := m, fly12 := fly12 s @ ds\<rparr>)"
| step2: "(p, m, ds) \<in> moves view2 (oprog2 s) (omem2 s) \<Longrightarrow>
    opair_step ordered dlv view1 view2 s (s\<lparr>oprog2 := p, omem2 := m, fly21 := fly21 s @ ds\<rparr>)"
| arrive1: "fly21 s = xs @ d # ys \<Longrightarrow> ordered \<longrightarrow> xs = [] \<Longrightarrow>
    opair_step ordered dlv view1 view2 s (s\<lparr>omem1 := dlv d (omem1 s), fly21 := xs @ ys\<rparr>)"
| arrive2: "fly12 s = xs @ d # ys \<Longrightarrow> ordered \<longrightarrow> xs = [] \<Longrightarrow>
    opair_step ordered dlv view1 view2 s (s\<lparr>omem2 := dlv d (omem2 s), fly12 := xs @ ys\<rparr>)"
| fence1: "oprog1 s = Call e k \<Longrightarrow> view1 e = OFence r \<Longrightarrow> fly12 s = [] \<Longrightarrow>
    opair_step ordered dlv view1 view2 s (s\<lparr>oprog1 := k r\<rparr>)"
| fence2: "oprog2 s = Call e k \<Longrightarrow> view2 e = OFence r \<Longrightarrow> fly21 s = [] \<Longrightarrow>
    opair_step ordered dlv view1 view2 s (s\<lparr>oprog2 := k r\<rparr>)"
| sync: "oprog1 s = Call e1 k1 \<Longrightarrow> view1 e1 = OSync r1 \<Longrightarrow> oprog2 s = Call e2 k2 \<Longrightarrow> view2 e2 = OSync r2 \<Longrightarrow>
    fly12 s = [] \<Longrightarrow> fly21 s = [] \<Longrightarrow>
    opair_step ordered dlv view1 view2 s (s\<lparr>oprog1 := k1 r1, oprog2 := k2 r2\<rparr>)"

abbreviation opair_of :: "('e, 'r, 'a) prog \<Rightarrow> 'm \<Rightarrow> ('e, 'r, 'b) prog \<Rightarrow> 'm \<Rightarrow> ('e, 'r, 'a, 'b, 'm, 'd) opair" where
  "opair_of p1 m1 p2 m2 \<equiv> \<lparr>oprog1 = p1, omem1 = m1, oprog2 = p2, omem2 = m2, fly12 = [], fly21 = []\<rparr>"

lemma moves_simps [simp]:
  "moves view (Ret x) m = {}"
  "moves view (Abort x1) m = {}"
  "moves view (Clock k') m = {(k' c, m, []) |c. True}"
  "moves view (Call e k) m = (case view e of
      OAct f \<Rightarrow> (case f m of None \<Rightarrow> {} | Some (r, m') \<Rightarrow> {(k r, m', [])})
    | OPut g r \<Rightarrow> {(k r, m, ds) |ds. g m ds}
    | OSend g f r \<Rightarrow> {(k r, f m, ds) |ds. g m ds}
    | _ \<Rightarrow> {})"
  by (simp_all add: moves_def)

text \<open>One round of the argument that every ordered run ends well.\<close>

abbreviation at_sync2 :: "('e \<Rightarrow> ('m, 'd, 'r) oview) \<Rightarrow> ('e \<Rightarrow> ('m, 'd, 'r) oview) \<Rightarrow> ('e, 'r, 'a) prog \<Rightarrow> ('e, 'r, 'b) prog \<Rightarrow>
    ('e, 'r, 'a) prog \<Rightarrow> ('e, 'r, 'b) prog \<Rightarrow> bool" where
  "at_sync2 view1 view2 p1 p2 q1 q2 \<equiv> (\<exists>e1 k1 r1 e2 k2 r2. p1 = Call e1 k1 \<and> view1 e1 = OSync r1 \<and>
     p2 = Call e2 k2 \<and> view2 e2 = OSync r2 \<and> q1 = k1 r1 \<and> q2 = k2 r2)"

abbreviation at_fence :: "('e \<Rightarrow> ('m, 'd, 'r) oview) \<Rightarrow> ('e, 'r, 'a) prog \<Rightarrow> ('e, 'r, 'a) prog \<Rightarrow> bool" where
  "at_fence view p c \<equiv> (\<exists>e k r. p = Call e k \<and> view e = OFence r \<and> c = k r)"

abbreviation ostate where
  "ostate p1 m1 p2 m2 q r \<equiv> \<lparr>oprog1 = p1, omem1 = m1, oprog2 = p2, omem2 = m2, fly12 = q, fly21 = r\<rparr>"

lemma ordered_ends:
  assumes "\<And>p m ds. (p, m, ds) \<in> moves view1 p1 m1 \<Longrightarrow> ends_in (opair_step True dlv view1 view2) Q (ostate p m p2 m2 (q @ ds) r)"
    and "\<And>p m ds. (p, m, ds) \<in> moves view2 p2 m2 \<Longrightarrow> ends_in (opair_step True dlv view1 view2) Q (ostate p1 m1 p m q (r @ ds))"
    and "\<And>d ds. q = d # ds \<Longrightarrow> ends_in (opair_step True dlv view1 view2) Q (ostate p1 m1 p2 (dlv d m2) ds r)"
    and "\<And>d ds. r = d # ds \<Longrightarrow> ends_in (opair_step True dlv view1 view2) Q (ostate p1 (dlv d m1) p2 m2 q ds)"
    and "\<And>c1 c2. at_sync2 view1 view2 p1 p2 c1 c2 \<Longrightarrow> q = [] \<Longrightarrow> r = [] \<Longrightarrow>
      ends_in (opair_step True dlv view1 view2) Q (ostate c1 m1 c2 m2 [] [])"
    and "\<And>c. at_fence view1 p1 c \<Longrightarrow> q = [] \<Longrightarrow> ends_in (opair_step True dlv view1 view2) Q (ostate c m1 p2 m2 [] r)"
    and "\<And>c. at_fence view2 p2 c \<Longrightarrow> r = [] \<Longrightarrow> ends_in (opair_step True dlv view1 view2) Q (ostate p1 m1 c m2 q [])"
    and prog: "moves view1 p1 m1 \<noteq> {} \<or> moves view2 p2 m2 \<noteq> {} \<or> q \<noteq> [] \<or> r \<noteq> [] \<or>
      (\<exists>c. at_fence view1 p1 c) \<or> Q (ostate p1 m1 p2 m2 q r)"
  shows "ends_in (opair_step True dlv view1 view2) Q (ostate p1 m1 p2 m2 q r)"
proof (rule ends_in.intros)
  fix s' assume "opair_step True dlv view1 view2 (ostate p1 m1 p2 m2 q r) s'"
  then show "ends_in (opair_step True dlv view1 view2) Q s'"
  proof cases
    case (sync e1 k1 c1 e2 k2 c2)
    then have "at_sync2 view1 view2 p1 p2 (k1 c1) (k2 c2)" by simp
    with assms(5) sync show ?thesis by simp
  next
    case (fence1 e k c)
    then have "at_fence view1 p1 (k c)" by simp
    with assms(6) fence1 show ?thesis by simp
  next
    case (fence2 e k c)
    then have "at_fence view2 p2 (k c)" by simp
    with assms(7) fence2 show ?thesis by simp
  qed (use assms(1-4) in auto)
next
  let ?s = "ostate p1 m1 p2 m2 q r"
  from prog consider p m ds where "(p, m, ds) \<in> moves view1 p1 m1" | p m ds where "(p, m, ds) \<in> moves view2 p2 m2"
    | d ds where "q = d # ds" | d ds where "r = d # ds" | c where "at_fence view1 p1 c" "q = []" | "Q ?s"
    by (cases q; cases r) fastforce+
  then show "(\<exists>s'. opair_step True dlv view1 view2 ?s s') \<or> Q ?s"
  proof cases
    case 1 then show ?thesis using opair_step.step1 [of p m ds view1 ?s] by (metis opair.select_convs(1,2))
  next
    case 2 then show ?thesis using opair_step.step2 [of p m ds view2 ?s] by (metis opair.select_convs(3,4))
  next
    case 3 then show ?thesis using opair_step.arrive2 [of ?s "[]" d ds] by (metis append_Nil opair.select_convs(5))
  next
    case 4 then show ?thesis using opair_step.arrive1 [of ?s "[]" d ds] by (metis append_Nil opair.select_convs(6))
  next
    case 5 then show ?thesis using opair_step.fence1 [of ?s _ _ view1] by (metis opair.select_convs(1,5))
  qed simp
qed

section \<open>The two processes change places\<close>

definition oswap :: "('e, 'r, 'a, 'b, 'm, 'd) opair \<Rightarrow> ('e, 'r, 'b, 'a, 'm, 'd) opair" where
  "oswap s = ostate (oprog2 s) (omem2 s) (oprog1 s) (omem1 s) (fly21 s) (fly12 s)"

lemma oswap_simps [simp]: "oswap (ostate p1 m1 p2 m2 q r) = ostate p2 m2 p1 m1 r q" "oswap (oswap s) = s"
  by (simp_all add: oswap_def)

lemma step_swap: "opair_step b dlv v1 v2 s s' \<Longrightarrow> opair_step b dlv v2 v1 (oswap s) (oswap s')"
proof (induction rule: opair_step.induct)
  case (step1 p m ds s)
  then show ?case using opair_step.step2 [of p m ds v1 "oswap s" b dlv v2] by (simp add: oswap_def)
next
  case (step2 p m ds s)
  then show ?case using opair_step.step1 [of p m ds v2 "oswap s" b dlv v1] by (simp add: oswap_def)
next
  case (arrive1 s xs d ys)
  then show ?case using opair_step.arrive2 [of "oswap s" xs d ys b dlv v2 v1] by (simp add: oswap_def)
next
  case (arrive2 s xs d ys)
  then show ?case using opair_step.arrive1 [of "oswap s" xs d ys b dlv v2 v1] by (simp add: oswap_def)
next
  case (fence1 s e k r)
  then show ?case using opair_step.fence2 [of "oswap s" e k v1 r b dlv v2] by (simp add: oswap_def)
next
  case (fence2 s e k r)
  then show ?case using opair_step.fence1 [of "oswap s" e k v2 r b dlv v1] by (simp add: oswap_def)
next
  case (sync s e1 k1 r1 e2 k2 r2)
  then show ?case using opair_step.sync [of "oswap s" e2 k2 v2 r2 e1 k1 v1 r1 b dlv] by (simp add: oswap_def)
qed

lemma ends_swap:
  assumes "ends_in (opair_step b dlv v1 v2) Q s"
  shows "ends_in (opair_step b dlv v2 v1) (\<lambda>s. Q (oswap s)) (oswap s)"
  using assms
proof (induction rule: ends_in.induct)
  case (1 s)
  show ?case
  proof (rule ends_in.intros)
    fix s' assume "opair_step b dlv v2 v1 (oswap s) s'"
    then have "opair_step b dlv v1 v2 s (oswap s')" using step_swap by fastforce
    from "1.IH" [OF this] show "ends_in (opair_step b dlv v2 v1) (\<lambda>s. Q (oswap s)) s'" by simp
  next
    show "(\<exists>s'. opair_step b dlv v2 v1 (oswap s) s') \<or> Q (oswap (oswap s))" using "1.hyps" step_swap by fastforce
  qed
qed

section \<open>Handing over a value with a flag\<close>

text \<open>
  The pattern that the shared-memory modules use for times and repeat counts: the sender stores
  the value in its own copy of a variable, puts the variable and then its flag; the receiver
  waits until its flag shows its own number, reads the variable, and sets the flag to the
  number of the other process.
\<close>

definition hand_over :: "addr \<Rightarrow> addr \<Rightarrow> addr \<Rightarrow> addr \<Rightarrow> int \<Rightarrow> byte list \<Rightarrow> ('c, 'a) os_prog \<Rightarrow> ('c, 'a) os_prog" where
  "hand_over v f v' f' peer bs p =
     Call (Store v bs) (\<lambda>_. Call (Put v' v (length bs) peer) (\<lambda>_. Call (Put f' f 4 peer) (\<lambda>_. p)))"

definition take_over :: "addr \<Rightarrow> addr \<Rightarrow> nat \<Rightarrow> byte list \<Rightarrow> byte list \<Rightarrow> (byte list \<Rightarrow> ('c, 'a) os_prog) \<Rightarrow> ('c, 'a) os_prog" where
  "take_over v f n me other p =
     Call (Spin f me) (\<lambda>_. Call (Load v n) (\<lambda>r. Call (Store f other) (\<lambda>_. p (obytes r))))"

lemma take_over_Call [simp]:
  "take_over v f n me other p = Call e k \<longleftrightarrow>
     e = Spin f me \<and> k = (\<lambda>_. Call (Load v n) (\<lambda>r. Call (Store f other) (\<lambda>_. p (obytes r))))"
  by (auto simp: take_over_def)

lemma arrives_short: "length bs \<le> 8 \<Longrightarrow> arrives_as a bs ds \<longleftrightarrow> ds = [(a, bs)]"
  by (simp add: arrives_as_def)

lemma handed_over:
  assumes n: "length bs = n" "n \<le> 8" "length me = 4" "length other = 4"
    and 1: "valid h1 v n" "valid h1 f 4" "disjoint_ranges v n f 4" "load h1 f 4 = me"
    and 2: "valid h2 v' n" "valid h2 f' 4" "disjoint_ranges v' n f' 4" "load h2 f' 4 \<noteq> me"
  shows "ends_in (opair_step True deliver (os_view lib1 peer) (os_view lib2 peer2))
    (\<lambda>s. s = opair_of (Ret x) (store h1 v bs) (Ret (g bs)) (store (store h2 v' bs) f' other))
    (opair_of (hand_over v f v' f' peer bs (Ret x)) h1 (take_over v' f' n me other (\<lambda>b. Ret (g b))) h2)"
    (is "ends_in ?step ?Q _")
proof -
  let ?h1 = "store h1 v bs" and ?h2 = "store h2 v' bs" and ?h2' = "store (store h2 v' bs) f' me"
  let ?R = "take_over v' f' n me other (\<lambda>b. Ret (g b))"
  let ?T2 = "Call (Put f' f 4 peer) (\<lambda>_. Ret x)" and ?T1 = "Call (Put v' v n peer) (\<lambda>_. Call (Put f' f 4 peer) (\<lambda>_. Ret x))"
  let ?T0 = "hand_over v f v' f' peer bs (Ret x)"
  have f1: "load ?h1 f 4 = me" "load ?h1 v n = bs"
    using 1(3,4) n load_store_same [of h1 v bs] by (simp_all add: load_store_disjoint)
  have d: "disjoint_ranges f' 4 v' n" using 2(3) by (simp only: disjoint_ranges_sym [of f'])
  have f2: "load ?h2 f' 4 \<noteq> me" "load ?h2' f' 4 = me" "load ?h2' v' n = bs"
    using 2(3,4) d n load_store_same [of ?h2 f' me] load_store_same [of h2 v' bs]
    by (simp_all add: load_store_disjoint)
  have st: "store ?h2' f' other = store ?h2 f' other"
    using n by (auto intro!: cheap_eqI simp: heap_simps)
  have R0: "moves (os_view lib2 peer2) ?R h = {}" if "load h f' 4 \<noteq> me" for h
    using that n by (simp add: take_over_def)
  let ?R5 = "Call (Load v' n) (\<lambda>r. Call (Store f' other) (\<lambda>_. Ret (g (obytes r))))"
  let ?R6 = "Call (Store f' other) (\<lambda>_. Ret (g bs))"
  have mv: "moves (os_view lib2 peer2) ?R ?h2' = {(?R5, ?h2', [])}"
    "moves (os_view lib2 peer2) ?R5 ?h2' = {(?R6, ?h2', [])}"
    "moves (os_view lib2 peer2) ?R6 ?h2' = {(Ret (g bs), store ?h2 f' other, [])}"
    "moves (os_view lib1 peer) ?T2 ?h1 = {(Ret x, ?h1, [(f', me)])}"
    "moves (os_view lib1 peer) ?T1 ?h1 = {(?T2, ?h1, [(v', bs)])}"
    "moves (os_view lib1 peer) ?T0 h1 = {(?T1, ?h1, [])}"
    using 1 2 n f1 f2 st by (simp_all add: take_over_def hand_over_def arrives_short)
  have s7: "ends_in ?step ?Q (ostate (Ret x) ?h1 (Ret (g bs)) (store ?h2 f' other) [] [])"
    by (rule ordered_ends) simp_all
  have s6: "ends_in ?step ?Q (ostate (Ret x) ?h1 ?R6 ?h2' [] [])"
    by (rule ordered_ends) (simp_all only: mv, simp_all add: s7)
  have s5: "ends_in ?step ?Q (ostate (Ret x) ?h1 ?R5 ?h2' [] [])"
    by (rule ordered_ends) (simp_all only: mv, simp_all add: s6)
  have s4: "ends_in ?step ?Q (ostate (Ret x) ?h1 ?R ?h2' [] [])"
    by (rule ordered_ends) (simp_all only: mv, simp_all add: s5)
  have s3: "ends_in ?step ?Q (ostate (Ret x) ?h1 ?R ?h2 [(f', me)] [])"
    by (rule ordered_ends) (simp_all only: mv R0 [OF f2(1)], simp_all add: s4 deliver_def)
  have t3: "ends_in ?step ?Q (ostate (Ret x) ?h1 ?R h2 [(v', bs), (f', me)] [])"
    by (rule ordered_ends) (simp_all only: mv R0 [OF 2(4)], simp_all add: s3 deliver_def)
  have t2: "ends_in ?step ?Q (ostate ?T2 ?h1 ?R ?h2 [] [])"
    by (rule ordered_ends) (simp_all only: mv R0 [OF f2(1)], simp_all add: s3)
  have s2: "ends_in ?step ?Q (ostate ?T2 ?h1 ?R h2 [(v', bs)] [])"
    by (rule ordered_ends) (simp_all only: mv R0 [OF 2(4)], simp_all add: t3 t2 deliver_def)
  have s1: "ends_in ?step ?Q (ostate ?T1 ?h1 ?R h2 [] [])"
    by (rule ordered_ends) (simp_all only: mv R0 [OF 2(4)], simp_all add: s2)
  show ?thesis
    by (rule ordered_ends) (simp_all only: mv R0 [OF 2(4)], auto simp: s1 hand_over_def)
qed

lemma flag_restored:
  "load h f 4 = other \<Longrightarrow> disjoint_ranges v (length bs) f 4 \<Longrightarrow> store (store h v bs) f other = store h v bs"
  using store_load_same [of "store h v bs" f 4] by (simp add: load_store_disjoint)

section \<open>Watching the last byte\<close>

text \<open>
  The pattern for the messages themselves: the sender puts its buffer, the receiver polls the last
  byte of its own until it shows a certain value, and then overwrites that byte.
\<close>

definition watch :: "addr \<Rightarrow> byte \<Rightarrow> byte \<Rightarrow> ('c, 'a) os_prog \<Rightarrow> ('c, 'a) os_prog" where
  "watch a c c' p = Call (Spin a [c]) (\<lambda>_. Call (Store a [c']) (\<lambda>_. p))"

lemma watch_Call [simp]: "watch a c c' p = Call e k \<longleftrightarrow> e = Spin a [c] \<and> k = (\<lambda>_. Call (Store a [c']) (\<lambda>_. p))"
  by (auto simp: watch_def)

lemma pieces_of: "arrives_as a bs ds \<Longrightarrow> bs \<noteq> [] \<Longrightarrow> pieces a bs ds"
  by (auto simp: arrives_as_def split: if_splits)

lemma store_last: "bs \<noteq> [] \<Longrightarrow> store (store h a bs) (a + length bs - 1) [c] = store h a (butlast bs @ [c])"
  by (cases bs rule: rev_cases) (auto intro!: cheap_eqI simp: heap_simps nth_append)

lemma load_last: "bs \<noteq> [] \<Longrightarrow> load (store h a bs) (a + length bs - 1) 1 = [last bs]"
  by (cases bs rule: rev_cases) (auto simp: load_def heap_simps)

text \<open>A message that arrives in pieces: until the last one its last byte is the old one.\<close>

lemma next_piece:
  assumes "bs \<noteq> []" and "load h2 (r + length bs - 1) 1 \<noteq> [c]" and "pieces (r + k) (drop k bs) (d # ds)" and "k \<le> length bs"
  shows "load (store h2 r (take k bs)) (r + length bs - 1) 1 \<noteq> [c]"
    and "\<exists>k'. k' \<le> length bs \<and> pieces (r + k') (drop k' bs) ds \<and> deliver d (store h2 r (take k bs)) = store h2 r (take k' bs)"
proof -
  let ?a = "r + length bs - 1"
  obtain b z where d: "d = (b, z)" by (cases d)
  with assms(3) have z: "b = r + k" "z \<noteq> []" "take (length z) (drop k bs) = z"
    "pieces (r + (k + length z)) (drop (k + length z) bs) ds" by (simp_all add: add.assoc add.commute [of k])
  have "length z \<le> length bs - k" using arg_cong [OF z(3), of length] by simp
  then have len: "k + length z \<le> length bs" using assms(4) by simp
  have "0 < length z" using z(2) by simp
  then have "r + k \<le> ?a" using len by linarith
  then have "disjoint_ranges r (length (take k bs)) ?a 1" by (simp add: disjoint_ranges_def)
  then show "load (store h2 r (take k bs)) ?a 1 \<noteq> [c]" using assms(2) by (simp only: load_store_disjoint not_False_eq_True)
  have "deliver d (store h2 r (take k bs)) = store h2 r (take (k + length z) bs)"
    using z len store_append' [of b r "take k bs" h2 z] by (simp add: d deliver_def take_add)
  with z(4) len show "\<exists>k'. k' \<le> length bs \<and> pieces (r + k') (drop k' bs) ds \<and>
      deliver d (store h2 r (take k bs)) = store h2 r (take k' bs)" by blast
qed

text \<open>A process that waits for its own memory to change.\<close>

definition waits :: "('e \<Rightarrow> ('m, 'd, 'r) oview) \<Rightarrow> ('e, 'r, 'a) prog \<Rightarrow> 'm \<Rightarrow> bool" where
  "waits view p m \<longleftrightarrow> moves view p m = {} \<and> (\<forall>e k r. p = Call e k \<longrightarrow> view e \<noteq> OFence r \<and> view e \<noteq> OSync r)"

lemma waits_simps: "waits view (Ret x) m" "load h a 1 \<noteq> [c] \<Longrightarrow> waits (os_view lib peer) (watch a c c' p) h"
  by (simp_all add: waits_def watch_def)

text \<open>The sender waits, its message is under way; once the whole message is there, \<open>Q\<close> holds in the end.\<close>

lemma arriving_all:
  assumes bs: "bs \<noteq> []" and old: "load h2 (r + length bs - 1) 1 \<noteq> [c]" and p1: "waits view1 p1 h1"
    and nxt: "ends_in (opair_step True deliver view1 (os_view lib2 peer2)) Q
      (ostate p1 h1 (watch (r + length bs - 1) c c' p2) (store h2 r bs) [] [])"
  shows "pieces (r + k) (drop k bs) ds \<Longrightarrow> k \<le> length bs \<Longrightarrow>
    ends_in (opair_step True deliver view1 (os_view lib2 peer2)) Q
      (ostate p1 h1 (watch (r + length bs - 1) c c' p2) (store h2 r (take k bs)) ds [])"
proof (induction ds arbitrary: k)
  case Nil
  then show ?case using nxt by simp
next
  case (Cons d ds)
  note np = next_piece [OF bs old Cons.prems]
  have w: "moves view1 p1 h1 = {}" "\<And>e k r. p1 = Call e k \<Longrightarrow> view1 e \<noteq> OFence r \<and> view1 e \<noteq> OSync r"
    using p1 by (simp_all add: waits_def)
  have m: "moves (os_view lib2 peer2) (watch (r + length bs - 1) c c' p2) (store h2 r (take k bs)) = {}"
    using np(1) by (simp add: watch_def)
  obtain k' where k': "k' \<le> length bs" "pieces (r + k') (drop k' bs) ds"
    "deliver d (store h2 r (take k bs)) = store h2 r (take k' bs)" using np(2) by blast
  show ?case
    by (rule ordered_ends) (simp_all only: m w(1), auto simp: k'(3) intro!: Cons.IH [OF k'(2,1), unfolded One_nat_def] dest: w(2))
qed

text \<open>The receiver sees the byte it waits for, and goes on.\<close>

lemma watch_goes_on:
  assumes bs: "bs \<noteq> []" and v: "valid h2 r (length bs)" and l: "last bs = c" and p1: "waits view1 p1 h1"
    and nxt: "ends_in (opair_step True deliver view1 (os_view lib2 peer2)) Q (ostate p1 h1 p2 (store h2 r (butlast bs @ [c'])) [] [])"
  shows "ends_in (opair_step True deliver view1 (os_view lib2 peer2)) Q
      (ostate p1 h1 (watch (r + length bs - 1) c c' p2) (store h2 r bs) [] [])"
    (is "ends_in ?step Q _")
proof -
  let ?a = "r + length bs - 1"
  have va: "valid h2 ?a 1" using valid_sub [OF v, of "length bs - 1" 1] bs by (cases bs) simp_all
  have w: "moves view1 p1 h1 = {}" "\<And>e k r. p1 = Call e k \<Longrightarrow> view1 e \<noteq> OFence r \<and> view1 e \<noteq> OSync r"
    using p1 by (simp_all add: waits_def)
  have m2: "moves (os_view lib2 peer2) (Call (Store ?a [c']) (\<lambda>_. p2)) (store h2 r bs) = {(p2, store h2 r (butlast bs @ [c']), [])}"
    using va store_last [OF bs] by simp
  have 2: "ends_in ?step Q (ostate p1 h1 (Call (Store ?a [c']) (\<lambda>_. p2)) (store h2 r bs) [] [])"
    by (rule ordered_ends) (simp_all only: m2 w(1), auto simp: nxt dest: w(2))
  have m1: "moves (os_view lib2 peer2) (watch ?a c c' p2) (store h2 r bs) = {(Call (Store ?a [c']) (\<lambda>_. p2), store h2 r bs, [])}"
    using va load_last [OF bs, of h2 r] l by (simp add: watch_def)
  show ?thesis by (rule ordered_ends) (simp_all only: m1 w(1), auto simp: 2 [unfolded One_nat_def] dest: w(2))
qed

text \<open>The end of the exchange: the message has arrived; the receiver has seen it or still waits.\<close>

definition watched :: "addr \<Rightarrow> byte \<Rightarrow> byte \<Rightarrow> byte list \<Rightarrow> 'a \<Rightarrow> 'b \<Rightarrow> cheap \<Rightarrow> cheap \<Rightarrow>
    ('c os_ev, os_reply, 'a, 'b, cheap, delivery) opair \<Rightarrow> bool" where
  "watched r c c' bs x y h1 h2 s \<longleftrightarrow>
     (if last bs = c then s = opair_of (Ret x) h1 (Ret y) (store h2 r (butlast bs @ [c']))
      else s = opair_of (Ret x) h1 (watch (r + length bs - 1) c c' (Ret y)) (store h2 r bs))"

lemma watched_end:
  assumes bs: "bs \<noteq> []" and v: "valid h2 r (length bs)"
  shows "ends_in (opair_step True deliver view1 (os_view lib2 peer2)) (watched r c c' bs x y h1 h2)
      (ostate (Ret x) h1 (watch (r + length bs - 1) c c' (Ret y)) (store h2 r bs) [] [])"
proof (cases "last bs = c")
  case False
  then have m: "moves (os_view lib2 peer2) (watch (r + length bs - 1) c c' (Ret y)) (store h2 r bs) = {}"
    using load_last [OF bs, of h2 r] by (simp add: watch_def)
  show ?thesis by (rule ordered_ends) (simp_all only: m, simp_all add: watched_def False)
next
  case True
  show ?thesis
    by (rule watch_goes_on [OF bs v True waits_simps(1)], rule ordered_ends) (simp_all add: watched_def True)
qed

lemma watched_message:
  assumes "length bs = n" and "0 < n" and e: "view1 e = OPut g r'" "k r' = Ret x" "\<And>ds. g h1 ds \<longleftrightarrow> arrives_as r bs ds"
    and "valid h2 r n" and "load h2 (r + n - 1) 1 \<noteq> [c]"
  shows "ends_in (opair_step True deliver view1 (os_view lib2 peer2)) (watched r c c' bs x y h1 h2)
    (opair_of (Call e k) h1 (watch (r + n - 1) c c' (Ret y)) h2)"
proof -
  have bs: "bs \<noteq> []" using assms(1,2) by auto
  have m: "moves (os_view lib2 peer2) (watch (r + n - 1) c c' (Ret y)) h2 = {}" using assms(7) by (simp add: watch_def)
  have m1: "moves view1 (Call e k) h1 = {(Ret x, h1, ds) |ds. arrives_as r bs ds}" by (simp add: e)
  have arr: "ends_in (opair_step True deliver view1 (os_view lib2 peer2)) (watched r c c' bs x y h1 h2)
      (ostate (Ret x) h1 (watch (r + n - 1) c c' (Ret y)) h2 ds [])" if "arrives_as r bs ds" for ds
    using arriving_all [OF bs _ waits_simps(1) watched_end [OF bs], of h2 r c 0 ds] pieces_of [OF that bs] assms(1,6,7) by simp
  have "\<exists>ds. arrives_as r bs ds"
    by (rule exI [of _ "[(r, bs)]"]) (use bs in \<open>simp add: arrives_as_def\<close>)
  then show ?thesis
    by - (rule ordered_ends, simp_all only: m m1, auto simp: e(1) intro: arr [unfolded One_nat_def])
qed

lemma watched_put:
  assumes "length bs = n" and "0 < n" and "valid h1 src n" and "load h1 src n = bs"
    and "valid h2 r n" and "load h2 (r + n - 1) 1 \<noteq> [c]"
  shows "ends_in (opair_step True deliver (os_view lib1 peer) (os_view lib2 peer2)) (watched r c c' bs x y h1 h2)
    (opair_of (Call (Put r src n peer) (\<lambda>_. Ret x)) h1 (watch (r + n - 1) c c' (Ret y)) h2)"
  by (rule watched_message [where g = "\<lambda>h ds. valid h src n \<and> arrives_as r (load h src n) ds" and r' = os_ok])
    (use assms in simp_all)

section \<open>Runs that go wrong\<close>

lemma run_left:
  "(p, m, ds) \<in> moves view1 p1 m1 \<Longrightarrow> (opair_step od dlv view1 view2)\<^sup>*\<^sup>* (ostate p m p2 m2 (q @ ds) r) s \<Longrightarrow>
   (opair_step od dlv view1 view2)\<^sup>*\<^sup>* (ostate p1 m1 p2 m2 q r) s"
  using opair_step.step1 [of p m ds view1 "ostate p1 m1 p2 m2 q r" od dlv view2]
  by (simp add: converse_rtranclp_into_rtranclp)

lemma run_right:
  "(p, m, ds) \<in> moves view2 p2 m2 \<Longrightarrow> (opair_step od dlv view1 view2)\<^sup>*\<^sup>* (ostate p1 m1 p m q (r @ ds)) s \<Longrightarrow>
   (opair_step od dlv view1 view2)\<^sup>*\<^sup>* (ostate p1 m1 p2 m2 q r) s"
  using opair_step.step2 [of p m ds view2 "ostate p1 m1 p2 m2 q r" od dlv view1]
  by (simp add: converse_rtranclp_into_rtranclp)

lemma run_arrive:
  "xs = [] \<or> \<not> od \<Longrightarrow> (opair_step od dlv view1 view2)\<^sup>*\<^sup>* (ostate p1 m1 p2 (dlv d m2) (xs @ ys) r) s \<Longrightarrow>
   (opair_step od dlv view1 view2)\<^sup>*\<^sup>* (ostate p1 m1 p2 m2 (xs @ d # ys) r) s"
  using opair_step.arrive2 [of "ostate p1 m1 p2 m2 (xs @ d # ys) r" xs d ys od dlv view1 view2]
  by (auto simp: converse_rtranclp_into_rtranclp)

lemmas run_first = run_arrive [where xs = "[]", unfolded append_Nil, OF disjI1 [OF refl]]

text \<open>The sender's three steps, and the receiver's three.\<close>

lemma run_hand_over:
  assumes "length bs \<le> 8" "valid h1 v (length bs)" "valid h1 f 4" "disjoint_ranges v (length bs) f 4" "load h1 f 4 = me"
    and "(opair_step od deliver (os_view lib1 peer) view2)\<^sup>*\<^sup>* (ostate p (store h1 v bs) p2 m2 (q @ [(v', bs), (f', me)]) r) s"
  shows "(opair_step od deliver (os_view lib1 peer) view2)\<^sup>*\<^sup>* (ostate (hand_over v f v' f' peer bs p) h1 p2 m2 q r) s"
proof -
  have "load (store h1 v bs) f 4 = me" "load (store h1 v bs) v (length bs) = bs"
    using assms(4,5) load_store_same [of h1 v bs] by (simp_all add: load_store_disjoint)
  with assms(1-3) have mv:
    "(Call (Put v' v (length bs) peer) (\<lambda>_. Call (Put f' f 4 peer) (\<lambda>_. p)), store h1 v bs, [])
       \<in> moves (os_view lib1 peer) (hand_over v f v' f' peer bs p) h1"
    "(Call (Put f' f 4 peer) (\<lambda>_. p), store h1 v bs, [(v', bs)])
       \<in> moves (os_view lib1 peer) (Call (Put v' v (length bs) peer) (\<lambda>_. Call (Put f' f 4 peer) (\<lambda>_. p))) (store h1 v bs)"
    "(p, store h1 v bs, [(f', me)]) \<in> moves (os_view lib1 peer) (Call (Put f' f 4 peer) (\<lambda>_. p)) (store h1 v bs)"
    by (simp_all add: hand_over_def arrives_short)
  show ?thesis
    by (rule run_left [OF mv(1)], rule run_left [OF mv(2)], rule run_left [OF mv(3)]) (use assms(6) in simp)
qed

lemma run_take_over:
  assumes "length me = 4" "length other = 4" "valid h2 v n" "valid h2 f 4" "load h2 f 4 = me"
    and "(opair_step od deliver view1 (os_view lib2 peer2))\<^sup>*\<^sup>* (ostate p1 m1 (g (load h2 v n)) (store h2 f other) q r) s"
  shows "(opair_step od deliver view1 (os_view lib2 peer2))\<^sup>*\<^sup>* (ostate p1 m1 (take_over v f n me other g) h2 q r) s"
proof -
  from assms(1-5) have mv:
    "(Call (Load v n) (\<lambda>r. Call (Store f other) (\<lambda>_. g (obytes r))), h2, []) \<in> moves (os_view lib2 peer2) (take_over v f n me other g) h2"
    "(Call (Store f other) (\<lambda>_. g (load h2 v n)), h2, [])
       \<in> moves (os_view lib2 peer2) (Call (Load v n) (\<lambda>r. Call (Store f other) (\<lambda>_. g (obytes r)))) h2"
    "(g (load h2 v n), store h2 f other, []) \<in> moves (os_view lib2 peer2) (Call (Store f other) (\<lambda>_. g (load h2 v n))) h2"
    by (simp_all add: take_over_def)
  show ?thesis
    by (rule run_right [OF mv(1)], rule run_right [OF mv(2)], rule run_right [OF mv(3)]) (use assms(6) in simp)
qed

text \<open>
  Two values handed over in a row: the second may arrive before the first is read.  Then the
  receiver reads the second value and waits for a flag that does not come again.
\<close>

lemma double_hand_over_hangs:
  assumes len: "length bs = n" "length cs = n" "n \<le> 8" "length me = 4" "length other = 4" "me \<noteq> other"
    and 1: "valid h1 v n" "valid h1 f 4" "disjoint_ranges v n f 4" "load h1 f 4 = me"
    and 2: "valid h2 v' n" "valid h2 f' 4" "disjoint_ranges v' n f' 4"
    and c: "lib1 c = OSync r1"
  shows "\<exists>s. (opair_step True deliver (os_view lib1 peer) (os_view lib2 peer2))\<^sup>*\<^sup>*
      (opair_of (hand_over v f v' f' peer bs (hand_over v f v' f' peer cs (Call (Lib c) K1))) h1
         (take_over v' f' n me other (\<lambda>b. take_over v' f' n me other (K2 b))) h2) s \<and>
    (\<nexists>s'. opair_step True deliver (os_view lib1 peer) (os_view lib2 peer2) s s') \<and>
    oprog2 s = take_over v' f' n me other (K2 cs)"
proof -
  let ?R = "take_over v' f' n me other" and ?h1 = "store (store h1 v bs) v cs"
  let ?m = "store (store (store (store h2 v' bs) f' me) v' cs) f' me"
  let ?s = "ostate (Call (Lib c) K1) ?h1 (?R (K2 cs)) (store ?m f' other) [] []"
  have d: "disjoint_ranges f' 4 v' n" using 2(3) by (simp only: disjoint_ranges_sym [of f'])
  have m: "load ?m v' n = cs" "load ?m f' 4 = me"
    using d len load_store_same [of "store (store h2 v' bs) f' me" v' cs] load_store_same [of _ f' me]
    by (simp_all add: load_store_disjoint)
  have ov: "load (store ?m f' other) f' 4 = other" using len load_store_same [of ?m f' other] by simp
  have fl: "load (store h1 v bs) f 4 = me" using 1(3,4) len by (simp add: load_store_disjoint)
  have stuck: "\<nexists>s'. opair_step True deliver (os_view lib1 peer) (os_view lib2 peer2) ?s s'"
    using ov len c by (auto simp: take_over_def elim!: opair_step.cases)
  have "(opair_step True deliver (os_view lib1 peer) (os_view lib2 peer2))\<^sup>*\<^sup>*
      (ostate (Call (Lib c) K1) ?h1 (?R (\<lambda>b. ?R (K2 b))) ?m [] []) ?s"
    by (rule run_take_over) (use m 2 len in simp_all)
  then have "(opair_step True deliver (os_view lib1 peer) (os_view lib2 peer2))\<^sup>*\<^sup>*
      (ostate (Call (Lib c) K1) ?h1 (?R (\<lambda>b. ?R (K2 b))) h2 [(v', bs), (f', me), (v', cs), (f', me)] []) ?s"
    by - (rule run_first, rule run_first, rule run_first, rule run_first, simp add: deliver_def)
  then have "(opair_step True deliver (os_view lib1 peer) (os_view lib2 peer2))\<^sup>*\<^sup>*
      (ostate (hand_over v f v' f' peer bs (hand_over v f v' f' peer cs (Call (Lib c) K1))) h1 (?R (\<lambda>b. ?R (K2 b))) h2 [] []) ?s"
    by - (rule run_hand_over [where me = me], use 1 len in simp_all, rule run_hand_over [where me = me], use 1 len fl in simp_all)
  with stuck show ?thesis by (intro exI [of _ ?s]) simp
qed

text \<open>Without ordering, the flag may arrive before the value.\<close>

lemma unordered_hand_over_stale:
  assumes len: "length bs = n" "n \<le> 8" "length me = 4" "length other = 4"
    and 1: "valid h1 v n" "valid h1 f 4" "disjoint_ranges v n f 4" "load h1 f 4 = me"
    and 2: "valid h2 v' n" "valid h2 f' 4" "disjoint_ranges v' n f' 4"
  shows "\<exists>s. (opair_step False deliver (os_view lib1 peer) (os_view lib2 peer2))\<^sup>*\<^sup>*
      (opair_of (hand_over v f v' f' peer bs (Ret x)) h1 (take_over v' f' n me other (\<lambda>b. Ret (g b))) h2) s \<and>
    oprog1 s = Ret x \<and> oprog2 s = Ret (g (load h2 v' n))"
proof -
  let ?m = "store h2 f' me" and ?step = "opair_step False deliver (os_view lib1 peer) (os_view lib2 peer2)"
  let ?s = "ostate (Ret x) (store h1 v bs) (Ret (g (load h2 v' n))) (store ?m f' other) [(v', bs)] []"
  have d: "disjoint_ranges f' 4 v' n" using 2(3) by (simp only: disjoint_ranges_sym [of f'])
  have m: "load ?m f' 4 = me" "load ?m v' n = load h2 v' n"
    using d len load_store_same [of h2 f' me] by (simp_all add: load_store_disjoint)
  have "?step\<^sup>*\<^sup>* (ostate (Ret x) (store h1 v bs) (take_over v' f' n me other (\<lambda>b. Ret (g b))) ?m [(v', bs)] []) ?s"
    by (rule run_take_over) (use m 2 len in simp_all)
  then have "?step\<^sup>*\<^sup>* (ostate (Ret x) (store h1 v bs) (take_over v' f' n me other (\<lambda>b. Ret (g b))) h2 [(v', bs), (f', me)] []) ?s"
    by - (rule run_arrive [where xs = "[(v', bs)]" and ys = "[]", unfolded append.simps], simp_all add: deliver_def)
  then have "?step\<^sup>*\<^sup>* (ostate (hand_over v f v' f' peer bs (Ret x)) h1 (take_over v' f' n me other (\<lambda>b. Ret (g b))) h2 [] []) ?s"
    by - (rule run_hand_over [where me = me], use 1 len in simp_all)
  then show ?thesis by (intro exI [of _ ?s]) simp
qed

text \<open>How \<open>run_iters\<close> begins on a transmitter, up to the allocation; and the rest of it.\<close>

definition allocated ::
  "('e, 'r, 'p, 'g) comm_module \<Rightarrow> (real \<Rightarrow> real) \<Rightarrow> u32 \<Rightarrow> u32 \<Rightarrow> ('p, 'g) world \<Rightarrow> ('e, 'r, pyres \<times> ('p, 'g) world) prog" where
  "allocated m fl sz nrepeat w =
     (let w = set_ptrs w in
     if r_buff_orig (p_of w) = NULL \<or> s_buff_orig (p_of w) = NULL
     then Ret (PyNoMemory, printf ''couldn't allocate memory'' [] w)
     else
     andThen (mInitBufferData m (bufflen (p_of w)) 0 0 w) (\<lambda>w.
     andThen (mAfterAlignmentInit m w) (\<lambda>w.
     andThen (if asyncReceive (self w) \<noteq> 0 then mPrepareToReceive m w else Ret w) (\<lambda>w.
     andThen (mSync m w) (\<lambda>w.
     timed_part m fl sz nrepeat w)))))"

lemma run_iters_begins:
  assumes "tr (p_of w) \<noteq> 0"
  shows "netpipe_run_iters m fl (Some (sz, nrepeat)) w =
    andThen (mSendRepeat m sz w) (\<lambda>w. andThen (mSendRepeat m nrepeat w) (\<lambda>w.
    andThen (mMyMalloc m (sint (size_bytes sz)) 0 0 (upd_args (\<lambda>a. a\<lparr>bufflen := sint (size_bytes sz)\<rparr>) w))
      (allocated m fl sz nrepeat)))"
proof -
  have "allocated m fl sz nrepeat = (\<lambda>w. allocated m fl sz nrepeat w)" ..
  then show ?thesis
    using assms by (simp add: netpipe_run_iters_def run_sized_def allocated_def [abs_def] Let_def)
qed

end
