(* ===== verification/Shmem.thy ===== *)
theory Shmem
  imports Onesided
begin

text \<open>
  The SHMEM module \<open>shmem.c\<close>.  The flag, the time, the repeat count and the message buffers lie in
  symmetric memory, which the other process writes with puts; the two processes wait for each
  other by polling it.
\<close>

section \<open>Calls and state\<close>

text \<open>The library calls other than puts.  Allocation, release and barrier are collective.\<close>

datatype shmem_call =
    Start_pes int
  | Shmem_n_pes
  | My_pe
  | Shmalloc nat
  | Shfree addr
  | Shmem_barrier_all

record ShmProt =
  snbor :: int
  ipe :: int
  flag :: addr

record shm_glob =
  pTime :: addr
  pNrepeat :: addr

type_synonym shm_world = "(ShmProt, shm_glob) world"
type_synonym 'a shm_prog = "(shmem_call, 'a) os_prog"

definition upd_sprot :: "(ShmProt \<Rightarrow> ShmProt) \<Rightarrow> (ShmProt, 'g) world \<Rightarrow> (ShmProt, 'g) world" where
  "upd_sprot f = upd_args (\<lambda>a. a\<lparr>prot := f (prot a)\<rparr>)"

section \<open>The functions\<close>

definition shmem_Init :: "shm_world \<Rightarrow> shm_world shm_prog" where
  "shmem_Init w = Ret w"

definition shmem_Setup :: "shm_world \<Rightarrow> shm_world shm_prog" where
  "shmem_Setup w =
     Call (Lib (Start_pes 2)) (\<lambda>_.
     Call (Lib Shmem_n_pes) (\<lambda>r.
     if oval r \<noteq> 2 then Abort (Exit 1)
     else
     Call (Lib (Shmalloc 4)) (\<lambda>r.
     let w = upd_sprot (\<lambda>q. q\<lparr>flag := nat (oval r)\<rparr>) w in
     Call (Lib (Shmalloc 8)) (\<lambda>r.
     let w = w\<lparr>glob := (glob w)\<lparr>pTime := nat (oval r)\<rparr>\<rparr> in
     Call (Lib (Shmalloc 4)) (\<lambda>r.
     let w = w\<lparr>glob := (glob w)\<lparr>pNrepeat := nat (oval r)\<rparr>\<rparr>;
         w = upd_args (\<lambda>p. p\<lparr>tr := 0, rcv := 0\<rparr>) w in
     Call (Lib My_pe) (\<lambda>r.
     let w = upd_sprot (\<lambda>q. q\<lparr>ipe := oval r\<rparr>) w in
     if ipe (prot (p_of w)) = 0
     then let w = upd_sprot (\<lambda>q. q\<lparr>snbor := 1\<rparr>) (upd_args (\<lambda>p. p\<lparr>tr := 1\<rparr>) w) in
          Call (Store (flag (prot (p_of w))) (int_bytes 1)) (\<lambda>_. Ret w)
     else let w = upd_sprot (\<lambda>q. q\<lparr>snbor := 0\<rparr>) (upd_args (\<lambda>p. p\<lparr>rcv := 1\<rparr>) w) in
          Call (Store (flag (prot (p_of w))) (int_bytes 0)) (\<lambda>_. Ret w)))))))"

definition shmem_Sync :: "shm_world \<Rightarrow> shm_world shm_prog" where
  "shmem_Sync w = Call (Lib Shmem_barrier_all) (\<lambda>_. Ret w)"

text \<open>\<open>shmem_put64\<close> counts words of eight bytes, \<open>shmem_putmem\<close> bytes.\<close>

definition shmem_SendData :: "shm_world \<Rightarrow> shm_world shm_prog" where
  "shmem_SendData w =
     (if bufflen (p_of w) mod 8 = 0
      then Call (Put (s_ptr (p_of w)) (s_ptr (p_of w)) (8 * nat (bufflen (p_of w) div 8)) (snbor (prot (p_of w)))) (\<lambda>_. Ret w)
      else Call (Put (s_ptr (p_of w)) (s_ptr (p_of w)) (nat (bufflen (p_of w))) (snbor (prot (p_of w)))) (\<lambda>_. Ret w))"

definition shmem_RecvData :: "shm_world \<Rightarrow> shm_world shm_prog" where
  "shmem_RecvData w =
     (let a = nat (int (r_ptr (p_of w)) + bufflen (p_of w) - 1) in
      Call (Spin a [word_of_int (97 + (if cache (p_of w) \<noteq> 0 then 1 - tr (p_of w) else 1))]) (\<lambda>_.
      Call (Store a [word_of_int (97 + (if cache (p_of w) \<noteq> 0 then tr (p_of w) else 0))]) (\<lambda>_. Ret w)))"

text \<open>A double is the eight bytes that \<open>enc\<close> gives.\<close>

definition shmem_SendTime :: "(real \<Rightarrow> byte list) \<Rightarrow> real \<Rightarrow> shm_world \<Rightarrow> shm_world shm_prog" where
  "shmem_SendTime enc t w =
     Call (Store (pTime (glob w)) (enc t)) (\<lambda>_.
     Call (Put (pTime (glob w)) (pTime (glob w)) 8 (snbor (prot (p_of w)))) (\<lambda>_.
     Call (Put (flag (prot (p_of w))) (flag (prot (p_of w))) 4 (snbor (prot (p_of w)))) (\<lambda>_. Ret w)))"

definition shmem_RecvTime :: "(byte list \<Rightarrow> real) \<Rightarrow> shm_world \<Rightarrow> (real \<times> shm_world) shm_prog" where
  "shmem_RecvTime dec w =
     Call (Spin (flag (prot (p_of w))) (int_bytes (ipe (prot (p_of w))))) (\<lambda>_.
     Call (Load (pTime (glob w)) 8) (\<lambda>r.
     Call (Store (flag (prot (p_of w))) (int_bytes (snbor (prot (p_of w))))) (\<lambda>_. Ret (dec (obytes r), w))))"

definition shmem_SendRepeat :: "u32 \<Rightarrow> shm_world \<Rightarrow> shm_world shm_prog" where
  "shmem_SendRepeat rpt w =
     Call (Store (pNrepeat (glob w)) (le_bytes rpt)) (\<lambda>_.
     Call (Put (pNrepeat (glob w)) (pNrepeat (glob w)) 4 (snbor (prot (p_of w)))) (\<lambda>_.
     Call (Put (flag (prot (p_of w))) (flag (prot (p_of w))) 4 (snbor (prot (p_of w)))) (\<lambda>_. Ret w)))"

definition shmem_RecvRepeat :: "shm_world \<Rightarrow> (u32 \<times> shm_world) shm_prog" where
  "shmem_RecvRepeat w =
     Call (Spin (flag (prot (p_of w))) (int_bytes (ipe (prot (p_of w))))) (\<lambda>_.
     Call (Load (pNrepeat (glob w)) 4) (\<lambda>r.
     Call (Store (flag (prot (p_of w))) (int_bytes (snbor (prot (p_of w))))) (\<lambda>_. Ret (le_word (obytes r), w))))"

definition shmem_MyMalloc :: "int \<Rightarrow> int \<Rightarrow> int \<Rightarrow> shm_world \<Rightarrow> shm_world shm_prog" where
  "shmem_MyMalloc len soff roff w =
     Call (Lib (Shmalloc (unat (size_t (len + CMAX soff roff))))) (\<lambda>r.
     let buff1 = nat (oval r) in
     if buff1 = NULL then Abort (Exit (- 1))
     else if cache (p_of w) \<noteq> 0 then Ret (upd_args (\<lambda>a. a\<lparr>r_buff := buff1\<rparr>) w)
     else Call (Lib (Shmalloc (unat (size_t (len + soff))))) (\<lambda>r.
          let buff2 = nat (oval r) in
          if buff2 = NULL then Abort (Exit (- 1))
          else Ret (upd_args (\<lambda>a. a\<lparr>r_buff := (if tr a \<noteq> 0 then buff1 else buff2),
                                   s_buff := (if tr a \<noteq> 0 then buff2 else buff1)\<rparr>) w)))"

definition shmem_FreeBuff :: "addr \<Rightarrow> addr \<Rightarrow> shm_world \<Rightarrow> shm_world shm_prog" where
  "shmem_FreeBuff buff1 buff2 w =
     andThen (if buff1 \<noteq> NULL then Call (Lib (Shfree buff1)) (\<lambda>_. Ret ()) else Ret ()) (\<lambda>_.
     andThen (if buff2 \<noteq> NULL then Call (Lib (Shfree buff2)) (\<lambda>_. Ret ()) else Ret ()) (\<lambda>_. Ret w))"

text \<open>\<open>PrepareToReceive\<close>, \<open>CleanUp\<close>, \<open>Reset\<close> and \<open>AfterAlignmentInit\<close> do nothing.\<close>

definition shmem_module :: "lfsr \<Rightarrow> (shmem_call os_ev, os_reply, ShmProt, shm_glob) comm_module" where
  "shmem_module L =
     \<lparr>mInit = shmem_Init, mSetup = shmem_Setup, mSendRepeat = shmem_SendRepeat, mRecvRepeat = shmem_RecvRepeat,
      mMyMalloc = shmem_MyMalloc, mInitBufferData = (\<lambda>n so ro. on_shared (InitBufferData L n so ro)),
      mAfterAlignmentInit = Ret, mPrepareToReceive = Ret, mSync = shmem_Sync,
      mSendData = shmem_SendData, mRecvData = shmem_RecvData,
      mCheckBufferData = (\<lambda>n so ro. on_shared (CheckBufferData L n so ro)),
      mFreeBuff = shmem_FreeBuff\<rparr>"

section \<open>The calls in terms of shared memory\<close>

text \<open>\<open>symm\<close> gives the address that a collective allocation returns on both processes.\<close>

fun shm_lib :: "(nat \<Rightarrow> addr) \<Rightarrow> shmem_call \<Rightarrow> (cheap, delivery, os_reply) oview" where
  "shm_lib symm (Shmalloc n) = OSync (os_ok\<lparr>oval := int (symm n)\<rparr>)"
| "shm_lib symm (Shfree a) = OSync os_ok"
| "shm_lib symm Shmem_barrier_all = OSync os_ok"
| "shm_lib symm _ = ONone"

abbreviation shm_view :: "(nat \<Rightarrow> addr) \<Rightarrow> shm_world \<Rightarrow> shmem_call os_ev \<Rightarrow> (cheap, delivery, os_reply) oview" where
  "shm_view symm w \<equiv> os_view (shm_lib symm) (snbor (prot (p_of w)))"

text \<open>
  Between hand-overs: the variables lie in valid, disjoint memory, at the same addresses on both
  processes, and the flag shows the number of the other process.
\<close>

definition shm_idle :: "shm_world \<Rightarrow> cheap \<Rightarrow> bool" where
  "shm_idle w h \<longleftrightarrow> (let f = flag (prot (p_of w)) in
     valid h f 4 \<and> valid h (pTime (glob w)) 8 \<and> valid h (pNrepeat (glob w)) 4 \<and>
     disjoint_ranges (pTime (glob w)) 8 f 4 \<and> disjoint_ranges (pNrepeat (glob w)) 4 f 4 \<and>
     load h f 4 = int_bytes (snbor (prot (p_of w))))"

definition shm_linked :: "shm_world \<Rightarrow> shm_world \<Rightarrow> bool" where
  "shm_linked w1 w2 \<longleftrightarrow> flag (prot (p_of w1)) = flag (prot (p_of w2)) \<and> glob w1 = glob w2 \<and>
     snbor (prot (p_of w1)) = ipe (prot (p_of w2)) \<and> snbor (prot (p_of w2)) = ipe (prot (p_of w1)) \<and>
     int_bytes (ipe (prot (p_of w1))) \<noteq> int_bytes (ipe (prot (p_of w2)))"

lemma shmem_module_simps [simp]:
  "mSendRepeat (shmem_module L) = shmem_SendRepeat" "mRecvRepeat (shmem_module L) = shmem_RecvRepeat"
  "mMyMalloc (shmem_module L) = shmem_MyMalloc"
  by (simp_all add: shmem_module_def)

lemma SendRepeat_hands_over:
  "shmem_SendRepeat n w = hand_over (pNrepeat (glob w)) (flag (prot (p_of w))) (pNrepeat (glob w)) (flag (prot (p_of w)))
     (snbor (prot (p_of w))) (le_bytes n) (Ret w)"
  by (simp add: shmem_SendRepeat_def hand_over_def)

lemma RecvRepeat_takes_over:
  "shmem_RecvRepeat w = take_over (pNrepeat (glob w)) (flag (prot (p_of w))) 4 (int_bytes (ipe (prot (p_of w))))
     (int_bytes (snbor (prot (p_of w)))) (\<lambda>b. Ret (le_word b, w))"
  by (simp add: shmem_RecvRepeat_def take_over_def)

lemma SendTime_hands_over:
  "length (enc t) = 8 \<Longrightarrow> shmem_SendTime enc t w = hand_over (pTime (glob w)) (flag (prot (p_of w))) (pTime (glob w))
     (flag (prot (p_of w))) (snbor (prot (p_of w))) (enc t) (Ret w)"
  by (simp add: shmem_SendTime_def hand_over_def)

lemma RecvTime_takes_over:
  "shmem_RecvTime dec w = take_over (pTime (glob w)) (flag (prot (p_of w))) 8 (int_bytes (ipe (prot (p_of w))))
     (int_bytes (snbor (prot (p_of w)))) (\<lambda>b. Ret (dec b, w))"
  by (simp add: shmem_RecvTime_def take_over_def)

lemma shm_idleD:
  assumes "shm_idle w h"
  shows "valid h (flag (prot (p_of w))) 4" "valid h (pTime (glob w)) 8" "valid h (pNrepeat (glob w)) 4"
    "disjoint_ranges (pTime (glob w)) 8 (flag (prot (p_of w))) 4"
    "disjoint_ranges (pNrepeat (glob w)) 4 (flag (prot (p_of w))) 4"
    "load h (flag (prot (p_of w))) 4 = int_bytes (snbor (prot (p_of w)))"
  using assms by (simp_all add: shm_idle_def Let_def)

section \<open>Correctness\<close>


text \<open>
  C20: The driver announces the size and the repeat count back to back, and the module has no way
  to hold the second announcement back.  For every size and count there is a run of the two
  \<open>run_iters\<close>, with puts arriving in order, in which the second announcement arrives before the
  receiver has read the first: the receiver takes the repeat count for the size and waits for
  ever for a second announcement, the transmitter for ever for the collective allocation.
\<close>

theorem shmem_run_iters_can_hang:
  assumes "shm_linked w1 w2" and "shm_idle w1 h1" and "shm_idle w2 h2" and "tr (p_of w1) \<noteq> 0" and "rcv (p_of w2) \<noteq> 0"
  shows "\<exists>s k. (opair_step True deliver (shm_view symm w1) (shm_view symm w2))\<^sup>*\<^sup>*
      (opair_of (netpipe_run_iters (shmem_module L) fl1 (Some (sz, nrepeat)) w1) h1
                (netpipe_run_iters (shmem_module L) fl2 None w2) h2) s \<and>
    (\<nexists>s'. opair_step True deliver (shm_view symm w1) (shm_view symm w2) s s') \<and>
    oprog2 s = andThen (shmem_RecvRepeat w2) (\<lambda>(n, w). k nrepeat n w)"
proof -
  let ?me = "int_bytes (ipe (prot (p_of w2)))" and ?other = "int_bytes (snbor (prot (p_of w2)))"
  let ?v = "pNrepeat (glob w1)" and ?f = "flag (prot (p_of w1))"
  note l = assms(1) [unfolded shm_linked_def] and i1 = shm_idleD [OF assms(2)] and i2 = shm_idleD [OF assms(3)]
  have ne: "?me \<noteq> int_bytes (ipe (prot (p_of w1)))" using l by metis
  define c where "c = Shmalloc (unat (size_t (sint (size_bytes sz) + CMAX 0 0)))"
  define k where "k = (\<lambda>a b w. if a = 0 then Ret (PyBuildNone, w) else run_sized (shmem_module L) fl2 a b w)"
  obtain K where K: "andThen (shmem_MyMalloc (sint (size_bytes sz)) 0 0 (upd_args (\<lambda>a. a\<lparr>bufflen := sint (size_bytes sz)\<rparr>) w1))
      (allocated (shmem_module L) fl1 sz nrepeat) = Call (Lib c) K"
    by (auto simp: shmem_MyMalloc_def c_def)
  have T: "netpipe_run_iters (shmem_module L) fl1 (Some (sz, nrepeat)) w1
      = hand_over ?v ?f ?v ?f (snbor (prot (p_of w1))) (le_bytes sz)
          (hand_over ?v ?f ?v ?f (snbor (prot (p_of w1))) (le_bytes nrepeat) (Call (Lib c) K))"
    unfolding run_iters_begins [OF assms(4)] by (simp add: K shmem_SendRepeat_def hand_over_def)
  have R: "netpipe_run_iters (shmem_module L) fl2 None w2
      = take_over ?v ?f 4 ?me ?other (\<lambda>b. take_over ?v ?f 4 ?me ?other (\<lambda>b'. k (le_word b) (le_word b') w2))"
    using assms(5) l
    by (simp add: netpipe_run_iters_def shmem_RecvRepeat_def take_over_def k_def)
  have R2: "take_over ?v ?f 4 ?me ?other (\<lambda>b'. k nrepeat (le_word b') w2)
      = andThen (shmem_RecvRepeat w2) (\<lambda>(n, w). k nrepeat n w)"
    using l by (simp add: RecvRepeat_takes_over take_over_def)
  let ?step = "opair_step True deliver (shm_view symm w1) (shm_view symm w2)"
  have "\<exists>s. ?step\<^sup>*\<^sup>* (opair_of (netpipe_run_iters (shmem_module L) fl1 (Some (sz, nrepeat)) w1) h1
        (netpipe_run_iters (shmem_module L) fl2 None w2) h2) s \<and> (\<nexists>s'. ?step s s') \<and>
      oprog2 s = take_over ?v ?f 4 ?me ?other (\<lambda>b'. k (le_word (le_bytes nrepeat)) (le_word b') w2)"
    unfolding T R by (rule double_hand_over_hangs) (use l ne i1 i2 in \<open>simp_all add: c_def\<close>)
  then show ?thesis unfolding le_word_le_bytes R2 by blast
qed

text \<open>
  C22: A message transfer without cache mode, when the receive buffer does not already end in
  \<open>'b'\<close> and puts arrive in order, in pieces of any size.  Every run ends with the whole message in
  the receiver's memory; but the receiver waits for a \<open>'b'\<close> in the last byte and then
  overwrites it.  So it returns only when the message ends in \<open>'b'\<close>, with the last byte changed to
  \<open>'a'\<close>, and polls for ever otherwise: it never returns with the message that was sent.
\<close>

theorem shmem_transfer_outcome:
  assumes "cache (p_of w2) = 0" and "bufflen (p_of w1) = int n" and "bufflen (p_of w2) = int n" and "0 < n"
    and "s_ptr (p_of w1) = r_ptr (p_of w2)"
    and "valid h1 (s_ptr (p_of w1)) n" and "valid h2 (r_ptr (p_of w2)) n"
    and "load h2 (r_ptr (p_of w2) + n - 1) 1 \<noteq> [98]"
  shows "ends_in (opair_step True deliver (shm_view symm w1) (shm_view symm w2))
    (\<lambda>s. let bs = load h1 (s_ptr (p_of w1)) n in
       if last bs = 98 then s = opair_of (Ret w1) h1 (Ret w2) (store h2 (r_ptr (p_of w2)) (butlast bs @ [97]))
       else s = opair_of (Ret w1) h1 (shmem_RecvData w2) (store h2 (r_ptr (p_of w2)) bs))
    (opair_of (shmem_SendData w1) h1 (shmem_RecvData w2) h2)"
proof -
  have S: "shmem_SendData w1 = Call (Put (r_ptr (p_of w2)) (s_ptr (p_of w1)) n (snbor (prot (p_of w1)))) (\<lambda>_. Ret w1)"
  proof (cases "n mod 8 = 0")
    case True
    then have "8 * (n div 8) = n" "int n mod 8 = 0" by presburger+
    then show ?thesis using assms by (simp add: shmem_SendData_def nat_div_distrib)
  next
    case False
    then have "int n mod 8 \<noteq> 0" by presburger
    then show ?thesis using assms by (simp add: shmem_SendData_def)
  qed
  have "nat (int (r_ptr (p_of w2)) + int n - 1) = r_ptr (p_of w2) + n - 1" using assms(4) by simp
  then have R: "shmem_RecvData w2 = watch (r_ptr (p_of w2) + n - 1) 98 97 (Ret w2)"
    using assms by (simp add: shmem_RecvData_def watch_def Let_def)
  let ?bs = "load h1 (s_ptr (p_of w1)) n"
  have Q: "watched (r_ptr (p_of w2)) 98 97 ?bs w1 w2 h1 h2 = (\<lambda>s. let bs = ?bs in
       if last bs = 98 then s = opair_of (Ret w1) h1 (Ret w2) (store h2 (r_ptr (p_of w2)) (butlast bs @ [97]))
       else s = opair_of (Ret w1) h1 (shmem_RecvData w2) (store h2 (r_ptr (p_of w2)) bs))"
    unfolding R by (simp add: watched_def [abs_def] Let_def)
  show ?thesis
    unfolding Q [symmetric] unfolding S R
    by (rule watched_put) (use assms in simp_all)
qed

section \<open>Examples\<close>

text \<open>Two processes after \<open>Setup\<close>: the flag at 16, the time at 32, the repeat count at 48.\<close>

definition shm_start :: "int \<Rightarrow> shm_world" where
  "shm_start i = \<lparr>self = \<lparr>args = (zero_args \<lparr>snbor = 1 - i, ipe = i, flag = 16\<rparr>)\<lparr>tr := 1 - i, rcv := i, bufflen := 2,
       s_ptr := 64, r_ptr := 64\<rparr>,
     outname = [], len_buf_align = 0, asyncReceive = 0, bufalign = 0, streamopt = 0, integCheck = 0\<rparr>,
     heap = \<lparr>hbytes = (\<lambda>_. 0), hblocks = []\<rparr>, lfsr_data = 0, fcflag = 0, glob = \<lparr>pTime = 32, pNrepeat = 48\<rparr>, out = []\<rparr>"

definition shm_memory :: "int \<Rightarrow> cheap" where
  "shm_memory i = \<lparr>hbytes = (\<lambda>_. 0)(16 := word_of_int (1 - i)), hblocks = [(16, 4), (32, 8), (48, 4), (64, 2)]\<rparr>"

lemma shm_start_idle: "i = 0 \<or> i = 1 \<Longrightarrow> shm_idle (shm_start i) (shm_memory i)"
  by (auto simp: shm_idle_def shm_start_def shm_memory_def zero_args_def valid_def disjoint_ranges_def load_def int_bytes_def
      le_bytes_def upt_rec)

lemma shm_start_linked: "shm_linked (shm_start 0) (shm_start 1)"
  by (simp add: shm_linked_def shm_start_def zero_args_def int_bytes_def)


theorem shmem_run_iters_can_hang_witness:
  "\<exists>s k. (opair_step True deliver (shm_view id (shm_start 0)) (shm_view id (shm_start 1)))\<^sup>*\<^sup>*
      (opair_of (netpipe_run_iters (shmem_module lfsr23) id (Some (800, 3)) (shm_start 0)) (shm_memory 0)
                (netpipe_run_iters (shmem_module lfsr23) id None (shm_start 1)) (shm_memory 1)) s \<and>
    (\<nexists>s'. opair_step True deliver (shm_view id (shm_start 0)) (shm_view id (shm_start 1)) s s') \<and>
    oprog2 s = andThen (shmem_RecvRepeat (shm_start 1)) (\<lambda>(n, w). k (3 :: u32) n w)"
  by (rule shmem_run_iters_can_hang [OF shm_start_linked shm_start_idle shm_start_idle])
    (simp_all add: shm_start_def zero_args_def)

theorem shmem_transfer_outcome_witness:
  "ends_in (opair_step True deliver (shm_view id (shm_start 0)) (shm_view id (shm_start 1)))
    (\<lambda>s. s = opair_of (Ret (shm_start 0)) (shm_memory 0) (shmem_RecvData (shm_start 1)) (store (shm_memory 1) 64 [0, 0]))
    (opair_of (shmem_SendData (shm_start 0)) (shm_memory 0) (shmem_RecvData (shm_start 1)) (shm_memory 1))"
proof -
  have "load (shm_memory i) 64 2 = [0, 0]" "load (shm_memory i) 65 1 = [0]" "valid (shm_memory i) 64 2"
    "s_ptr (p_of (shm_start i)) = 64" "r_ptr (p_of (shm_start i)) = 64" "bufflen (p_of (shm_start i)) = 2"
    "cache (p_of (shm_start i)) = 0" for i
    by (simp_all add: shm_memory_def shm_start_def load_def upt_rec valid_def zero_args_def)
  then show ?thesis
    using shmem_transfer_outcome [of "shm_start 1" "shm_start 0" 2 "shm_memory 0" "shm_memory 1" id] by (simp add: Let_def)
qed

end
