(* ===== verification/Gpshmem.thy ===== *)
theory Gpshmem
  imports Shmem
begin

text \<open>
  The GPSHMEM module \<open>gpshmem.c\<close>.  It keeps the buffers in two fields \<open>buff\<close> and \<open>buff1\<close> of the argument structure that
  \<open>netpipe.h\<close> no longer has; here they stand beside the protocol structure.  Each process puts its buffer to the
  same place in the memory of the other, and the last byte says whose turn it is.
\<close>

section \<open>Calls and state\<close>

datatype gp_call =
    Gpshmem_init
  | Gpnumpes
  | Gpmype
  | Gpshmalloc nat
  | Gpshfree addr
  | Gpshmem_barrier_all
  | Gpshmem_finalize

record GpProt = ShmProt +
  buff :: addr
  buff1 :: addr

type_synonym gp_world = "(GpProt, shm_glob) world"
type_synonym 'a gp_prog = "(gp_call, 'a) os_prog"

definition upd_gprot :: "(GpProt \<Rightarrow> GpProt) \<Rightarrow> gp_world \<Rightarrow> gp_world" where
  "upd_gprot f = upd_args (\<lambda>a. a\<lparr>prot := f (prot a)\<rparr>)"

section \<open>The functions\<close>

definition gp_Init :: "gp_world \<Rightarrow> gp_world gp_prog" where
  "gp_Init w = Call (Lib Gpshmem_init) (\<lambda>_. Ret w)"

text \<open>The error message asks for the number of processes once more.\<close>

definition gp_Setup :: "gp_world \<Rightarrow> gp_world gp_prog" where
  "gp_Setup w =
     Call (Lib Gpnumpes) (\<lambda>r.
     if oval r \<noteq> 2 then Call (Lib Gpnumpes) (\<lambda>_. Abort (Exit 1))
     else
     Call (Lib (Gpshmalloc 4)) (\<lambda>r.
     let w = upd_gprot (\<lambda>q. q\<lparr>flag := nat (oval r)\<rparr>) w in
     Call (Lib (Gpshmalloc 8)) (\<lambda>r.
     let w = w\<lparr>glob := (glob w)\<lparr>pTime := nat (oval r)\<rparr>\<rparr> in
     Call (Lib (Gpshmalloc 4)) (\<lambda>r.
     let w = w\<lparr>glob := (glob w)\<lparr>pNrepeat := nat (oval r)\<rparr>\<rparr>;
         w = upd_args (\<lambda>p. p\<lparr>tr := 0, rcv := 0\<rparr>) w in
     Call (Lib Gpmype) (\<lambda>r.
     let w = upd_gprot (\<lambda>q. q\<lparr>ipe := oval r\<rparr>) w in
     if ipe (prot (p_of w)) = 0
     then let w = upd_gprot (\<lambda>q. q\<lparr>snbor := 1\<rparr>) (upd_args (\<lambda>p. p\<lparr>tr := 1\<rparr>) w) in
          Call (Store (flag (prot (p_of w))) (int_bytes 1)) (\<lambda>_. Ret w)
     else let w = upd_gprot (\<lambda>q. q\<lparr>snbor := 0\<rparr>) (upd_args (\<lambda>p. p\<lparr>rcv := 1\<rparr>) w) in
          Call (Store (flag (prot (p_of w))) (int_bytes 0)) (\<lambda>_. Ret w))))))"

definition gp_Sync :: "gp_world \<Rightarrow> gp_world gp_prog" where
  "gp_Sync w = Call (Lib Gpshmem_barrier_all) (\<lambda>_. Ret w)"

text \<open>\<open>gpshmem_put32\<close> counts words of four bytes, \<open>gpshmem_putmem\<close> bytes.\<close>

definition gp_SendData :: "gp_world \<Rightarrow> gp_world gp_prog" where
  "gp_SendData w =
     (let b = buff (prot (p_of w)); nbor = snbor (prot (p_of w)) in
      if bufflen (p_of w) mod 4 = 0
      then Call (Put b b (4 * nat (bufflen (p_of w) div 4)) nbor) (\<lambda>_. Ret w)
      else Call (Put b b (nat (bufflen (p_of w))) nbor) (\<lambda>_. Ret w))"

definition gp_RecvData :: "gp_world \<Rightarrow> gp_world gp_prog" where
  "gp_RecvData w =
     (let a = nat (int (buff (prot (p_of w))) + bufflen (p_of w) - 1) in
      Call (Spin a [word_of_int (98 + ipe (prot (p_of w)))]) (\<lambda>_.
      Call (Store a [word_of_int (98 + snbor (prot (p_of w)))]) (\<lambda>_. Ret w)))"

definition gp_SendTime :: "(real \<Rightarrow> byte list) \<Rightarrow> real \<Rightarrow> gp_world \<Rightarrow> gp_world gp_prog" where
  "gp_SendTime enc t w =
     Call (Store (pTime (glob w)) (enc t)) (\<lambda>_.
     Call (Put (pTime (glob w)) (pTime (glob w)) 8 (snbor (prot (p_of w)))) (\<lambda>_.
     Call (Put (flag (prot (p_of w))) (flag (prot (p_of w))) 4 (snbor (prot (p_of w)))) (\<lambda>_. Ret w)))"

definition gp_RecvTime :: "(byte list \<Rightarrow> real) \<Rightarrow> gp_world \<Rightarrow> (real \<times> gp_world) gp_prog" where
  "gp_RecvTime dec w =
     Call (Spin (flag (prot (p_of w))) (int_bytes (ipe (prot (p_of w))))) (\<lambda>_.
     Call (Load (pTime (glob w)) 8) (\<lambda>r.
     Call (Store (flag (prot (p_of w))) (int_bytes (snbor (prot (p_of w))))) (\<lambda>_. Ret (dec (obytes r), w))))"

definition gp_SendRepeat :: "u32 \<Rightarrow> gp_world \<Rightarrow> gp_world gp_prog" where
  "gp_SendRepeat rpt w =
     Call (Store (pNrepeat (glob w)) (le_bytes rpt)) (\<lambda>_.
     Call (Put (pNrepeat (glob w)) (pNrepeat (glob w)) 4 (snbor (prot (p_of w)))) (\<lambda>_.
     Call (Put (flag (prot (p_of w))) (flag (prot (p_of w))) 4 (snbor (prot (p_of w)))) (\<lambda>_. Ret w)))"

definition gp_RecvRepeat :: "gp_world \<Rightarrow> (u32 \<times> gp_world) gp_prog" where
  "gp_RecvRepeat w =
     Call (Spin (flag (prot (p_of w))) (int_bytes (ipe (prot (p_of w))))) (\<lambda>_.
     Call (Load (pNrepeat (glob w)) 4) (\<lambda>r.
     Call (Store (flag (prot (p_of w))) (int_bytes (snbor (prot (p_of w))))) (\<lambda>_. Ret (le_word (obytes r), w))))"

definition gp_CleanUp :: "gp_world \<Rightarrow> gp_world gp_prog" where
  "gp_CleanUp w = Call (Lib Gpshmem_finalize) (\<lambda>_. Ret w)"

text \<open>The last byte of the new buffer says that it is the transmitter's turn.\<close>

definition gp_MyMalloc :: "int \<Rightarrow> int \<Rightarrow> int \<Rightarrow> gp_world \<Rightarrow> gp_world gp_prog" where
  "gp_MyMalloc len soff roff w =
     Call (Lib (Gpshmalloc (unat (size_t (len + CMAX soff roff))))) (\<lambda>r.
     let w = upd_gprot (\<lambda>q. q\<lparr>buff := nat (oval r)\<rparr>) w in
     if buff (prot (p_of w)) = NULL then Abort (Exit (- 1))
     else
     Call (Store (nat (int (buff (prot (p_of w))) + len - 1)) [word_of_int (98 + tr (p_of w))]) (\<lambda>_.
     Call (Lib (Gpshmalloc (unat (size_t (len + soff))))) (\<lambda>r.
     let w = upd_gprot (\<lambda>q. q\<lparr>buff1 := nat (oval r)\<rparr>) w in
     if buff1 (prot (p_of w)) = NULL then Abort (Exit (- 1)) else Ret w)))"

definition gp_FreeBuff :: "addr \<Rightarrow> addr \<Rightarrow> gp_world \<Rightarrow> gp_world gp_prog" where
  "gp_FreeBuff b1 b2 w = Call (Lib (Gpshfree b1)) (\<lambda>_. Call (Lib (Gpshfree b2)) (\<lambda>_. Ret w))"

text \<open>
  \<open>PrepareToReceive\<close> and \<open>Reset\<close> do nothing.  The file has no \<open>AfterAlignmentInit\<close>: it is the parameter \<open>after\<close>.
\<close>

definition gp_module :: "(gp_world \<Rightarrow> gp_world gp_prog) \<Rightarrow> lfsr \<Rightarrow> (gp_call os_ev, os_reply, GpProt, shm_glob) comm_module" where
  "gp_module after L =
     \<lparr>mInit = gp_Init, mSetup = gp_Setup, mSendRepeat = gp_SendRepeat, mRecvRepeat = gp_RecvRepeat,
      mMyMalloc = gp_MyMalloc, mInitBufferData = (\<lambda>n so ro. on_shared (InitBufferData L n so ro)),
      mAfterAlignmentInit = after, mPrepareToReceive = Ret, mSync = gp_Sync,
      mSendData = gp_SendData, mRecvData = gp_RecvData,
      mCheckBufferData = (\<lambda>n so ro. on_shared (CheckBufferData L n so ro)),
      mFreeBuff = gp_FreeBuff\<rparr>"

text \<open>\<open>symm\<close> gives the address that a collective allocation returns on both processes.\<close>

fun gp_lib :: "(nat \<Rightarrow> addr) \<Rightarrow> gp_call \<Rightarrow> (cheap, delivery, os_reply) oview" where
  "gp_lib symm (Gpshmalloc n) = OSync (os_ok\<lparr>oval := int (symm n)\<rparr>)"
| "gp_lib symm (Gpshfree a) = OSync os_ok"
| "gp_lib symm Gpshmem_barrier_all = OSync os_ok"
| "gp_lib symm _ = ONone"

abbreviation gp_view :: "(nat \<Rightarrow> addr) \<Rightarrow> gp_world \<Rightarrow> gp_call os_ev \<Rightarrow> (cheap, delivery, os_reply) oview" where
  "gp_view symm w \<equiv> os_view (gp_lib symm) (snbor (prot (p_of w)))"

section \<open>Messages back and forth\<close>

text \<open>A put against a process that watches the last byte, each with what follows.\<close>

lemma put_then:
  assumes n: "length bs = n" "0 < n" and 1: "valid h1 src n" "load h1 src n = bs"
    and 2: "valid h2 r n" "load h2 (r + n - 1) 1 \<noteq> [c]" and l: "last bs = c" and p1: "waits (os_view lib1 peer) p1 h1"
    and nxt: "ends_in (opair_step True deliver (os_view lib1 peer) (os_view lib2 peer2)) Q
      (opair_of p1 h1 p2 (store h2 r (butlast bs @ [c'])))"
  shows "ends_in (opair_step True deliver (os_view lib1 peer) (os_view lib2 peer2)) Q
    (opair_of (Call (Put r src n peer) (\<lambda>_. p1)) h1 (watch (r + n - 1) c c' p2) h2)"
proof -
  have bs: "bs \<noteq> []" using n by auto
  have m: "moves (os_view lib2 peer2) (watch (r + n - 1) c c' p2) h2 = {}" using 2(2) by (simp add: watch_def)
  have m1: "moves (os_view lib1 peer) (Call (Put r src n peer) (\<lambda>_. p1)) h1 = {(p1, h1, ds) |ds. arrives_as r bs ds}"
    using 1 by simp
  have W: "ends_in (opair_step True deliver (os_view lib1 peer) (os_view lib2 peer2)) Q
      (ostate p1 h1 (watch (r + length bs - 1) c c' p2) (store h2 r bs) [] [])"
    by (rule watch_goes_on [OF bs _ l p1 nxt]) (use n 2 in simp)
  have arr: "ends_in (opair_step True deliver (os_view lib1 peer) (os_view lib2 peer2)) Q
      (ostate p1 h1 (watch (r + n - 1) c c' p2) h2 ds [])" if "arrives_as r bs ds" for ds
    using arriving_all [OF bs _ p1 W, where k = 0 and ds = ds] pieces_of [OF that bs] n 2 by simp
  have "\<exists>ds. arrives_as r bs ds"
    by (rule exI [of _ "[(r, bs)]"]) (use bs in \<open>simp add: arrives_as_def\<close>)
  then show ?thesis
    by - (rule ordered_ends, simp_all only: m m1, auto intro: arr [unfolded One_nat_def])
qed

lemma watch_put:
  assumes "length bs = n" "0 < n" and "valid h2 src n" "load h2 src n = bs"
    and "valid h1 r n" "load h1 (r + n - 1) 1 \<noteq> [c]" and "last bs = c" and "waits (os_view lib2 peer2) p2 h2"
    and "ends_in (opair_step True deliver (os_view lib1 peer) (os_view lib2 peer2)) Q
      (opair_of p1 (store h1 r (butlast bs @ [c'])) p2 h2)"
  shows "ends_in (opair_step True deliver (os_view lib1 peer) (os_view lib2 peer2)) Q
    (opair_of (watch (r + n - 1) c c' p1) h1 (Call (Put r src n peer2) (\<lambda>_. p2)) h2)"
  using ends_swap [OF put_then [OF assms(1-8), where Q = "\<lambda>s. Q (oswap s)"]] ends_swap [OF assms(9)] by simp

text \<open>The transmitter's turn: the last byte of its own buffer is a \<open>'c'\<close>, that of the other process is not.\<close>

definition gp_turn :: "nat \<Rightarrow> gp_world \<Rightarrow> cheap \<Rightarrow> gp_world \<Rightarrow> cheap \<Rightarrow> bool" where
  "gp_turn n w1 h1 w2 h2 \<longleftrightarrow> 0 < n \<and> tr (p_of w1) \<noteq> 0 \<and> tr (p_of w2) = 0 \<and>
     ipe (prot (p_of w1)) = 0 \<and> snbor (prot (p_of w1)) = 1 \<and> ipe (prot (p_of w2)) = 1 \<and> snbor (prot (p_of w2)) = 0 \<and>
     bufflen (p_of w1) = int n \<and> bufflen (p_of w2) = int n \<and> buff (prot (p_of w2)) = buff (prot (p_of w1)) \<and>
     (let b = buff (prot (p_of w1)) in valid h1 b n \<and> valid h2 b n \<and>
      load h1 (b + n - 1) 1 = [99] \<and> load h2 (b + n - 1) 1 \<noteq> [99])"

lemma gp_SendData_put:
  assumes "bufflen (p_of w) = int n"
  shows "gp_SendData w = Call (Put (buff (prot (p_of w))) (buff (prot (p_of w))) n (snbor (prot (p_of w)))) (\<lambda>_. Ret w)"
proof (cases "n mod 4 = 0")
  case True
  then have "4 * (n div 4) = n" "int n mod 4 = 0" by presburger+
  then show ?thesis using assms by (simp add: gp_SendData_def nat_div_distrib Let_def)
next
  case False
  then have "int n mod 4 \<noteq> 0" by presburger
  then show ?thesis using assms by (simp add: gp_SendData_def Let_def)
qed

lemma gp_RecvData_watch:
  assumes "bufflen (p_of w) = int n" and "0 < n"
  shows "gp_RecvData w = watch (buff (prot (p_of w)) + n - 1) (word_of_int (98 + ipe (prot (p_of w))))
    (word_of_int (98 + snbor (prot (p_of w)))) (Ret w)"
proof -
  have "nat (int (buff (prot (p_of w))) + int n - 1) = buff (prot (p_of w)) + n - 1" using assms(2) by simp
  then show ?thesis using assms by (simp add: gp_RecvData_def watch_def Let_def)
qed

lemma watch_andThen: "andThen (watch a c c' p) f = watch a c c' (andThen p f)"
  by (simp add: watch_def)

lemma last_byte: "0 < n \<Longrightarrow> load h (b + n - 1) 1 = [last (load h b n)]"
  by (cases n) (simp_all add: load_def last_map)

lemma gp_round_prog:
  assumes "gp_turn n w1 h1 w2 h2"
  shows "iter_loop (gp_module after L) (Suc k) w1 = Call (Put (buff (prot (p_of w1))) (buff (prot (p_of w1))) n 1) (\<lambda>_.
      watch (buff (prot (p_of w1)) + n - 1) 98 99 (iter_loop (gp_module after L) k w1))"
    and "iter_loop (gp_module after L) (Suc k) w2 = watch (buff (prot (p_of w1)) + n - 1) 99 98
      (Call (Put (buff (prot (p_of w1))) (buff (prot (p_of w1))) n 0) (\<lambda>_. iter_loop (gp_module after L) k w2))"
  using assms unfolding gp_turn_def
  by (simp_all add: gp_module_def gp_SendData_put [of _ n] gp_RecvData_watch [of _ n] watch_andThen)

lemma gp_rounds:
  assumes "gp_turn n w1 h1 w2 h2" and "b = buff (prot (p_of w1))"
    and "ends_in (opair_step True deliver (gp_view symm w1) (gp_view symm w2)) Q
      (opair_of (Ret w1) h1 (Ret w2) (if k = 0 then h2 else store h2 b (butlast (load h1 b n) @ [98])))"
  shows "ends_in (opair_step True deliver (gp_view symm w1) (gp_view symm w2)) Q
      (opair_of (iter_loop (gp_module after L) k w1) h1 (iter_loop (gp_module after L) k w2) h2)"
  using assms(1,3)
proof (induction k arbitrary: h2)
  case 0
  then show ?case by simp
next
  case (Suc k)
  let ?m = "gp_module after L" and ?a = "b + n - 1" and ?bs = "load h1 b n"
  let ?h2 = "store h2 b (butlast ?bs @ [98])"
  note t = Suc.prems(1) [unfolded gp_turn_def Let_def, folded assms(2)]
  have n: "0 < n" and bs: "length ?bs = n" using t by simp_all
  then have ne: "?bs \<noteq> []" by (metis length_greater_0_conv)
  have l: "last ?bs = 99" using t last_byte [OF n, of h1 b] by simp
  have bl: "length (butlast ?bs @ [98]) = n" "last (butlast ?bs @ [98 :: byte]) = 98" using bs n by simp_all
  have ld: "load ?h2 b n = butlast ?bs @ [98]" using load_store_same [of h2 b "butlast ?bs @ [98]"] bl by simp
  have l2: "load ?h2 ?a 1 \<noteq> [99]" "load h1 ?a 1 \<noteq> [98]" using last_byte [OF n, of ?h2 b] ld t by simp_all
  have h1: "store h1 b (butlast (butlast ?bs @ [98]) @ [99]) = h1"
    using l ne append_butlast_last_id [of ?bs] store_load_same [of h1 b n] by simp
  have again: "store ?h2 b (butlast ?bs @ [98]) = ?h2" by (simp add: store_store_same)
  have turn: "gp_turn n w1 h1 w2 ?h2" using Suc.prems(1) l2 assms(2) by (simp add: gp_turn_def Let_def)
  have IH: "ends_in (opair_step True deliver (gp_view symm w1) (gp_view symm w2)) Q (opair_of (iter_loop ?m k w1) h1 (iter_loop ?m k w2) ?h2)"
    by (rule Suc.IH [OF turn]) (use Suc.prems(2) again in simp)
  have wait: "waits (gp_view symm w2) (iter_loop ?m k w2) ?h2"
    using gp_round_prog(2) [OF turn] l2 assms(2) by (cases k) (simp_all add: waits_simps del: iter_loop.simps(2))
  have reply: "ends_in (opair_step True deliver (gp_view symm w1) (gp_view symm w2)) Q
      (opair_of (watch ?a 98 99 (iter_loop ?m k w1)) h1 (Call (Put b b n 0) (\<lambda>_. iter_loop ?m k w2)) ?h2)"
    using watch_put [OF bl(1) n _ ld _ l2(2) bl(2) wait, where ?p1.0 = "iter_loop ?m k w1" and c' = 99] t IH h1 by simp
  have v: "gp_view symm w1 = os_view (gp_lib symm) 1" using t by simp
  show ?case
    unfolding gp_round_prog [OF Suc.prems(1)] assms(2) [symmetric] v
    by (rule put_then [OF bs n _ refl _ _ l waits_simps(2) [OF l2(2)] reply [unfolded v]]) (use t in blast)+
qed

text \<open>\<open>MyMalloc\<close> on a memory of its own, whatever the library returns: it exits, or leaves the byte that makes it the transmitter's turn.\<close>

definition own_memory :: "(gp_call os_ev, os_reply, cheap) device" where
  "own_memory = \<lparr>d_legal = (\<lambda>_ _. True), d_adm = (\<lambda>_ _ _. True), d_upd = (\<lambda>e _ h. case e of Store a bs \<Rightarrow> store h a bs | _ \<Rightarrow> h)\<rparr>"

lemma gp_MyMalloc_stores:
  "0 < n \<Longrightarrow> wp own_memory (\<lambda>e _. e = Exit (- 1)) (\<lambda>w' h'. let a = buff (prot (p_of w')); a' = buff1 (prot (p_of w')) in
     a \<noteq> NULL \<and> a' \<noteq> NULL \<and> w' = upd_gprot (\<lambda>q. q\<lparr>buff := a, buff1 := a'\<rparr>) w \<and> h' = store h (a + n - 1) [word_of_int (98 + tr (p_of w))]) (gp_MyMalloc (int n) so ro w) h"
  by (auto simp: gp_MyMalloc_def own_memory_def Let_def upd_gprot_def upd_args_def nat_diff_distrib nat_add_distrib)

lemma gp_MyMalloc_turn:
  assumes "0 < n" and "tr (p_of w1) = 1" "tr (p_of w2) = 0" and "bufflen (p_of w1) = int n" "bufflen (p_of w2) = int n"
    and "ipe (prot (p_of w1)) = 0" "snbor (prot (p_of w1)) = 1" "ipe (prot (p_of w2)) = 1" "snbor (prot (p_of w2)) = 0"
    and "valid h1 a n" "valid h2 a n"
  shows "gp_turn n (upd_gprot (\<lambda>q. q\<lparr>buff := a, buff1 := a1\<rparr>) w1) (store h1 (a + n - 1) [word_of_int (98 + tr (p_of w1))])
    (upd_gprot (\<lambda>q. q\<lparr>buff := a, buff1 := a2\<rparr>) w2) (store h2 (a + n - 1) [word_of_int (98 + tr (p_of w2))])"
  using assms load_store_same [of h1 "a + n - 1" "[99]"] load_store_same [of h2 "a + n - 1" "[98]"]
  by (simp add: gp_turn_def upd_gprot_def)


text \<open>
  The driver does not get that far: \<open>MyMalloc\<close> does not set \<open>r_buff\<close> and \<open>s_buff\<close>, which the driver looks at to see whether the
  allocation succeeded.  When they are null, as the constructor leaves them, \<open>run_iters\<close> ends in the out-of-memory
  exception whenever it gets beyond \<open>MyMalloc\<close>.
\<close>

lemma gp_MyMalloc_returns:
  "r_buff (p_of w) = NULL \<Longrightarrow> returns (\<lambda>w'. r_buff (p_of w') = NULL) (gp_MyMalloc len so ro w)"
  by (auto simp: gp_MyMalloc_def Let_def upd_gprot_def intro!: returns.intros)

lemma gp_announce_returns:
  "r_buff (p_of w) = NULL \<Longrightarrow> returns (\<lambda>w'. r_buff (p_of w') = NULL) (gp_SendRepeat n w)"
  by (auto simp: gp_SendRepeat_def intro!: returns.intros)

lemma gp_run_sized_no_memory:
  assumes "r_buff (p_of w) = NULL"
  shows "returns (\<lambda>(v, w'). v = PyNoMemory) (run_sized (gp_module after L) fl sz n w)"
proof -
  let ?P = "\<lambda>w'. r_buff (p_of w') = NULL"
  have a: "returns ?P (if tr (p_of w) \<noteq> 0 then andThen (gp_SendRepeat sz w) (gp_SendRepeat n) else Ret w)"
    using assms by (auto intro!: returns_andThen [OF gp_announce_returns] gp_announce_returns returns.ret)
  have m: "returns ?P (gp_MyMalloc len 0 0 (upd_args (\<lambda>a. a\<lparr>bufflen := l\<rparr>) w'))" if "?P w'" for len l w'
    by (rule gp_MyMalloc_returns) (use that in simp)
  have s: "r_buff_orig (p_of (set_ptrs w')) = NULL" if "?P w'" for w' :: gp_world using that by (simp add: set_ptrs_def Let_def)
  have g: "mSendRepeat (gp_module after L) = gp_SendRepeat" "mMyMalloc (gp_module after L) = gp_MyMalloc"
    by (simp_all add: gp_module_def)
  show ?thesis
    unfolding run_sized_def Let_def g
    by (rule returns_andThen [OF a], rule returns_andThen [OF m], assumption) (simp add: s returns.ret)
qed

text \<open>A transmitter and a receiver with buffers of three bytes at 64.\<close>

definition gp_start :: "int \<Rightarrow> gp_world" where
  "gp_start i = \<lparr>self = \<lparr>args = (zero_args \<lparr>snbor = 1 - i, ipe = i, flag = 16, buff = 64, buff1 = 80\<rparr>)\<lparr>tr := 1 - i, rcv := i, bufflen := 3\<rparr>,
     outname = [], len_buf_align = 0, asyncReceive = 0, bufalign = 0, streamopt = 0, integCheck = 0\<rparr>,
     heap = \<lparr>hbytes = (\<lambda>_. 0), hblocks = []\<rparr>, lfsr_data = 0, fcflag = 0, glob = \<lparr>pTime = 32, pNrepeat = 48\<rparr>, out = []\<rparr>"

definition gp_memory :: "byte list \<Rightarrow> cheap" where
  "gp_memory bs = store \<lparr>hbytes = (\<lambda>_. 0), hblocks = [(64, 3)]\<rparr> 64 bs"

lemma gp_start_turn: "gp_turn 3 (gp_start 0) (gp_memory [7, 8, 99]) (gp_start 1) (gp_memory [0, 0, 98])"
  by (simp add: gp_turn_def gp_start_def gp_memory_def zero_args_def valid_def load_def upt_rec hbytes_store)


end
