(* ===== verification/Armci.thy ===== *)
theory Armci
  imports Onesided Messages
begin

text \<open>
  The ARMCI module \<open>armci.c\<close>: the linked list in which it remembers the remote address of every
  allocated segment, the transfer functions built on it, and the code that finds the local host
  name in a file.
\<close>

section \<open>Calls and state\<close>

text \<open>
  The library calls other than puts, and the calls of the C library and of MPI that the module
  makes.  \<open>Armci_Malloc\<close> returns the addresses of the new segment on both processes.
\<close>

datatype armci_call =
    Armci_Init
  | Armci_Malloc nat
  | Armci_Free addr
  | Armci_AllFence
  | Armci_Finalize
  | A_MPI_Init
  | A_MPI_Comm_size
  | A_MPI_Comm_rank
  | A_MPI_Barrier
  | A_MPI_Send "byte list" int int
  | A_MPI_Recv nat int int
  | Fopen string
  | Fgets
  | Fclose
  | A_Gethostbyname "byte list"
  | Popen string
  | Pfgets
  | Pclose
  | Setenv string "byte list"

text \<open>The list node: the addresses of the segment on the two processes, its size, the next node.\<close>

record mnode =
  ptrs0 :: addr
  ptrs1 :: addr
  nbytes :: int
  nxt :: addr

record ArmciProt =
  anbor :: int
  aipe :: int
  aflag :: addr

text \<open>The globals; \<open>nodes\<close> is the memory of the list nodes.\<close>

record armci_glob =
  npes :: int
  mype :: int
  nbor_r_buff_offset :: int
  m_first :: addr
  nodes :: "addr \<Rightarrow> mnode option"
  apTime :: addr
  apNrepeat :: addr

type_synonym armci_world = "(ArmciProt, armci_glob) world"
type_synonym 'a armci_prog = "(armci_call, 'a) os_prog"

definition upd_aprot :: "(ArmciProt \<Rightarrow> ArmciProt) \<Rightarrow> armci_world \<Rightarrow> armci_world" where
  "upd_aprot f = upd_args (\<lambda>a. a\<lparr>prot := f (prot a)\<rparr>)"

definition upd_glob :: "('g \<Rightarrow> 'g) \<Rightarrow> ('p, 'g) world \<Rightarrow> ('p, 'g) world" where
  "upd_glob f w = w\<lparr>glob := f (glob w)\<rparr>"

lemma upd_glob_simps [simp]:
  "self (upd_glob f w) = self w" "heap (upd_glob f w) = heap w" "out (upd_glob f w) = out w"
  "glob (upd_glob f w) = f (glob w)"
  by (simp_all add: upd_glob_def)

section \<open>The list of segments\<close>

definition node_at :: "armci_glob \<Rightarrow> addr \<Rightarrow> mnode res" where
  "node_at g a = (case nodes g a of None \<Rightarrow> Inl BadAccess | Some n \<Rightarrow> Inr n)"

text \<open>\<open>node->ptrs[i]\<close>, for an array of two.\<close>

definition ptrs :: "mnode \<Rightarrow> int \<Rightarrow> addr res" where
  "ptrs n i = (if i = 0 then Inr (ptrs0 n) else if i = 1 then Inr (ptrs1 n) else Inl BadAccess)"

definition mlink_front :: "addr \<Rightarrow> armci_glob \<Rightarrow> armci_glob res" where
  "mlink_front node g =
     res_bind (node_at g node) (\<lambda>n.
     let n = (if m_first g \<noteq> NULL then n\<lparr>nxt := m_first g\<rparr> else n\<lparr>nxt := NULL\<rparr>) in
     Inr (g\<lparr>nodes := (nodes g)(node \<mapsto> n), m_first := node\<rparr>))"

text \<open>
  The loop of \<open>mfind\<close>, from the node \<open>p\<close> with its successor \<open>n\<close>; the first argument bounds the
  number of rounds.  The result is the node and its predecessor; \<open>ARMCI_Error\<close> ends the program.
\<close>

primrec mfind_loop :: "nat \<Rightarrow> armci_glob \<Rightarrow> addr \<Rightarrow> addr \<Rightarrow> addr \<Rightarrow> (addr \<times> addr) res" where
  "mfind_loop 0 g ptr p n = Inl OutOfFuel"
| "mfind_loop (Suc k) g ptr p n =
     (if n \<noteq> NULL
      then res_bind (node_at g n) (\<lambda>x.
           res_bind (ptrs x (mype g)) (\<lambda>a.
           if a = ptr then Inr (n, p) else mfind_loop k g ptr n (nxt x)))
      else Inl (Exit (- 1)))"

definition mfind :: "nat \<Rightarrow> armci_glob \<Rightarrow> addr \<Rightarrow> (addr \<times> addr) res" where
  "mfind fuel g ptr =
     (if m_first g \<noteq> NULL
      then res_bind (node_at g (m_first g)) (\<lambda>x.
           res_bind (ptrs x (mype g)) (\<lambda>a.
           if a \<noteq> ptr then mfind_loop fuel g ptr (m_first g) (nxt x) else Inr (m_first g, NULL)))
      else Inr (NULL, NULL))"

definition munlink :: "addr \<Rightarrow> addr \<Rightarrow> armci_glob \<Rightarrow> armci_glob res" where
  "munlink node prev g =
     (if node \<noteq> NULL
      then res_bind (node_at g node) (\<lambda>n.
           if prev \<noteq> NULL
           then res_bind (node_at g prev) (\<lambda>p. Inr (g\<lparr>nodes := (nodes g)(prev \<mapsto> p\<lparr>nxt := nxt n\<rparr>)\<rparr>))
           else Inr (g\<lparr>m_first := nxt n\<rparr>))
      else Inr g)"

text \<open>A node takes 32 bytes.  Its fields are set from the two addresses that \<open>ARMCI_Malloc\<close> returns.\<close>

definition armci_malloc :: "allocator \<Rightarrow> int \<Rightarrow> armci_world \<Rightarrow> (addr \<times> armci_world) armci_prog" where
  "armci_malloc alloc n w =
     (case malloc alloc (heap w) 32 of (node, h) \<Rightarrow>
      if node = NULL then Abort (Exit (- 1))
      else let w = upd_heap h w in
      Call (Lib (Armci_Malloc (unat (size_t n)))) (\<lambda>r.
      case oaddrs r of [a0, a1] \<Rightarrow>
        (let x = \<lparr>ptrs0 = a0, ptrs1 = a1, nbytes = n, nxt = NULL\<rparr> in
         andThen (lift (mlink_front node ((glob w)\<lparr>nodes := (nodes (glob w))(node \<mapsto> x)\<rparr>))) (\<lambda>g.
         andThen (lift (ptrs x (mype g))) (\<lambda>a. Ret (a, w\<lparr>glob := g\<rparr>))))
      | _ \<Rightarrow> Abort BadAccess))"

definition armci_free :: "nat \<Rightarrow> addr \<Rightarrow> armci_world \<Rightarrow> armci_world armci_prog" where
  "armci_free fuel ptr w =
     andThen (lift (mfind fuel (glob w) ptr)) (\<lambda>(n, p).
     andThen (lift (if n \<noteq> NULL then munlink n p (glob w) else Inr (glob w))) (\<lambda>g.
     Call (Lib (Armci_Free ptr)) (\<lambda>_. Ret (w\<lparr>glob := g\<rparr>))))"

definition remote_ptr :: "nat \<Rightarrow> addr \<Rightarrow> armci_world \<Rightarrow> addr res" where
  "remote_ptr fuel l w =
     res_bind (mfind fuel (glob w) l) (\<lambda>(n, p).
     if n \<noteq> NULL then res_bind (node_at (glob w) n) (\<lambda>x. ptrs x (1 - mype (glob w))) else Inr NULL)"

section \<open>The host name\<close>

text \<open>
  \<open>is_host_local\<close>: 1 when \<open>ifconfig\<close> knows the address of the host, 0 when it does not, -1 when the
  address is unknown or the command cannot be run.  The reply of \<open>gethostbyname\<close> is the first
  address as text, or -1 with \<open>h_errno\<close> in \<open>oaddrs\<close>.
\<close>

definition h_errno_text :: "nat \<Rightarrow> armci_world \<Rightarrow> armci_world" where
  "h_errno_text e w =
     (if e = 1 then printf ''host not found'' [] w
      else if e = 4 then printf ''no IP address available'' [] w
      else if e = 3 then printf ''name server error'' [] w
      else if e = 2 then printf ''temporary error on name server, try again later'' [] w
      else w)"

definition is_host_local :: "byte list \<Rightarrow> armci_world \<Rightarrow> (int \<times> armci_world) armci_prog" where
  "is_host_local hostname w =
     Call (Lib (A_Gethostbyname hostname)) (\<lambda>r.
     if oval r = - 1
     then Ret (- 1, h_errno_text (hd (oaddrs r)) (printf ''Reason: '' []
            (printf ''Could not resolve hostname [%s] to IP address'' [AStr (map (\<lambda>b. char_of (unat b)) hostname)] w)))
     else
     Call (Lib (Popen (''/sbin/ifconfig | grep '' @ map (\<lambda>b. char_of (unat b)) (obytes r)))) (\<lambda>r.
     if oval r = - 1 then Ret (- 1, printf ''running /sbin/ifconfig failed'' [] w)
     else
     Call (Lib Pfgets) (\<lambda>r.
     if oval r = - 1 then Call (Lib Pclose) (\<lambda>_. Ret (0, w)) else Call (Lib Pclose) (\<lambda>_. Ret (1, w)))))"

text \<open>
  \<open>chop\<close> walks over the buffer up to its terminating 0 and turns every newline into a 0; behind the
  end of the buffer nothing may be read.
\<close>

fun chop :: "byte list \<Rightarrow> byte list res" where
  "chop [] = Inl BadAccess"
| "chop (c # cs) =
     (if c \<noteq> 0 then res_bind (chop cs) (\<lambda>ds. Inr ((if c = 10 then 0 else c) # ds)) else Inr (c # cs))"

definition c_string :: "byte list \<Rightarrow> byte list" where
  "c_string bs = takeWhile (\<lambda>c. c \<noteq> 0) bs"

primrec hosts_loop :: "nat \<Rightarrow> armci_world \<Rightarrow> armci_world armci_prog" where
  "hosts_loop 0 w = Abort OutOfFuel"
| "hosts_loop (Suc k) w =
     Call (Lib Fgets) (\<lambda>r.
     if oval r = - 1 then Ret w
     else andThen (lift (chop (obytes r))) (\<lambda>buf.
     andThen (is_host_local (c_string buf) w) (\<lambda>(v, w).
     andThen
       (if v = 1
        then let w = printf ''Setting ARMCI_HOSTNAME=%s'' [AStr (map (\<lambda>b. char_of (unat b)) (c_string buf))] w in
             Call (Lib (Setenv ''ARMCI_HOSTNAME'' (c_string buf))) (\<lambda>r.
             Ret (if oval r = - 1 then printf ''Insufficient space in environment'' [] w else w))
        else Ret w) (hosts_loop k))))"

definition set_armci_hostname :: "nat \<Rightarrow> armci_world \<Rightarrow> armci_world armci_prog" where
  "set_armci_hostname fuel w =
     Call (Lib (Fopen ''armci_hosts'')) (\<lambda>r.
     if oval r = - 1 then Ret w
     else andThen (hosts_loop fuel w) (\<lambda>w. Call (Lib Fclose) (\<lambda>_. Ret w)))"

section \<open>The functions of the module\<close>

definition armci_Init :: "armci_world \<Rightarrow> armci_world armci_prog" where
  "armci_Init w = Call (Lib A_MPI_Init) (\<lambda>_. Ret w)"

text \<open>The reply of the two MPI calls: the error code in \<open>oval\<close>, the number in \<open>oaddrs\<close>.\<close>

definition armci_Setup :: "nat \<Rightarrow> allocator \<Rightarrow> armci_world \<Rightarrow> armci_world armci_prog" where
  "armci_Setup fuel alloc w =
     andThen (set_armci_hostname fuel w) (\<lambda>w.
     Call (Lib Armci_Init) (\<lambda>_.
     Call (Lib A_MPI_Comm_size) (\<lambda>r.
     let w = upd_glob (\<lambda>g. g\<lparr>npes := int (hd (oaddrs r))\<rparr>) w in
     if oval r \<noteq> 0 then Abort (Exit (oval r))
     else if npes (glob w) \<noteq> 2 then Abort (Exit (- 1))
     else Call (Lib A_MPI_Comm_rank) (\<lambda>r.
     let w = upd_glob (\<lambda>g. g\<lparr>mype := int (hd (oaddrs r))\<rparr>) w in
     if oval r \<noteq> 0 then Abort (Exit (oval r))
     else if npes (glob w) \<noteq> 2 then Abort (Exit (- 1))
     else
     andThen (armci_malloc alloc 4 w) (\<lambda>(a, w).
     let w = upd_aprot (\<lambda>q. q\<lparr>aflag := a\<rparr>) w in
     andThen (armci_malloc alloc 8 w) (\<lambda>(a, w).
     let w = upd_glob (\<lambda>g. g\<lparr>apTime := a\<rparr>) w in
     andThen (armci_malloc alloc 4 w) (\<lambda>(a, w).
     let w = upd_glob (\<lambda>g. g\<lparr>apNrepeat := a\<rparr>) w;
         w = upd_args (\<lambda>p. p\<lparr>tr := 0, rcv := 0\<rparr>) w;
         w = upd_aprot (\<lambda>q. q\<lparr>aipe := mype (glob w)\<rparr>) w in
     if aipe (prot (p_of w)) = 0
     then let w = upd_aprot (\<lambda>q. q\<lparr>anbor := 1\<rparr>) (upd_args (\<lambda>p. p\<lparr>tr := 1\<rparr>) w) in
          Call (Store (aflag (prot (p_of w))) (int_bytes 1)) (\<lambda>_. Ret w)
     else let w = upd_aprot (\<lambda>q. q\<lparr>anbor := 0\<rparr>) (upd_args (\<lambda>p. p\<lparr>rcv := 1\<rparr>) w) in
          Call (Store (aflag (prot (p_of w))) (int_bytes 0)) (\<lambda>_. Ret w))))))))"

definition armci_Sync :: "armci_world \<Rightarrow> armci_world armci_prog" where
  "armci_Sync w = Call (Lib A_MPI_Barrier) (\<lambda>_. Ret w)"

definition armci_SendData :: "nat \<Rightarrow> armci_world \<Rightarrow> armci_world armci_prog" where
  "armci_SendData fuel w =
     (let p_bytes = nat (bufflen (p_of w));
          buf_offset = nbor_r_buff_offset (glob w) + (int (s_ptr (p_of w)) - int (s_buff (p_of w))) in
      andThen (lift (remote_ptr fuel (r_buff_orig (p_of w)) w)) (\<lambda>a.
      let remote_buff = nat (int a + buf_offset) in
      Call (Put remote_buff (s_ptr (p_of w)) p_bytes (anbor (prot (p_of w)))) (\<lambda>_.
      Call (Lib Armci_AllFence) (\<lambda>_. Ret w))))"

definition armci_RecvData :: "armci_world \<Rightarrow> armci_world armci_prog" where
  "armci_RecvData w =
     (let a = nat (int (r_ptr (p_of w)) + bufflen (p_of w) - 1) in
      Call (Spin a [word_of_int (97 + (if cache (p_of w) \<noteq> 0 then 1 - tr (p_of w) else 1))]) (\<lambda>_.
      Call (Store a [word_of_int (97 + (if cache (p_of w) \<noteq> 0 then tr (p_of w) else 0))]) (\<lambda>_. Ret w)))"

definition armci_SendTime :: "nat \<Rightarrow> (real \<Rightarrow> byte list) \<Rightarrow> real \<Rightarrow> armci_world \<Rightarrow> armci_world armci_prog" where
  "armci_SendTime fuel enc t w =
     Call (Store (apTime (glob w)) (enc t)) (\<lambda>_.
     andThen (lift (remote_ptr fuel (apTime (glob w)) w)) (\<lambda>a.
     Call (Put a (apTime (glob w)) 8 (anbor (prot (p_of w)))) (\<lambda>_.
     andThen (lift (remote_ptr fuel (aflag (prot (p_of w))) w)) (\<lambda>a.
     Call (Put a (aflag (prot (p_of w))) 4 (anbor (prot (p_of w)))) (\<lambda>_. Ret w)))))"

definition armci_RecvTime :: "(byte list \<Rightarrow> real) \<Rightarrow> armci_world \<Rightarrow> (real \<times> armci_world) armci_prog" where
  "armci_RecvTime dec w =
     Call (Spin (aflag (prot (p_of w))) (int_bytes (aipe (prot (p_of w))))) (\<lambda>_.
     Call (Load (apTime (glob w)) 8) (\<lambda>r.
     Call (Store (aflag (prot (p_of w))) (int_bytes (anbor (prot (p_of w))))) (\<lambda>_. Ret (dec (obytes r), w))))"

definition armci_SendRepeat :: "nat \<Rightarrow> u32 \<Rightarrow> armci_world \<Rightarrow> armci_world armci_prog" where
  "armci_SendRepeat fuel rpt w =
     Call (Store (apNrepeat (glob w)) (le_bytes rpt)) (\<lambda>_.
     andThen (lift (remote_ptr fuel (apNrepeat (glob w)) w)) (\<lambda>a.
     Call (Put a (apNrepeat (glob w)) 4 (anbor (prot (p_of w)))) (\<lambda>_.
     andThen (lift (remote_ptr fuel (aflag (prot (p_of w))) w)) (\<lambda>a.
     Call (Put a (aflag (prot (p_of w))) 4 (anbor (prot (p_of w)))) (\<lambda>_. Ret w)))))"

definition armci_RecvRepeat :: "armci_world \<Rightarrow> (u32 \<times> armci_world) armci_prog" where
  "armci_RecvRepeat w =
     Call (Spin (aflag (prot (p_of w))) (int_bytes (aipe (prot (p_of w))))) (\<lambda>_.
     Call (Load (apNrepeat (glob w)) 4) (\<lambda>r.
     Call (Store (aflag (prot (p_of w))) (int_bytes (anbor (prot (p_of w))))) (\<lambda>_. Ret (le_word (obytes r), w))))"

definition armci_CleanUp :: "armci_world \<Rightarrow> armci_world armci_prog" where
  "armci_CleanUp w = Call (Lib Armci_Finalize) (\<lambda>_. Ret w)"

definition armci_AfterAlignmentInit :: "armci_world \<Rightarrow> armci_world armci_prog" where
  "armci_AfterAlignmentInit w =
     (let my_r_buff_offset = int (r_buff (p_of w)) - int (r_buff_orig (p_of w)) in
      Call (Lib (A_MPI_Send (int_bytes my_r_buff_offset) (anbor (prot (p_of w))) 0)) (\<lambda>_.
      Call (Lib (A_MPI_Recv 4 (anbor (prot (p_of w))) 0)) (\<lambda>r.
      Ret (upd_glob (\<lambda>g. g\<lparr>nbor_r_buff_offset := sint (le_word (obytes r))\<rparr>) w))))"

definition armci_MyMalloc :: "allocator \<Rightarrow> int \<Rightarrow> int \<Rightarrow> int \<Rightarrow> armci_world \<Rightarrow> armci_world armci_prog" where
  "armci_MyMalloc alloc len soff roff w =
     andThen (armci_malloc alloc (len + CMAX soff roff) w) (\<lambda>(a, w).
     let w = upd_args (\<lambda>p. p\<lparr>r_buff := a\<rparr>) w in
     if cache (p_of w) = 0
     then andThen (armci_malloc alloc (len + soff) w) (\<lambda>(a, w). Ret (upd_args (\<lambda>p. p\<lparr>s_buff := a\<rparr>) w))
     else Ret w)"

definition armci_FreeBuff :: "nat \<Rightarrow> addr \<Rightarrow> addr \<Rightarrow> armci_world \<Rightarrow> armci_world armci_prog" where
  "armci_FreeBuff fuel buff1 buff2 w =
     andThen (if buff1 \<noteq> NULL then armci_free fuel buff1 w else Ret w) (\<lambda>w.
     if buff2 \<noteq> NULL then armci_free fuel buff2 w else Ret w)"

text \<open>A line as \<open>fgets\<close> leaves it in the buffer loses its newline.\<close>

lemma chop_line: "10 \<notin> set l \<Longrightarrow> 0 \<notin> set l \<Longrightarrow> chop (l @ [10, 0] @ rest) = Inr (l @ [0, 0] @ rest)"
  by (induction l) auto

lemma chop_c_string: "10 \<notin> set l \<Longrightarrow> 0 \<notin> set l \<Longrightarrow>
    \<exists>buf. chop (l @ [10, 0] @ rest) = Inr buf \<and> c_string buf = l"
  by (rule exI [of _ "l @ [0, 0] @ rest"], rule conjI, rule chop_line, assumption+)
    (auto simp: c_string_def takeWhile_append)

section \<open>The list as a table of segments\<close>

text \<open>A segment: its address on either process and its size.\<close>

type_synonym seg = "addr \<times> addr \<times> int"

definition on_pe :: "int \<Rightarrow> seg \<Rightarrow> addr" where
  "on_pe i s = (if i = 0 then fst s else fst (snd s))"

definition seg_of :: "mnode \<Rightarrow> seg" where
  "seg_of n = (ptrs0 n, ptrs1 n, nbytes n)"

text \<open>The nodes from \<open>a\<close> up to \<open>b\<close>.\<close>

fun lseg :: "(addr \<Rightarrow> mnode option) \<Rightarrow> addr \<Rightarrow> addr list \<Rightarrow> addr \<Rightarrow> bool" where
  "lseg ns a [] b \<longleftrightarrow> a = b"
| "lseg ns a (x # xs) b \<longleftrightarrow> a = x \<and> x \<noteq> NULL \<and> (case ns x of None \<Rightarrow> False | Some n \<Rightarrow> lseg ns (nxt n) xs b)"

definition segs :: "(addr \<Rightarrow> mnode option) \<Rightarrow> addr list \<Rightarrow> seg list" where
  "segs ns xs = map (\<lambda>x. seg_of (the (ns x))) xs"

text \<open>The list of a process in good order, standing for the table \<open>ss\<close>.\<close>

definition table :: "armci_world \<Rightarrow> seg list \<Rightarrow> bool" where
  "table w ss \<longleftrightarrow> (mype (glob w) = 0 \<or> mype (glob w) = 1) \<and>
     (\<exists>xs. lseg (nodes (glob w)) (m_first (glob w)) xs NULL \<and> distinct xs \<and>
        set xs \<subseteq> fst ` set (hblocks (heap w)) \<and> ss = segs (nodes (glob w)) xs)"

fun locate :: "('a \<Rightarrow> bool) \<Rightarrow> 'a \<Rightarrow> 'a list \<Rightarrow> ('a \<times> 'a) option" where
  "locate P p [] = None"
| "locate P p (x # xs) = (if P x then Some (x, p) else locate P x xs)"

fun remove_first :: "('a \<Rightarrow> bool) \<Rightarrow> 'a list \<Rightarrow> 'a list" where
  "remove_first P [] = []"
| "remove_first P (x # xs) = (if P x then xs else x # remove_first P xs)"

lemma lseg_append: "lseg ns a (xs @ ys) b \<longleftrightarrow> (\<exists>c. lseg ns a xs c \<and> lseg ns c ys b)"
  by (induction xs arbitrary: a) (auto split: option.splits)

lemma lseg_upd [simp]: "x \<notin> set xs \<Longrightarrow> lseg (ns(x \<mapsto> n)) a xs b = lseg ns a xs b"
  by (induction xs arbitrary: a) (auto split: option.splits)

lemma segs_upd [simp]: "x \<notin> set xs \<Longrightarrow> segs (ns(x \<mapsto> n)) xs = segs ns xs"
  by (auto simp: segs_def)

lemma segs_simps [simp]: "segs ns [] = []" "segs ns (x # xs) = seg_of (the (ns x)) # segs ns xs"
  "segs ns (xs @ ys) = segs ns xs @ segs ns ys"
  by (simp_all add: segs_def)

lemma ptrs_on_pe: "i = 0 \<or> i = 1 \<Longrightarrow> ptrs n i = Inr (on_pe i (seg_of n))"
  by (auto simp: ptrs_def on_pe_def seg_of_def)

lemma locate_Some: "locate P p xs = Some (x, q) \<Longrightarrow> \<exists>ys zs. xs = ys @ x # zs \<and> P x \<and> (\<forall>y \<in> set ys. \<not> P y) \<and> q = last (p # ys)"
proof (induction xs arbitrary: p)
  case (Cons y xs)
  show ?case
  proof (cases "P y")
    case True
    then show ?thesis using Cons.prems by (intro exI [of _ "[]"] exI [of _ xs]) auto
  next
    case False
    then have "locate P y xs = Some (x, q)" using Cons.prems by simp
    then obtain ys zs where "xs = ys @ x # zs \<and> P x \<and> (\<forall>y \<in> set ys. \<not> P y) \<and> q = last (y # ys)" using Cons.IH by blast
    with False show ?thesis by (intro exI [of _ "y # ys"] exI [of _ zs]) auto
  qed
qed simp

lemma locate_find: "map_option fst (locate P p xs) = find P xs"
  by (induction xs arbitrary: p) auto

lemma mfind_loop_locate:
  assumes "mype g = 0 \<or> mype g = 1"
  shows "lseg (nodes g) n xs NULL \<Longrightarrow> length xs < fuel \<Longrightarrow>
    mfind_loop fuel g ptr p n = (case locate (\<lambda>x. on_pe (mype g) (seg_of (the (nodes g x))) = ptr) p xs of
      None \<Rightarrow> Inl (Exit (- 1)) | Some y \<Rightarrow> Inr y)"
proof (induction xs arbitrary: p n fuel)
  case Nil
  then show ?case by (cases fuel) auto
next
  case (Cons x xs)
  then show ?case by (cases fuel) (auto simp: node_at_def ptrs_on_pe [OF assms] split: option.splits)
qed

text \<open>\<open>mfind\<close> looks the segment up; on an empty list it returns a null pointer.\<close>

lemma mfind_locate:
  assumes "mype g = 0 \<or> mype g = 1" and "lseg (nodes g) (m_first g) xs NULL" and "length xs \<le> fuel"
  shows "mfind fuel g ptr = (if xs = [] then Inr (NULL, NULL)
    else case locate (\<lambda>x. on_pe (mype g) (seg_of (the (nodes g x))) = ptr) NULL xs of
      None \<Rightarrow> Inl (Exit (- 1)) | Some y \<Rightarrow> Inr y)"
proof (cases xs)
  case Nil
  then show ?thesis using assms by (simp add: mfind_def)
next
  case (Cons x ys)
  with assms obtain n where n: "m_first g = x" "x \<noteq> NULL" "nodes g x = Some n" "lseg (nodes g) (nxt n) ys NULL"
    by (auto split: option.splits)
  with Cons assms show ?thesis
    using mfind_loop_locate [OF assms(1) n(4), of fuel ptr x]
    by (simp add: mfind_def node_at_def ptrs_on_pe [OF assms(1)])
qed

text \<open>\<open>munlink\<close> takes the node out and keeps the others in their order.\<close>

lemma munlink_removes:
  assumes l: "lseg (nodes g) (m_first g) (ys @ x # zs) NULL" and d: "distinct (ys @ x # zs)"
  shows "\<exists>g'. munlink x (last (NULL # ys)) g = Inr g' \<and> lseg (nodes g') (m_first g') (ys @ zs) NULL \<and>
    segs (nodes g') (ys @ zs) = segs (nodes g) (ys @ zs) \<and> mype g' = mype g"
proof (cases ys rule: rev_cases)
  case Nil
  then show ?thesis using l by (auto simp: munlink_def node_at_def split: option.splits)
next
  case (snoc us q)
  with l obtain nq n where q: "q \<noteq> NULL" "nodes g q = Some nq" "nxt nq = x" "x \<noteq> NULL" "nodes g x = Some n"
    "lseg (nodes g) (m_first g) us q" "lseg (nodes g) (nxt n) zs NULL"
    by (auto simp: lseg_append split: option.splits)
  let ?g = "g\<lparr>nodes := (nodes g)(q \<mapsto> nq\<lparr>nxt := nxt n\<rparr>)\<rparr>"
  have "munlink x (last (NULL # ys)) g = Inr ?g" using q snoc by (simp add: munlink_def node_at_def)
  moreover have "lseg (nodes ?g) (m_first ?g) (ys @ zs) NULL" using q d snoc by (simp add: lseg_append)
  moreover have "segs (nodes ?g) (ys @ zs) = segs (nodes g) (ys @ zs)"
    using d snoc q by (simp add: seg_of_def)
  ultimately show ?thesis by auto
qed

lemma find_segs: "find (\<lambda>s. P s) (segs ns xs) = map_option (\<lambda>x. seg_of (the (ns x))) (find (\<lambda>x. P (seg_of (the (ns x)))) xs)"
  by (induction xs) auto

lemma remove_first_append: "\<forall>y \<in> set ys. \<not> P y \<Longrightarrow> P x \<Longrightarrow> remove_first P (ys @ x # zs) = ys @ zs"
  by (induction ys) auto

lemma remote_ptr_table:
  assumes t: "table w ss" and f: "length ss \<le> fuel"
  shows "remote_ptr fuel p w = (if ss = [] then Inr NULL
    else case find (\<lambda>s. on_pe (mype (glob w)) s = p) ss of
      None \<Rightarrow> Inl (Exit (- 1)) | Some s \<Rightarrow> Inr (on_pe (1 - mype (glob w)) s))"
proof -
  let ?g = "glob w"
  from t obtain xs where m: "mype ?g = 0 \<or> mype ?g = 1" and xs: "lseg (nodes ?g) (m_first ?g) xs NULL" "ss = segs (nodes ?g) xs"
    by (auto simp: table_def)
  have m': "1 - mype ?g = 0 \<or> 1 - mype ?g = 1" using m by auto
  let ?P = "\<lambda>x. on_pe (mype ?g) (seg_of (the (nodes ?g x))) = p"
  have find: "find (\<lambda>s. on_pe (mype ?g) s = p) ss = map_option (\<lambda>x. seg_of (the (nodes ?g x))) (find ?P xs)"
    using find_segs xs(2) by simp
  have mf: "mfind fuel ?g p = (if xs = [] then Inr (NULL, NULL) else case locate ?P NULL xs of None \<Rightarrow> Inl (Exit (- 1)) | Some y \<Rightarrow> Inr y)"
    using mfind_locate [OF m xs(1)] f xs(2) by (simp add: segs_def)
  show ?thesis
  proof (cases "locate ?P NULL xs")
    case None
    then have "find ?P xs = None" using locate_find [of ?P NULL xs] by simp
    with None show ?thesis using find by (cases xs) (auto simp: remote_ptr_def mf xs(2))
  next
    case (Some y)
    then obtain x q where y: "y = (x, q)" "locate ?P NULL xs = Some (x, q)" by (cases y) auto
    then have fx: "find ?P xs = Some x" using locate_find [of ?P NULL xs] by simp
    obtain ys zs where z: "xs = ys @ x # zs" using locate_Some [OF y(2)] by auto
    with xs(1) obtain n where n: "x \<noteq> NULL" "nodes ?g x = Some n" by (auto simp: lseg_append split: option.splits)
    have "ss \<noteq> []" "mfind fuel ?g p = Inr (x, q)" using z xs(2) mf y by simp_all
    moreover have "find (\<lambda>s. on_pe (mype ?g) s = p) ss = Some (seg_of n)" using find fx n by simp
    ultimately show ?thesis using n by (simp add: remote_ptr_def node_at_def ptrs_on_pe [OF m'])
  qed
qed

lemma armci_free_table:
  assumes t: "table w ss" and f: "length ss \<le> fuel" and s: "find (\<lambda>s. on_pe (mype (glob w)) s = p) ss = Some s"
  shows "\<exists>w'. armci_free fuel p w = Call (Lib (Armci_Free p)) (\<lambda>_. Ret w') \<and>
    table w' (remove_first (\<lambda>s. on_pe (mype (glob w)) s = p) ss) \<and> self w' = self w \<and> heap w' = heap w \<and>
    mype (glob w') = mype (glob w)"
proof -
  let ?g = "glob w"
  from t obtain xs where m: "mype ?g = 0 \<or> mype ?g = 1" and xs: "lseg (nodes ?g) (m_first ?g) xs NULL"
    "ss = segs (nodes ?g) xs" "distinct xs" "set xs \<subseteq> fst ` set (hblocks (heap w))"
    by (auto simp: table_def)
  let ?P = "\<lambda>x. on_pe (mype ?g) (seg_of (the (nodes ?g x))) = p"
  have "find ?P xs \<noteq> None" using s find_segs [of "\<lambda>s. on_pe (mype ?g) s = p" "nodes ?g" xs] xs(2) by auto
  then obtain x q where l: "locate ?P NULL xs = Some (x, q)" using locate_find [of ?P NULL xs] by fastforce
  obtain ys zs where z: "xs = ys @ x # zs" "?P x" "\<forall>y \<in> set ys. \<not> ?P y" "q = last (NULL # ys)" using locate_Some [OF l] by auto
  obtain g' where g': "munlink x q ?g = Inr g'" "lseg (nodes g') (m_first g') (ys @ zs) NULL"
    "segs (nodes g') (ys @ zs) = segs (nodes ?g) (ys @ zs)" "mype g' = mype ?g"
    using munlink_removes [of ?g ys x zs] xs z by auto
  have mf: "mfind fuel ?g p = Inr (x, q)"
    using mfind_locate [OF m xs(1)] f xs(2) z(1) l by (simp add: segs_def)
  have "x \<noteq> NULL" using xs(1) z(1) by (auto simp: lseg_append)
  then have "armci_free fuel p w = Call (Lib (Armci_Free p)) (\<lambda>_. Ret (w\<lparr>glob := g'\<rparr>))"
    using mf g' by (simp add: armci_free_def)
  moreover have "remove_first (\<lambda>s. on_pe (mype ?g) s = p) ss = segs (nodes g') (ys @ zs)"
  proof -
    have "remove_first (\<lambda>s. on_pe (mype ?g) s = p) ss = segs (nodes ?g) ys @ segs (nodes ?g) zs"
      unfolding xs(2) z(1) segs_simps by (rule remove_first_append) (use z in \<open>auto simp: segs_def\<close>)
    then show ?thesis using g'(3) by simp
  qed
  moreover have "table (w\<lparr>glob := g'\<rparr>) (segs (nodes g') (ys @ zs))"
    unfolding table_def using g' m xs(3,4) z(1) by (intro conjI exI [of _ "ys @ zs"]) auto
  ultimately show ?thesis using g'(4) by (intro exI [of _ "w\<lparr>glob := g'\<rparr>"]) simp
qed

lemma armci_malloc_table:
  assumes a: "alloc_ok alloc" "alloc (heap w) 32 \<noteq> NULL" and t: "table w ss" and r: "oaddrs r = [a0, a1]"
  shows "\<exists>w'. feed (armci_malloc alloc n w) [r] []
      = (Ret (on_pe (mype (glob w)) (a0, a1, n), w'), [Lib (Armci_Malloc (unat (size_t n)))]) \<and>
    table w' ((a0, a1, n) # ss) \<and> self w' = self w \<and> mype (glob w') = mype (glob w)"
proof -
  let ?g = "glob w" and ?node = "alloc (heap w) 32"
  let ?h = "(heap w)\<lparr>hblocks := (?node, 32) # hblocks (heap w)\<rparr>"
  have mal: "malloc alloc (heap w) 32 = (?node, ?h)" using a(2) by (simp add: malloc_def Let_def)
  from t obtain xs where m: "mype ?g = 0 \<or> mype ?g = 1" and xs: "lseg (nodes ?g) (m_first ?g) xs NULL"
    "ss = segs (nodes ?g) xs" "distinct xs" "set xs \<subseteq> fst ` set (hblocks (heap w))"
    by (auto simp: table_def)
  have fresh: "?node \<notin> set xs" using malloc_fresh(3) [OF a(1) mal a(2)] xs(4) by fastforce
  let ?x = "\<lparr>ptrs0 = a0, ptrs1 = a1, nbytes = n, nxt = m_first ?g\<rparr>"
  let ?w = "w\<lparr>heap := ?h, glob := ?g\<lparr>nodes := (nodes ?g)(?node \<mapsto> ?x), m_first := ?node\<rparr>\<rparr>"
  have "feed (armci_malloc alloc n w) [r] []
      = (Ret (on_pe (mype ?g) (a0, a1, n), ?w), [Lib (Armci_Malloc (unat (size_t n)))])"
    using mal a(2) r m
    by (auto simp: armci_malloc_def mlink_front_def node_at_def Let_def ptrs_def on_pe_def upd_heap_def)
  moreover have "table ?w ((a0, a1, n) # ss)"
    unfolding table_def using m xs fresh a(2)
    by (intro conjI exI [of _ "?node # xs"]) (auto simp: seg_of_def simp del: neq0_conv)
  ultimately show ?thesis by (intro exI [of _ ?w]) auto
qed

section \<open>The calls in terms of shared memory and of messages\<close>

fun armci_lib :: "armci_call \<Rightarrow> (cheap, delivery, os_reply) oview" where
  "armci_lib Armci_AllFence = OFence os_ok"
| "armci_lib (Armci_Free a) = OSync os_ok"
| "armci_lib _ = ONone"

abbreviation armci_view :: "armci_world \<Rightarrow> armci_call os_ev \<Rightarrow> (cheap, delivery, os_reply) oview" where
  "armci_view w \<equiv> os_view armci_lib (anbor (prot (p_of w)))"

fun armci_msgs :: "int \<Rightarrow> armci_call os_ev \<Rightarrow> os_reply mview" where
  "armci_msgs peer (Lib (A_MPI_Send bs d tag)) = (if d = peer then VSend False (tag, bs) os_ok else VNone)"
| "armci_msgs peer (Lib (A_MPI_Recv n src tag)) =
     (if src = peer then VRecv (\<lambda>y. y = tag) (\<lambda>bs. length bs \<le> n) (\<lambda>bs. os_ok\<lparr>obytes := bs\<rparr>) else VNone)"
| "armci_msgs peer _ = VNone"

text \<open>The table of process \<open>i\<close> says that its address \<open>a\<close> is \<open>b\<close> on the other process.\<close>

definition refers :: "seg list \<Rightarrow> int \<Rightarrow> addr \<Rightarrow> addr \<Rightarrow> bool" where
  "refers ss i a b \<longleftrightarrow> map_option (on_pe (1 - i)) (find (\<lambda>s. on_pe i s = a) ss) = Some b"

lemma remote_ptr_refers:
  "table w ss \<Longrightarrow> length ss \<le> fuel \<Longrightarrow> refers ss (mype (glob w)) a b \<Longrightarrow> remote_ptr fuel a w = Inr b"
  by (cases ss) (auto simp: remote_ptr_table refers_def split: option.splits if_splits)

definition armci_idle :: "armci_world \<Rightarrow> cheap \<Rightarrow> bool" where
  "armci_idle w h \<longleftrightarrow> (let f = aflag (prot (p_of w)) in
     valid h f 4 \<and> valid h (apTime (glob w)) 8 \<and> valid h (apNrepeat (glob w)) 4 \<and>
     disjoint_ranges (apTime (glob w)) 8 f 4 \<and> disjoint_ranges (apNrepeat (glob w)) 4 f 4 \<and>
     load h f 4 = int_bytes (anbor (prot (p_of w))))"

definition armci_linked :: "nat \<Rightarrow> seg list \<Rightarrow> armci_world \<Rightarrow> armci_world \<Rightarrow> bool" where
  "armci_linked fuel ss w1 w2 \<longleftrightarrow> table w1 ss \<and> length ss \<le> fuel \<and>
     refers ss (mype (glob w1)) (aflag (prot (p_of w1))) (aflag (prot (p_of w2))) \<and>
     refers ss (mype (glob w1)) (apTime (glob w1)) (apTime (glob w2)) \<and>
     refers ss (mype (glob w1)) (apNrepeat (glob w1)) (apNrepeat (glob w2)) \<and>
     anbor (prot (p_of w1)) = aipe (prot (p_of w2)) \<and> anbor (prot (p_of w2)) = aipe (prot (p_of w1)) \<and>
     int_bytes (aipe (prot (p_of w1))) \<noteq> int_bytes (aipe (prot (p_of w2)))"

lemma armci_idleD:
  assumes "armci_idle w h"
  shows "valid h (aflag (prot (p_of w))) 4" "valid h (apTime (glob w)) 8" "valid h (apNrepeat (glob w)) 4"
    "disjoint_ranges (apTime (glob w)) 8 (aflag (prot (p_of w))) 4"
    "disjoint_ranges (apNrepeat (glob w)) 4 (aflag (prot (p_of w))) 4"
    "load h (aflag (prot (p_of w))) 4 = int_bytes (anbor (prot (p_of w)))"
  using assms by (simp_all add: armci_idle_def Let_def)

lemma armci_linked_ptrs:
  assumes "armci_linked fuel ss w1 w2"
  shows "remote_ptr fuel (aflag (prot (p_of w1))) w1 = Inr (aflag (prot (p_of w2)))"
    "remote_ptr fuel (apTime (glob w1)) w1 = Inr (apTime (glob w2))"
    "remote_ptr fuel (apNrepeat (glob w1)) w1 = Inr (apNrepeat (glob w2))"
  using assms remote_ptr_refers [of w1 ss fuel] unfolding armci_linked_def by blast+

lemma armci_SendRepeat_hands_over:
  "armci_linked fuel ss w1 w2 \<Longrightarrow> armci_SendRepeat fuel n w1 = hand_over (apNrepeat (glob w1)) (aflag (prot (p_of w1)))
     (apNrepeat (glob w2)) (aflag (prot (p_of w2))) (anbor (prot (p_of w1))) (le_bytes n) (Ret w1)"
  by (simp add: armci_SendRepeat_def hand_over_def armci_linked_ptrs)

lemma armci_SendTime_hands_over:
  "armci_linked fuel ss w1 w2 \<Longrightarrow> length (enc t) = 8 \<Longrightarrow>
   armci_SendTime fuel enc t w1 = hand_over (apTime (glob w1)) (aflag (prot (p_of w1)))
     (apTime (glob w2)) (aflag (prot (p_of w2))) (anbor (prot (p_of w1))) (enc t) (Ret w1)"
  by (simp add: armci_SendTime_def hand_over_def armci_linked_ptrs)

lemma armci_RecvRepeat_takes_over:
  "armci_RecvRepeat w = take_over (apNrepeat (glob w)) (aflag (prot (p_of w))) 4 (int_bytes (aipe (prot (p_of w))))
     (int_bytes (anbor (prot (p_of w)))) (\<lambda>b. Ret (le_word b, w))"
  by (simp add: armci_RecvRepeat_def take_over_def)

lemma armci_RecvTime_takes_over:
  "armci_RecvTime dec w = take_over (apTime (glob w)) (aflag (prot (p_of w))) 8 (int_bytes (aipe (prot (p_of w))))
     (int_bytes (anbor (prot (p_of w)))) (\<lambda>b. Ret (dec b, w))"
  by (simp add: armci_RecvTime_def take_over_def)

section \<open>Correctness\<close>

text \<open>
  C19: The linked list implements a table of segments.  On a list in good order,
  \<open>armci_malloc\<close> enters the new segment and returns its local address, \<open>remote_ptr\<close> returns the
  remote address of the segment with the given local address (a null pointer on an empty list, an
  error exit when it is not there), and \<open>armci_free\<close> takes out exactly that segment; the list
  stays in good order.  As many rounds of the search loop as there are segments are enough.
\<close>

theorem armci_list_refines_table:
  assumes "table w ss" and "length ss \<le> fuel" and "alloc_ok alloc" and "alloc (heap w) 32 \<noteq> NULL"
  shows "(oaddrs r = [a0, a1] \<longrightarrow> (\<exists>w'. feed (armci_malloc alloc n w) [r] []
        = (Ret (on_pe (mype (glob w)) (a0, a1, n), w'), [Lib (Armci_Malloc (unat (size_t n)))]) \<and> table w' ((a0, a1, n) # ss))) \<and>
    remote_ptr fuel p w = (if ss = [] then Inr NULL
      else case find (\<lambda>s. on_pe (mype (glob w)) s = p) ss of
        None \<Rightarrow> Inl (Exit (- 1)) | Some s \<Rightarrow> Inr (on_pe (1 - mype (glob w)) s)) \<and>
    (find (\<lambda>s. on_pe (mype (glob w)) s = p) ss \<noteq> None \<longrightarrow>
      (\<exists>w'. armci_free fuel p w = Call (Lib (Armci_Free p)) (\<lambda>_. Ret w') \<and>
        table w' (remove_first (\<lambda>s. on_pe (mype (glob w)) s = p) ss)))"
  using armci_malloc_table [OF assms(3,4,1), of r a0 a1 n] remote_ptr_table [OF assms(1,2), of p]
    armci_free_table [OF assms(1,2), of p] by fastforce

text \<open>
  Handing over a repeat count and a time over ARMCI, with the remote addresses looked up in the
  list: when the tables of the two processes belong together, the flags show the number of the
  other process and puts arrive in order, every run ends with the receiver returning the sender's
  value, and with both memories unchanged but for the variable.
\<close>

theorem armci_hand_over_correct:
  assumes "armci_linked fuel ss w1 w2" and "armci_idle w1 h1" and "armci_idle w2 h2"
    and "length (enc t) = 8" and "dec (enc t) = t"
  shows "ends_in (opair_step True deliver (armci_view w1) (armci_view w2))
      (\<lambda>s. s = opair_of (Ret w1) (store h1 (apNrepeat (glob w1)) (le_bytes n))
                        (Ret (n, w2)) (store h2 (apNrepeat (glob w2)) (le_bytes n)))
      (opair_of (armci_SendRepeat fuel n w1) h1 (armci_RecvRepeat w2) h2) \<and>
    ends_in (opair_step True deliver (armci_view w1) (armci_view w2))
      (\<lambda>s. s = opair_of (Ret w1) (store h1 (apTime (glob w1)) (enc t)) (Ret (t, w2)) (store h2 (apTime (glob w2)) (enc t)))
      (opair_of (armci_SendTime fuel enc t w1) h1 (armci_RecvTime dec w2) h2)"
proof (rule conjI)
  let ?me = "int_bytes (aipe (prot (p_of w2)))" and ?other = "int_bytes (anbor (prot (p_of w2)))"
  note l = assms(1) [unfolded armci_linked_def] and i1 = armci_idleD [OF assms(2)] and i2 = armci_idleD [OF assms(3)]
  show "ends_in (opair_step True deliver (armci_view w1) (armci_view w2))
      (\<lambda>s. s = opair_of (Ret w1) (store h1 (apNrepeat (glob w1)) (le_bytes n))
                        (Ret (n, w2)) (store h2 (apNrepeat (glob w2)) (le_bytes n)))
      (opair_of (armci_SendRepeat fuel n w1) h1 (armci_RecvRepeat w2) h2)"
    unfolding armci_SendRepeat_hands_over [OF assms(1)] armci_RecvRepeat_takes_over
    using handed_over [of "le_bytes n" 4 ?me ?other h1 "apNrepeat (glob w1)" "aflag (prot (p_of w1))"
        h2 "apNrepeat (glob w2)" "aflag (prot (p_of w2))"
        armci_lib "anbor (prot (p_of w1))" armci_lib "anbor (prot (p_of w2))" w1 "\<lambda>b. (le_word b, w2)"]
      flag_restored [OF i2(6), of "apNrepeat (glob w2)" "le_bytes n"] l i1 i2 by simp
  show "ends_in (opair_step True deliver (armci_view w1) (armci_view w2))
      (\<lambda>s. s = opair_of (Ret w1) (store h1 (apTime (glob w1)) (enc t)) (Ret (t, w2)) (store h2 (apTime (glob w2)) (enc t)))
      (opair_of (armci_SendTime fuel enc t w1) h1 (armci_RecvTime dec w2) h2)"
    unfolding armci_SendTime_hands_over [OF assms(1), of enc t, OF assms(4)] armci_RecvTime_takes_over
    using handed_over [of "enc t" 8 ?me ?other h1 "apTime (glob w1)" "aflag (prot (p_of w1))"
        h2 "apTime (glob w2)" "aflag (prot (p_of w2))"
        armci_lib "anbor (prot (p_of w1))" armci_lib "anbor (prot (p_of w2))" w1 "\<lambda>b. (dec b, w2)"]
      flag_restored [OF i2(6), of "apTime (glob w2)" "enc t"] l i1 i2 assms(4,5) by simp
qed

text \<open>The offset of the aligned receive buffer.\<close>

definition r_offset :: "armci_world \<Rightarrow> int" where
  "r_offset w = int (r_buff (p_of w)) - int (r_buff_orig (p_of w))"

text \<open>
  C27: The exchange of the buffer offsets in \<open>AfterAlignmentInit\<close>, where both processes first send
  and then receive.  When the MPI library buffers the two messages, every run ends with each
  process knowing the offset of the other; when it does not, every run ends with both processes
  waiting in their \<open>MPI_Send\<close> for ever.
\<close>

theorem armci_offset_exchange:
  fixes w1 w2 :: armci_world
  shows "((\<forall>m. eager m) \<longrightarrow> ends_in (mpair_step (armci_msgs (anbor (prot (p_of w1)))) (armci_msgs (anbor (prot (p_of w2)))) eager)
      (mboth_done (\<lambda>w. w = upd_glob (\<lambda>g. g\<lparr>nbor_r_buff_offset := sint (word_of_int (r_offset w2) :: u32)\<rparr>) w1)
                  (\<lambda>w. w = upd_glob (\<lambda>g. g\<lparr>nbor_r_buff_offset := sint (word_of_int (r_offset w1) :: u32)\<rparr>) w2))
      (mpair_init (armci_AfterAlignmentInit w1) (armci_AfterAlignmentInit w2))) \<and>
    ((\<forall>m. \<not> eager m) \<longrightarrow> ends_in (mpair_step (armci_msgs (anbor (prot (p_of w1)))) (armci_msgs (anbor (prot (p_of w2)))) eager)
      (\<lambda>s. (\<exists>k. mprog1 s = Call (Lib (A_MPI_Send (int_bytes (r_offset w1)) (anbor (prot (p_of w1))) 0)) k) \<and>
           (\<exists>k. mprog2 s = Call (Lib (A_MPI_Send (int_bytes (r_offset w2)) (anbor (prot (p_of w2))) 0)) k))
      (mpair_init (armci_AfterAlignmentInit w1) (armci_AfterAlignmentInit w2)))"
proof -
  let ?v1 = "armci_msgs (anbor (prot (p_of w1)))" and ?v2 = "armci_msgs (anbor (prot (p_of w2)))"
  let ?e1 = "Lib (A_MPI_Send (int_bytes (r_offset w1)) (anbor (prot (p_of w1))) 0)" and ?e2 = "Lib (A_MPI_Send (int_bytes (r_offset w2)) (anbor (prot (p_of w2))) 0)"
  let ?f1 = "Lib (A_MPI_Recv 4 (anbor (prot (p_of w1))) 0)" and ?f2 = "Lib (A_MPI_Recv 4 (anbor (prot (p_of w2))) 0)"
  let ?g = "\<lambda>w r. upd_glob (\<lambda>g. g\<lparr>nbor_r_buff_offset := sint (le_word (obytes r))\<rparr>) w"
  have p: "armci_AfterAlignmentInit w1 = Call ?e1 (\<lambda>_. Call ?f1 (\<lambda>r. Ret (?g w1 r)))"
    "armci_AfterAlignmentInit w2 = Call ?e2 (\<lambda>_. Call ?f2 (\<lambda>r. Ret (?g w2 r)))"
    by (simp_all add: armci_AfterAlignmentInit_def r_offset_def)
  have views: "?v1 ?e1 = VSend False (0, int_bytes (r_offset w1)) os_ok" "?v2 ?e2 = VSend False (0, int_bytes (r_offset w2)) os_ok"
    "?v1 ?f1 = VRecv (\<lambda>y. y = 0) (\<lambda>bs. length bs \<le> 4) (\<lambda>bs. os_ok\<lparr>obytes := bs\<rparr>)"
    "?v2 ?f2 = VRecv (\<lambda>y. y = 0) (\<lambda>bs. length bs \<le> 4) (\<lambda>bs. os_ok\<lparr>obytes := bs\<rparr>)" by simp_all
  show ?thesis
    unfolding p
    using crossed_eager [where ?view1.0 = ?v1 and ?view2.0 = ?v2 and ?e1.0 = ?e1 and ?e2.0 = ?e2 and ?f1.0 = ?f1 and ?f2.0 = ?f2
        and ?g1.0 = "?g w1" and ?g2.0 = "?g w2", OF views(1,3) _ _ views(2,4), of eager]
      crossed_blocked [where ?view1.0 = ?v1 and ?view2.0 = ?v2 and ?e1.0 = ?e1 and ?e2.0 = ?e2 and ?f1.0 = ?f1 and ?f2.0 = ?f2
        and ?g1.0 = "?g w1" and ?g2.0 = "?g w2", OF views(1,3) _ _ views(2,4), of eager]
    by (simp add: int_bytes_def)
qed

section \<open>Examples\<close>

text \<open>Two processes with the flag, the time and the repeat count as their segments.\<close>

definition armci_start :: "int \<Rightarrow> armci_world" where
  "armci_start i = \<lparr>self = \<lparr>args = (zero_args \<lparr>anbor = 1 - i, aipe = i, aflag = (if i = 0 then 16 else 116)\<rparr>)\<lparr>tr := 1 - i, rcv := i\<rparr>,
     outname = [], len_buf_align = 0, asyncReceive = 0, bufalign = 0, streamopt = 0, integCheck = 0\<rparr>,
     heap = \<lparr>hbytes = (\<lambda>_. 0), hblocks = [(200, 32), (240, 32), (280, 32)]\<rparr>, lfsr_data = 0, fcflag = 0,
     glob = \<lparr>npes = 2, mype = i, nbor_r_buff_offset = 0, m_first = 280,
       nodes = [280 \<mapsto> \<lparr>ptrs0 = 48, ptrs1 = 148, nbytes = 4, nxt = 240\<rparr>, 240 \<mapsto> \<lparr>ptrs0 = 32, ptrs1 = 132, nbytes = 8, nxt = 200\<rparr>,
                200 \<mapsto> \<lparr>ptrs0 = 16, ptrs1 = 116, nbytes = 4, nxt = 0\<rparr>],
       apTime = (if i = 0 then 32 else 132), apNrepeat = (if i = 0 then 48 else 148)\<rparr>, out = []\<rparr>"

definition armci_memory :: "int \<Rightarrow> cheap" where
  "armci_memory i = (if i = 0 then \<lparr>hbytes = (\<lambda>_. 0)(16 := 1), hblocks = [(16, 4), (32, 8), (48, 4)]\<rparr>
                     else \<lparr>hbytes = (\<lambda>_. 0), hblocks = [(116, 4), (132, 8), (148, 4)]\<rparr>)"

abbreviation example_segs :: "seg list" where
  "example_segs \<equiv> [(48, 148, 4), (32, 132, 8), (16, 116, 4)]"

lemma armci_start_table: "i = 0 \<or> i = 1 \<Longrightarrow> table (armci_start i) example_segs"
  unfolding table_def by (intro conjI exI [of _ "[280, 240, 200]"]) (auto simp: armci_start_def seg_of_def)

lemma armci_start_linked: "armci_linked 3 example_segs (armci_start 0) (armci_start 1)"
  unfolding armci_linked_def
  by (intro conjI armci_start_table) (simp_all add: armci_start_def zero_args_def refers_def on_pe_def int_bytes_def)

lemma armci_start_idle: "i = 0 \<or> i = 1 \<Longrightarrow> armci_idle (armci_start i) (armci_memory i)"
  by (auto simp: armci_idle_def armci_start_def armci_memory_def zero_args_def valid_def disjoint_ranges_def load_def
      int_bytes_def le_bytes_def upt_rec)

theorem armci_list_refines_table_witness:
  "remote_ptr 3 132 (armci_start 1) = Inr 32 \<and> remote_ptr 3 5 (armci_start 1) = Inl (Exit (- 1)) \<and>
   (\<exists>w'. armci_free 3 132 (armci_start 1) = Call (Lib (Armci_Free 132)) (\<lambda>_. Ret w') \<and>
     table w' [(48, 148, 4), (16, 116, 4)])"
proof -
  have "mype (glob (armci_start 1)) = 1" by (simp add: armci_start_def)
  then show ?thesis
    using armci_list_refines_table [of "armci_start 1" example_segs 3 bump os_ok 0 0 0 132]
      armci_list_refines_table [of "armci_start 1" example_segs 3 bump os_ok 0 0 0 5] armci_start_table [of 1] bump_ok
    by (simp add: on_pe_def del: neq0_conv)
qed

theorem armci_hand_over_correct_witness:
  "ends_in (opair_step True deliver (armci_view (armci_start 0)) (armci_view (armci_start 1)))
      (\<lambda>s. s = opair_of (Ret (armci_start 0)) (store (armci_memory 0) 48 (le_bytes 7))
                        (Ret (7, armci_start 1)) (store (armci_memory 1) 148 (le_bytes 7)))
      (opair_of (armci_SendRepeat 3 7 (armci_start 0)) (armci_memory 0) (armci_RecvRepeat (armci_start 1)) (armci_memory 1))"
proof -
  have "apNrepeat (glob (armci_start 0)) = 48" "apNrepeat (glob (armci_start 1)) = 148" by (simp_all add: armci_start_def)
  then show ?thesis
    using conjunct1 [OF armci_hand_over_correct [OF armci_start_linked armci_start_idle armci_start_idle,
      of "\<lambda>_. replicate 8 0" 0 "\<lambda>_. 0" 7]] by simp
qed

theorem armci_offset_exchange_witness:
  "ends_in (mpair_step (armci_msgs 1) (armci_msgs 0) (\<lambda>_. True))
      (mboth_done (\<lambda>w. w = upd_glob (\<lambda>g. g\<lparr>nbor_r_buff_offset := 0\<rparr>) (armci_start 0))
                  (\<lambda>w. w = upd_glob (\<lambda>g. g\<lparr>nbor_r_buff_offset := 0\<rparr>) (armci_start 1)))
      (mpair_init (armci_AfterAlignmentInit (armci_start 0)) (armci_AfterAlignmentInit (armci_start 1))) \<and>
   ends_in (mpair_step (armci_msgs 1) (armci_msgs 0) (\<lambda>_. False))
      (\<lambda>s. (\<exists>k. mprog1 s = Call (Lib (A_MPI_Send (int_bytes 0) 1 0)) k) \<and>
           (\<exists>k. mprog2 s = Call (Lib (A_MPI_Send (int_bytes 0) 0 0)) k))
      (mpair_init (armci_AfterAlignmentInit (armci_start 0)) (armci_AfterAlignmentInit (armci_start 1)))"
proof -
  have "r_offset (armci_start i) = 0" "anbor (prot (p_of (armci_start 0))) = 1" "anbor (prot (p_of (armci_start 1))) = 0" for i
    by (simp_all add: r_offset_def armci_start_def zero_args_def)
  then show ?thesis
    using armci_offset_exchange [where eager = "\<lambda>_. True" and ?w1.0 = "armci_start 0" and ?w2.0 = "armci_start 1"]
      armci_offset_exchange [where eager = "\<lambda>_. False" and ?w1.0 = "armci_start 0" and ?w2.0 = "armci_start 1"] by simp
qed

end
