(* ===== verification/Verbs.thy ===== *)
theory Verbs
  imports Onesided Tcp
begin

text \<open>
  The calls of the InfiniBand verbs library that \<open>ibv.c\<close> makes, with the structures they take, and
  the library seen as a device: which objects are alive, the state of each queue pair, and which
  calls its documentation allows when.  The TCP connection that the module uses beside the
  InfiniBand one is reached through the same kind of call.
\<close>

section \<open>Structures\<close>

datatype qp_state = IBV_QPS_RESET | IBV_QPS_INIT | IBV_QPS_RTR | IBV_QPS_RTS

datatype qp_mask =
    IBV_QP_STATE | IBV_QP_PKEY_INDEX | IBV_QP_PORT | IBV_QP_ACCESS_FLAGS | IBV_QP_AV | IBV_QP_PATH_MTU
  | IBV_QP_DEST_QPN | IBV_QP_RQ_PSN | IBV_QP_MAX_DEST_RD_ATOMIC | IBV_QP_MIN_RNR_TIMER | IBV_QP_TIMEOUT
  | IBV_QP_RETRY_CNT | IBV_QP_RNR_RETRY | IBV_QP_SQ_PSN | IBV_QP_MAX_QP_RD_ATOMIC

datatype access = IBV_ACCESS_LOCAL_WRITE | IBV_ACCESS_REMOTE_WRITE | IBV_ACCESS_REMOTE_READ

datatype opcode = IBV_WR_SEND | IBV_WR_SEND_WITH_IMM | IBV_WR_RDMA_WRITE | IBV_WR_RDMA_WRITE_WITH_IMM

text \<open>Handles are pointers; 0 is the null pointer.\<close>

record ibv_qp_init_attr =
  max_recv_wr :: int
  max_send_wr :: int
  max_recv_sge :: int
  max_send_sge :: int
  recv_cq :: nat
  send_cq :: nat
  sq_sig_all :: int

record ibv_qp_attr =
  qp_state :: qp_state
  pkey_index :: int
  qp_port_num :: int
  qp_access_flags :: "access list"
  max_dest_rd_atomic :: int
  dest_qp_num :: u32
  ah_sl :: int
  ah_is_global :: int
  ah_dlid :: "16 word"
  ah_static_rate :: int
  ah_src_path_bits :: int
  ah_port_num :: int
  path_mtu :: int
  rq_psn :: int
  min_rnr_timer :: int
  sq_psn :: int
  timeout :: int
  retry_cnt :: int
  rnr_retry :: int
  max_rd_atomic :: int

text \<open>A scatter/gather entry; a request has one or none.\<close>

record ibv_sge =
  sg_lkey :: u32
  sg_length :: int
  sg_addr :: addr

record ibv_recv_wr =
  rr_sge :: "ibv_sge option"

record ibv_send_wr =
  sr_opcode :: opcode
  sr_signaled :: bool
  sr_sge :: "ibv_sge option"
  sr_remote_addr :: addr
  sr_rkey :: u32

section \<open>Calls\<close>

text \<open>
  \<open>Sk\<close> is a call on the sockets, \<open>Fopen_iblog n\<close> opens the log file \<open>.iblog\<close> with the number \<open>n\<close>.  \<open>Rc_get\<close>, \<open>Rc_set\<close> and the two waiting loops access the
  variable \<open>receive_complete\<close>, which the main thread and the event thread share.  In a reply, \<open>oval\<close> is the
  value returned, \<open>onum r i\<close> the \<open>i\<close>-th number that the call stores through a pointer or that the returned
  structure shows.
\<close>

datatype ib_call =
    Sk sock_ev
  | Fopen_iblog int
  | Ibv_get_device_list
  | Ibv_open_device nat
  | Ibv_free_device_list nat
  | Ibv_query_port nat int
  | Ibv_alloc_pd nat
  | Ibv_create_cq nat int
  | Ibv_create_qp nat ibv_qp_init_attr
  | Ibv_modify_qp nat ibv_qp_attr "qp_mask list"
  | Pthread_create
  | Ibv_req_notify_cq nat int
  | Ibv_destroy_qp nat
  | Ibv_destroy_cq nat
  | Ibv_dereg_mr nat
  | Ibv_dealloc_pd nat
  | Ibv_close_device nat
  | Ibv_poll_cq nat
  | Ibv_post_recv nat ibv_recv_wr
  | Ibv_post_send nat ibv_send_wr
  | Ibv_reg_mr nat addr int "access list"
  | Ibv_get_cq_event
  | Rc_get
  | Rc_set int
  | Rc_wait_set
  | Rc_wait_clear

type_synonym 'a ib_prog = "(ib_call, 'a) os_prog"

definition handle :: "os_reply \<Rightarrow> nat" where
  "handle r = nat (oval r)"

text \<open>A program on sockets as a program that makes these calls.\<close>

definition sk_reply :: "os_reply \<Rightarrow> reply" where
  "sk_reply r = \<lparr>rv = oval r, errno = int (onum r 0), rdata = obytes r\<rparr>"

primrec via :: "'a sprog \<Rightarrow> 'a ib_prog" where
  "via (Ret x) = Ret x"
| "via (Abort e) = Abort e"
| "via (Call e k) = Call (Lib (Sk e)) (\<lambda>r. via (k (sk_reply r)))"
| "via (Clock k) = Clock (\<lambda>t. via (k t))"

lemma via_andThen: "via (andThen p f) = andThen (via p) (\<lambda>x. via (f x))"
  by (induction p) simp_all

section \<open>The library as a device\<close>

datatype vres = DevList nat | Ctx nat | Pd nat | Cq nat | Qp nat | Mr nat

text \<open>
  The live objects, the states of the queue pairs with the domain and the two completion queues
  each was created with, and the registered regions: domain, address, length, local key, access.
\<close>

record verbs =
  live :: "vres set"
  qpst :: "nat \<Rightarrow> qp_state"
  qpuse :: "nat \<Rightarrow> nat \<times> nat \<times> nat"
  qpdest :: "nat \<Rightarrow> 16 word \<times> u32"
  region :: "nat \<Rightarrow> nat \<times> addr \<times> int \<times> u32 \<times> access list"

text \<open>The transitions of a reliable connection, and the attributes each of them needs.\<close>

fun required :: "qp_state \<Rightarrow> qp_state \<Rightarrow> qp_mask set option" where
  "required IBV_QPS_RESET IBV_QPS_INIT = Some {IBV_QP_STATE, IBV_QP_PKEY_INDEX, IBV_QP_PORT, IBV_QP_ACCESS_FLAGS}"
| "required IBV_QPS_INIT IBV_QPS_RTR = Some {IBV_QP_STATE, IBV_QP_AV, IBV_QP_PATH_MTU, IBV_QP_DEST_QPN, IBV_QP_RQ_PSN,
     IBV_QP_MAX_DEST_RD_ATOMIC, IBV_QP_MIN_RNR_TIMER}"
| "required IBV_QPS_RTR IBV_QPS_RTS = Some {IBV_QP_STATE, IBV_QP_TIMEOUT, IBV_QP_RETRY_CNT, IBV_QP_RNR_RETRY, IBV_QP_SQ_PSN,
     IBV_QP_MAX_QP_RD_ATOMIC}"
| "required _ _ = None"

text \<open>An entry lies inside a live region of the queue pair's domain and shows its local key.\<close>

definition sge_ok :: "verbs \<Rightarrow> nat \<Rightarrow> ibv_sge option \<Rightarrow> bool \<Rightarrow> bool" where
  "sge_ok v q e writes \<longleftrightarrow> (case e of None \<Rightarrow> True
     | Some g \<Rightarrow> \<exists>m. Mr m \<in> live v \<and> (case region v m of (d, a, n, k, acc) \<Rightarrow>
          d = fst (qpuse v q) \<and> k = sg_lkey g \<and> 0 \<le> sg_length g \<and> a \<le> sg_addr g \<and>
          int (sg_addr g) + sg_length g \<le> int a + n \<and> (writes \<longrightarrow> IBV_ACCESS_LOCAL_WRITE \<in> set acc)))"

fun lib_legal :: "ib_call \<Rightarrow> verbs \<Rightarrow> bool" where
  "lib_legal (Ibv_open_device d) v \<longleftrightarrow> (\<exists>l. DevList l \<in> live v)"
| "lib_legal (Ibv_free_device_list l) v \<longleftrightarrow> DevList l \<in> live v"
| "lib_legal (Ibv_query_port c n) v \<longleftrightarrow> Ctx c \<in> live v"
| "lib_legal (Ibv_alloc_pd c) v \<longleftrightarrow> Ctx c \<in> live v"
| "lib_legal (Ibv_create_cq c n) v \<longleftrightarrow> Ctx c \<in> live v \<and> 0 < n"
| "lib_legal (Ibv_create_qp d a) v \<longleftrightarrow> Pd d \<in> live v \<and> Cq (send_cq a) \<in> live v \<and> Cq (recv_cq a) \<in> live v"
| "lib_legal (Ibv_modify_qp q a ms) v \<longleftrightarrow> Qp q \<in> live v \<and>
     (case required (qpst v q) (qp_state a) of None \<Rightarrow> False | Some need \<Rightarrow> need \<subseteq> set ms)"
| "lib_legal (Ibv_req_notify_cq c n) v \<longleftrightarrow> Cq c \<in> live v"
| "lib_legal (Ibv_destroy_qp q) v \<longleftrightarrow> Qp q \<in> live v"
| "lib_legal (Ibv_destroy_cq c) v \<longleftrightarrow> Cq c \<in> live v \<and>
     (\<forall>q. Qp q \<in> live v \<longrightarrow> fst (snd (qpuse v q)) \<noteq> c \<and> snd (snd (qpuse v q)) \<noteq> c)"
| "lib_legal (Ibv_dereg_mr m) v \<longleftrightarrow> Mr m \<in> live v"
| "lib_legal (Ibv_dealloc_pd d) v \<longleftrightarrow> Pd d \<in> live v \<and> (\<forall>q. Qp q \<in> live v \<longrightarrow> fst (qpuse v q) \<noteq> d) \<and>
     (\<forall>m. Mr m \<in> live v \<longrightarrow> fst (region v m) \<noteq> d)"
| "lib_legal (Ibv_close_device c) v \<longleftrightarrow> Ctx c \<in> live v \<and> (\<forall>x \<in> live v. case x of DevList _ \<Rightarrow> True | Ctx _ \<Rightarrow> True | _ \<Rightarrow> False)"
| "lib_legal (Ibv_poll_cq c) v \<longleftrightarrow> Cq c \<in> live v"
| "lib_legal (Ibv_post_recv q r) v \<longleftrightarrow> Qp q \<in> live v \<and> qpst v q \<noteq> IBV_QPS_RESET \<and> sge_ok v q (rr_sge r) True"
| "lib_legal (Ibv_post_send q r) v \<longleftrightarrow> Qp q \<in> live v \<and> qpst v q = IBV_QPS_RTS \<and> sge_ok v q (sr_sge r) False"
| "lib_legal (Ibv_reg_mr d a n acc) v \<longleftrightarrow> Pd d \<in> live v \<and> 0 \<le> n"
| "lib_legal _ v \<longleftrightarrow> True"

text \<open>
  Replies: a call that creates an object returns the null pointer or a new object, a legal call
  that destroys an object succeeds, and an event comes from a completion queue that exists; nothing
  else is assumed.
\<close>

definition fresh :: "(nat \<Rightarrow> vres) \<Rightarrow> verbs \<Rightarrow> os_reply \<Rightarrow> bool" where
  "fresh c v r \<longleftrightarrow> handle r = 0 \<or> c (handle r) \<notin> live v"

fun lib_adm :: "ib_call \<Rightarrow> verbs \<Rightarrow> os_reply \<Rightarrow> bool" where
  "lib_adm Ibv_get_device_list v r \<longleftrightarrow> fresh DevList v r"
| "lib_adm (Ibv_open_device d) v r \<longleftrightarrow> fresh Ctx v r"
| "lib_adm (Ibv_alloc_pd c) v r \<longleftrightarrow> fresh Pd v r"
| "lib_adm (Ibv_create_cq c n) v r \<longleftrightarrow> fresh Cq v r"
| "lib_adm (Ibv_create_qp d a) v r \<longleftrightarrow> fresh Qp v r"
| "lib_adm (Ibv_reg_mr d a n acc) v r \<longleftrightarrow> fresh Mr v r"
| "lib_adm (Ibv_destroy_qp q) v r \<longleftrightarrow> oval r = 0"
| "lib_adm (Ibv_destroy_cq c) v r \<longleftrightarrow> oval r = 0"
| "lib_adm (Ibv_dereg_mr m) v r \<longleftrightarrow> oval r = 0"
| "lib_adm (Ibv_dealloc_pd d) v r \<longleftrightarrow> oval r = 0"
| "lib_adm (Ibv_close_device c) v r \<longleftrightarrow> oval r = 0"
| "lib_adm Ibv_get_cq_event v r \<longleftrightarrow> (oval r = 0 \<longrightarrow> Cq (onum r 0) \<in> live v)"
| "lib_adm _ v r \<longleftrightarrow> True"

definition born :: "vres \<Rightarrow> os_reply \<Rightarrow> verbs \<Rightarrow> verbs" where
  "born x r v = (if handle r = 0 then v else v\<lparr>live := insert x (live v)\<rparr>)"

definition add_mr :: "nat \<Rightarrow> nat \<times> addr \<times> int \<times> u32 \<times> access list \<Rightarrow> verbs \<Rightarrow> verbs" where
  "add_mr h x v = v\<lparr>live := insert (Mr h) (live v), region := (region v)(h := x)\<rparr>"

fun lib_upd :: "ib_call \<Rightarrow> os_reply \<Rightarrow> verbs \<Rightarrow> verbs" where
  "lib_upd Ibv_get_device_list r v = born (DevList (handle r)) r v"
| "lib_upd (Ibv_open_device d) r v = born (Ctx (handle r)) r v"
| "lib_upd (Ibv_free_device_list l) r v = v\<lparr>live := live v - {DevList l}\<rparr>"
| "lib_upd (Ibv_alloc_pd c) r v = born (Pd (handle r)) r v"
| "lib_upd (Ibv_create_cq c n) r v = born (Cq (handle r)) r v"
| "lib_upd (Ibv_create_qp d a) r v = (if handle r = 0 then v
     else v\<lparr>live := insert (Qp (handle r)) (live v), qpst := (qpst v)(handle r := IBV_QPS_RESET),
            qpuse := (qpuse v)(handle r := (d, send_cq a, recv_cq a))\<rparr>)"
| "lib_upd (Ibv_modify_qp q a ms) r v = (if oval r \<noteq> 0 then v
     else v\<lparr>qpst := (qpst v)(q := qp_state a),
            qpdest := (if IBV_QP_DEST_QPN \<in> set ms then (qpdest v)(q := (ah_dlid a, dest_qp_num a)) else qpdest v)\<rparr>)"
| "lib_upd (Ibv_reg_mr d a n acc) r v = (if handle r = 0 then v
     else add_mr (handle r) (d, a, n, word_of_nat (onum r 0), acc) v)"
| "lib_upd (Ibv_destroy_qp q) r v = v\<lparr>live := live v - {Qp q}\<rparr>"
| "lib_upd (Ibv_destroy_cq c) r v = v\<lparr>live := live v - {Cq c}\<rparr>"
| "lib_upd (Ibv_dereg_mr m) r v = v\<lparr>live := live v - {Mr m}\<rparr>"
| "lib_upd (Ibv_dealloc_pd d) r v = v\<lparr>live := live v - {Pd d}\<rparr>"
| "lib_upd (Ibv_close_device c) r v = v\<lparr>live := live v - {Ctx c}\<rparr>"
| "lib_upd _ r v = v"

text \<open>Accesses to memory and to the sockets do not concern the library.\<close>

definition verbs_dev :: "(ib_call os_ev, os_reply, verbs) device" where
  "verbs_dev = \<lparr>
     d_legal = (\<lambda>e v. case e of Lib c \<Rightarrow> lib_legal c v | _ \<Rightarrow> True),
     d_adm = (\<lambda>e v r. case e of Lib c \<Rightarrow> lib_adm c v r | _ \<Rightarrow> True),
     d_upd = (\<lambda>e r v. case e of Lib c \<Rightarrow> lib_upd c r v | _ \<Rightarrow> v)\<rparr>"

lemma verbs_dev_simps [simp]:
  "d_legal verbs_dev e v = (case e of Lib c \<Rightarrow> lib_legal c v | _ \<Rightarrow> True)"
  "d_adm verbs_dev e v r = (case e of Lib c \<Rightarrow> lib_adm c v r | _ \<Rightarrow> True)"
  "d_upd verbs_dev e r v = (case e of Lib c \<Rightarrow> lib_upd c r v | _ \<Rightarrow> v)"
  by (simp_all add: verbs_dev_def)

text \<open>A program on sockets does not touch the library.\<close>

lemma wp_via: "returns (\<lambda>x. Q x v) p \<Longrightarrow> (\<And>e. E e v) \<Longrightarrow> wp verbs_dev E Q (via p) v"
  by (induction rule: returns.induct) simp_all

end
