(* ===== verification/Ibv.thy ===== *)
theory Ibv
  imports Verbs
begin

text \<open>
  The InfiniBand module \<open>ibv.c\<close> for OpenIB verbs: the TCP connection over which the two sides find
  each other, the objects of the verbs library and the states of the queue pair, the transfers by
  send/receive or by RDMA writes, and the three ways to wait for a completion.
\<close>

section \<open>State\<close>

text \<open>The \<open>TCP\<close> protocol structure with the fields of an \<open>OPENIB\<close> build.\<close>

record IbvProt = TcpProt +
  ib_mtu :: int
  commtype :: int
  comptype :: int

definition NP_COMP_LOCALPOLL :: int where "NP_COMP_LOCALPOLL = 0"
definition NP_COMP_VAPIPOLL :: int where "NP_COMP_VAPIPOLL = 1"
definition NP_COMP_EVENT :: int where "NP_COMP_EVENT = 2"
definition NP_COMM_SENDRECV :: int where "NP_COMM_SENDRECV = 0"
definition NP_COMM_SENDRECV_WITH_IMM :: int where "NP_COMM_SENDRECV_WITH_IMM = 1"
definition NP_COMM_RDMAWRITE :: int where "NP_COMM_RDMAWRITE = 2"
definition NP_COMM_RDMAWRITE_WITH_IMM :: int where "NP_COMM_RDMAWRITE_WITH_IMM = 3"

lemmas np_types = NP_COMP_LOCALPOLL_def NP_COMP_VAPIPOLL_def NP_COMP_EVENT_def NP_COMM_SENDRECV_def
  NP_COMM_SENDRECV_WITH_IMM_def NP_COMM_RDMAWRITE_def NP_COMM_RDMAWRITE_WITH_IMM_def

text \<open>Constants of the library's headers: an MTU of 1024 bytes, success of a work completion.\<close>

definition IBV_MTU_1024 :: int where "IBV_MTU_1024 = 3"
definition IBV_WC_SUCCESS :: int where "IBV_WC_SUCCESS = 0"

text \<open>A registered region and a queue pair, as the structures the handles point to.\<close>

record ibv_mr =
  mr_ptr :: nat
  lkey :: u32
  rkey :: u32

record ibv_qp =
  qp_ptr :: nat
  qp_num :: u32

text \<open>
  The static variables, but for \<open>receive_complete\<close>, which the event thread shares, and the
  variables that are only written (\<open>num_cqe\<close>, \<open>act_num_cqe\<close>, \<open>thread\<close>, \<open>logfile\<close>).  \<open>wc\<close> is looked at for its status only.
\<close>

record ibv_glob =
  hca :: nat
  ctx :: nat
  port_num :: int
  lid :: "16 word"
  d_lid :: "16 word"
  pd_hndl :: nat
  s_cq_hndl :: nat
  r_cq_hndl :: nat
  s_mr_hndl :: "ibv_mr option"
  r_mr_hndl :: "ibv_mr option"
  qp_init_attr :: ibv_qp_init_attr
  qp_hndl :: "ibv_qp option"
  d_qp_num :: u32
  qp_attr :: ibv_qp_attr
  wc_status :: int
  max_wq :: int
  remote_address :: addr
  remote_key :: u32

type_synonym ibv_world = "(IbvProt, ibv_glob) world"

definition upd_ib :: "(ibv_glob \<Rightarrow> ibv_glob) \<Rightarrow> ibv_world \<Rightarrow> ibv_world" where
  "upd_ib f w = w\<lparr>glob := f (glob w)\<rparr>"

lemma upd_ib_simps [simp]:
  "self (upd_ib f w) = self w" "glob (upd_ib f w) = f (glob w)" "heap (upd_ib f w) = heap w"
  "lfsr_data (upd_ib f w) = lfsr_data w" "out (upd_ib f w) = out w"
  by (simp_all add: upd_ib_def)

text \<open>The value of a handle.\<close>

definition qp_of :: "ibv_glob \<Rightarrow> nat" where
  "qp_of g = (case qp_hndl g of None \<Rightarrow> 0 | Some q \<Rightarrow> qp_ptr q)"

section \<open>Functions over the TCP connection\<close>

text \<open>
  \<open>readFully\<close>, \<open>SendRepeat\<close>, \<open>RecvRepeat\<close> and \<open>RecvTime\<close> but for its unit are those of \<open>tcp.c\<close>, word for word.
  In \<open>Sync\<close> the array for the answer is not initialised: \<open>stk\<close> is what the stack holds there.
\<close>

definition ibv_Sync :: "byte list \<Rightarrow> ('p, 'g) world \<Rightarrow> ('p, 'g) world sprog" where
  "ibv_Sync stk w =
     Call (Write (commfd (p_of w)) SyncMe) (\<lambda>r.
     if rv r < 0 then Abort (Exit 3)
     else andThen (readFully (commfd (p_of w)) (length SyncMe)) (\<lambda>(n, buf).
     if n < 0 then Abort (Exit 3)
     else if buf @ drop (length buf) (take 6 stk) \<noteq> SyncMe then Abort (Exit 3)
     else Ret w))"

definition ibv_SendTime :: "(real \<Rightarrow> real) \<Rightarrow> real \<Rightarrow> ('p, 'g) world \<Rightarrow> ('p, 'g) world sprog" where
  "ibv_SendTime fl t w =
     andThen (lift (double_to_u32 (fl (t * 10 ^ 6)))) (\<lambda>ltime.
     Call (Write (commfd (p_of w)) (le_bytes (htonl ltime))) (\<lambda>r.
     if rv r < 0 then Abort (Exit 301) else Ret w))"

definition ibv_RecvTime :: "(real \<Rightarrow> real) \<Rightarrow> ('p, 'g) world \<Rightarrow> (real \<times> ('p, 'g) world) sprog" where
  "ibv_RecvTime fl w =
     andThen (readFully (commfd (p_of w)) 4) (\<lambda>(bytesRead, ntime).
     if bytesRead < 0 then Abort (Exit 302)
     else if bytesRead \<noteq> 4 then Abort (Exit 303)
     else Ret (fl (real (unat (ntohl (le_word ntime))) / 10 ^ 6), w))"

definition ibv_SendRepeat :: "u32 \<Rightarrow> ('p, 'g) world \<Rightarrow> ('p, 'g) world sprog" where
  "ibv_SendRepeat rpt w =
     Call (Write (commfd (p_of w)) (le_bytes (htonl rpt))) (\<lambda>r.
     if rv r < 0 then Abort (Exit 304) else Ret w)"

definition ibv_RecvRepeat :: "('p, 'g) world \<Rightarrow> (u32 \<times> ('p, 'g) world) sprog" where
  "ibv_RecvRepeat w =
     andThen (readFully (commfd (p_of w)) 4) (\<lambda>(bytesRead, nrpt).
     if bytesRead < 0 then Abort (Exit 305)
     else if bytesRead \<noteq> 4 then Abort (Exit 306)
     else Ret (ntohl (le_word nrpt), w))"

definition ibv_establish :: "(IbvProt, 'g) world \<Rightarrow> (IbvProt, 'g) world sprog" where
  "ibv_establish w =
     (if tr (p_of w) \<noteq> 0
      then Call (Connect (commfd (p_of w)) (sin1 (prot (p_of w)))) (\<lambda>r.
           if rv r < 0 then Abort (Exit (- 10)) else Ret w)
      else Call (Listen (servicefd (p_of w)) 5) (\<lambda>_.
           Call (Accept (servicefd (p_of w))) (\<lambda>r.
           let w = upd_args (\<lambda>p. p\<lparr>commfd := rv r\<rparr>) w in
           if commfd (p_of w) < 0 then Abort (Exit (- 12))
           else Ret (upd_prot (\<lambda>q. q\<lparr>sin2 := peer_addr (rdata r)\<rparr>) w))))"

text \<open>The bytes of a pointer and of a 16-bit object.\<close>

definition ptr_bytes :: "addr \<Rightarrow> byte list" where
  "ptr_bytes a = le_bytes (word_of_nat a) @ le_bytes (word_of_nat (a div 2 ^ 32))"

definition bytes_ptr :: "byte list \<Rightarrow> addr" where
  "bytes_ptr bs = unat (le_word (take 4 bs)) + 2 ^ 32 * unat (le_word (drop 4 bs))"

definition half_bytes :: "16 word \<Rightarrow> byte list" where
  "half_bytes x = [ucast x, ucast (drop_bit 8 x)]"

text \<open>
  \<open>AfterAlignmentInit\<close>: the receive buffer's address and its remote key, sent and received.
  With no registered region the remote key would be read through a null pointer.
\<close>

definition ibv_AfterAlignmentInit :: "ibv_world \<Rightarrow> ibv_world sprog" where
  "ibv_AfterAlignmentInit w =
     (if commtype (prot (p_of w)) = NP_COMM_RDMAWRITE \<or> commtype (prot (p_of w)) = NP_COMM_RDMAWRITE_WITH_IMM
      then Call (Write (commfd (p_of w)) (ptr_bytes (r_buff (p_of w)))) (\<lambda>r.
           if rv r < 0 then Abort (Exit (- 1))
           else (case r_mr_hndl (glob w) of None \<Rightarrow> Abort BadAccess | Some mr \<Rightarrow>
           Call (Write (commfd (p_of w)) (le_bytes (rkey mr))) (\<lambda>r.
           if rv r < 0 then Abort (Exit (- 1))
           else andThen (readFully (commfd (p_of w)) 8) (\<lambda>(bytesRead, a).
           if bytesRead < 0 then Abort (Exit (- 1))
           else if bytesRead \<noteq> 8 then Abort (Exit (- 1))
           else let w = upd_ib (\<lambda>g. g\<lparr>remote_address := bytes_ptr a\<rparr>) w in
           andThen (readFully (commfd (p_of w)) 4) (\<lambda>(bytesRead, k).
           if bytesRead < 0 then Abort (Exit (- 1))
           else if bytesRead \<noteq> 4 then Abort (Exit (- 1))
           else Ret (upd_ib (\<lambda>g. g\<lparr>remote_key := le_word k\<rparr>) w))))))
      else Ret w)"

section \<open>The objects of the library\<close>

definition ibv_Init :: "ibv_world \<Rightarrow> ibv_world" where
  "ibv_Init w = upd_args (\<lambda>p. p\<lparr>prot := (prot p)\<lparr>ib_mtu := IBV_MTU_1024, commtype := NP_COMM_RDMAWRITE,
     comptype := NP_COMP_LOCALPOLL\<rparr>, tr := 0, rcv := 1\<rparr>) w"

text \<open>
  \<open>initIB\<close> in three parts, each with the value 0 or -1: from the device to the queue pair, the
  exchange of identifiers, and the states of the queue pair.
\<close>

definition ib_objects :: "ibv_world \<Rightarrow> (int \<times> ibv_world) ib_prog" where
  "ib_objects w =
     Call (Lib Ibv_get_device_list) (\<lambda>r.
     let hca_list = handle r; num_devices = (if hca_list = 0 then 1 else onum r 0);
         w = (if hca_list = 0 then upd_ib (\<lambda>g. g\<lparr>hca := 0\<rparr>) w
              else if num_devices \<noteq> 0 then upd_ib (\<lambda>g. g\<lparr>hca := onum r 1\<rparr>) w else w) in
     if hca (glob w) = 0 \<or> num_devices = 0 then Ret (- 1, w)
     else
     Call (Lib (Ibv_open_device (hca (glob w)))) (\<lambda>r.
     let w = upd_ib (\<lambda>g. g\<lparr>ctx := handle r\<rparr>) w in
     if ctx (glob w) = 0 then Ret (- 1, w)
     else
     Call (Lib (Ibv_free_device_list hca_list)) (\<lambda>_.
     let w = upd_ib (\<lambda>g. g\<lparr>port_num := 1\<rparr>) w in
     Call (Lib (Ibv_query_port (ctx (glob w)) (port_num (glob w)))) (\<lambda>r.
     if oval r \<noteq> 0 then Ret (- 1, w)
     else let w = upd_ib (\<lambda>g. g\<lparr>lid := word_of_nat (onum r 0)\<rparr>) w in
     Call (Lib (Ibv_alloc_pd (ctx (glob w)))) (\<lambda>r.
     let w = upd_ib (\<lambda>g. g\<lparr>pd_hndl := handle r\<rparr>) w in
     if pd_hndl (glob w) = 0 then Ret (- 1, w)
     else
     Call (Lib (Ibv_create_cq (ctx (glob w)) 30000)) (\<lambda>r.
     let w = upd_ib (\<lambda>g. g\<lparr>s_cq_hndl := handle r\<rparr>) w in
     if s_cq_hndl (glob w) = 0 then Ret (- 1, w)
     else
     Call (Lib (Ibv_create_cq (ctx (glob w)) 20000)) (\<lambda>r.
     let w = upd_ib (\<lambda>g. g\<lparr>r_cq_hndl := handle r\<rparr>) w in
     if r_cq_hndl (glob w) = 0 then Ret (- 1, w)
     else let w = upd_ib (\<lambda>g. g\<lparr>qp_init_attr := \<lparr>max_recv_wr = max_wq g, max_send_wr = max_wq g, max_recv_sge = 1,
                max_send_sge = 1, recv_cq = r_cq_hndl g, send_cq = s_cq_hndl g, sq_sig_all = 0\<rparr>\<rparr>) w in
     Call (Lib (Ibv_create_qp (pd_hndl (glob w)) (qp_init_attr (glob w)))) (\<lambda>r.
     let w = upd_ib (\<lambda>g. g\<lparr>qp_hndl := (if handle r = 0 then None
                else Some \<lparr>qp_ptr = handle r, qp_num = word_of_nat (onum r 0)\<rparr>)\<rparr>) w in
     if qp_hndl (glob w) = None then Ret (- 1, w) else Ret (0, w)))))))))"

text \<open>A short \<open>read\<close> leaves a value in \<open>d_lid\<close> or \<open>d_qp_num\<close> that nobody uses.\<close>

definition ib_exchange :: "ibv_world \<Rightarrow> (int \<times> ibv_world) sprog" where
  "ib_exchange w =
     (case qp_hndl (glob w) of None \<Rightarrow> Abort BadAccess | Some qp \<Rightarrow>
     Call (Write (commfd (p_of w)) (half_bytes (lid (glob w)))) (\<lambda>r.
     if rv r \<noteq> 2 then Ret (- 1, w)
     else
     Call (Write (commfd (p_of w)) (le_bytes (qp_num qp))) (\<lambda>r.
     if rv r \<noteq> 4 then Ret (- 1, w)
     else
     Call (Read (commfd (p_of w)) 2) (\<lambda>r.
     if rv r \<noteq> 2 then Ret (- 1, w)
     else let w = upd_ib (\<lambda>g. g\<lparr>d_lid := le_half (rdata r)\<rparr>) w in
     Call (Read (commfd (p_of w)) 4) (\<lambda>r.
     if rv r \<noteq> 4 then Ret (- 1, w)
     else Ret (0, upd_ib (\<lambda>g. g\<lparr>d_qp_num := le_word (rdata r)\<rparr>) w))))))"

definition ib_bring_up :: "byte list \<Rightarrow> ibv_world \<Rightarrow> (int \<times> ibv_world) ib_prog" where
  "ib_bring_up stk w =
     (let w = upd_ib (\<lambda>g. g\<lparr>qp_attr := (qp_attr g)\<lparr>qp_state := IBV_QPS_INIT, pkey_index := 0, qp_port_num := port_num g,
                qp_access_flags := [IBV_ACCESS_REMOTE_WRITE, IBV_ACCESS_REMOTE_READ]\<rparr>\<rparr>) w in
     Call (Lib (Ibv_modify_qp (qp_of (glob w)) (qp_attr (glob w))
       [IBV_QP_STATE, IBV_QP_PKEY_INDEX, IBV_QP_PORT, IBV_QP_ACCESS_FLAGS])) (\<lambda>r.
     if oval r \<noteq> 0 then Ret (- 1, w)
     else
     let w = upd_ib (\<lambda>g. g\<lparr>qp_attr := (qp_attr g)\<lparr>qp_state := IBV_QPS_RTR, max_dest_rd_atomic := 1,
                dest_qp_num := d_qp_num g, ah_sl := 0, ah_is_global := 0, ah_dlid := d_lid g, ah_static_rate := 0,
                ah_src_path_bits := 0, ah_port_num := port_num g, path_mtu := ib_mtu (prot (p_of w)), rq_psn := 0,
                pkey_index := 0, min_rnr_timer := 5\<rparr>\<rparr>) w in
     Call (Lib (Ibv_modify_qp (qp_of (glob w)) (qp_attr (glob w))
       [IBV_QP_STATE, IBV_QP_AV, IBV_QP_PATH_MTU, IBV_QP_DEST_QPN, IBV_QP_RQ_PSN, IBV_QP_MAX_DEST_RD_ATOMIC,
        IBV_QP_MIN_RNR_TIMER])) (\<lambda>r.
     if oval r \<noteq> 0 then Ret (- 1, w)
     else
     andThen (via (ibv_Sync stk w)) (\<lambda>w.
     let w = upd_ib (\<lambda>g. g\<lparr>qp_attr := (qp_attr g)\<lparr>qp_state := IBV_QPS_RTS, sq_psn := 0, timeout := 31, retry_cnt := 1,
                rnr_retry := 1, max_rd_atomic := 1\<rparr>\<rparr>) w in
     Call (Lib (Ibv_modify_qp (qp_of (glob w)) (qp_attr (glob w))
       [IBV_QP_STATE, IBV_QP_TIMEOUT, IBV_QP_RETRY_CNT, IBV_QP_RNR_RETRY, IBV_QP_SQ_PSN, IBV_QP_MAX_QP_RD_ATOMIC])) (\<lambda>r.
     if oval r \<noteq> 0 then Ret (- 1, w)
     else if comptype (prot (p_of w)) = NP_COMP_EVENT
     then Call (Lib Pthread_create) (\<lambda>r.
          if oval r \<noteq> 0 then Ret (- 1, w)
          else Call (Lib (Ibv_req_notify_cq (r_cq_hndl (glob w)) 0)) (\<lambda>_. Ret (0, w)))
     else Ret (0, w))))))"

definition initIB :: "byte list \<Rightarrow> ibv_world \<Rightarrow> (int \<times> ibv_world) ib_prog" where
  "initIB stk w =
     andThen (ib_objects w) (\<lambda>(c, w).
     if c = - 1 then Ret (- 1, w)
     else andThen (via (ib_exchange w)) (\<lambda>(c, w).
     if c = - 1 then Ret (- 1, w)
     else ib_bring_up stk w))"

text \<open>Destroy an object if there is one; a failure is reported and otherwise ignored.\<close>

definition destroy :: "bool \<Rightarrow> ib_call \<Rightarrow> string \<Rightarrow> ibv_world \<Rightarrow> ibv_world ib_prog" where
  "destroy b c msg w =
     (if b then Call (Lib c) (\<lambda>r. if oval r \<noteq> 0 then Ret (printf msg [] w) else Ret w) else Ret w)"

definition finalizeIB :: "ibv_world \<Rightarrow> ibv_world ib_prog" where
  "finalizeIB w =
     (let g = glob w in
     andThen (destroy (qp_hndl g \<noteq> None) (Ibv_destroy_qp (qp_of g)) ''Error destroying Queue Pair'' w) (\<lambda>w.
     andThen (destroy (r_cq_hndl g \<noteq> 0) (Ibv_destroy_cq (r_cq_hndl g)) ''Error destroying recv CQ'' w) (\<lambda>w.
     andThen (destroy (s_cq_hndl g \<noteq> 0) (Ibv_destroy_cq (s_cq_hndl g)) ''Error destroying send CQ'' w) (\<lambda>w.
     andThen (case s_mr_hndl g of None \<Rightarrow> Ret w
              | Some m \<Rightarrow> destroy True (Ibv_dereg_mr (mr_ptr m)) ''Error deregistering send mr'' w) (\<lambda>w.
     andThen (case r_mr_hndl g of None \<Rightarrow> Ret w
              | Some m \<Rightarrow> destroy True (Ibv_dereg_mr (mr_ptr m)) ''Error deregistering recv mr'' w) (\<lambda>w.
     andThen (destroy (pd_hndl g \<noteq> 0) (Ibv_dealloc_pd (pd_hndl g)) ''Error deallocating PD'' w) (\<lambda>w.
     destroy (ctx g \<noteq> 0) (Ibv_close_device (ctx g)) ''Error releasing HCA'' w)))))))"

definition ibv_CleanUp :: "ibv_world \<Rightarrow> ibv_world ib_prog" where
  "ibv_CleanUp w =
     andThen (via (if tr (p_of w) \<noteq> 0
        then Call (Write (commfd (p_of w)) QUIT) (\<lambda>_.
             Call (Read (commfd (p_of w)) 5) (\<lambda>_.
             Call (Close (commfd (p_of w))) (\<lambda>_. Ret w)))
        else Call (Read (commfd (p_of w)) 5) (\<lambda>_.
             Call (Write (commfd (p_of w)) QUIT) (\<lambda>_.
             Call (Close (commfd (p_of w))) (\<lambda>_.
             Call (Close (servicefd (p_of w))) (\<lambda>_. Ret w)))))) finalizeIB"

text \<open>The part of \<open>Setup\<close> that fills in the address and, on the receiver, binds the socket.\<close>

definition ibv_setup_addr :: "int \<Rightarrow> ibv_world \<Rightarrow> ibv_world sprog" where
  "ibv_setup_addr sockfd w =
     (if tr (p_of w) \<noteq> 0 then
        andThen
          (if atoi (host (p_of w)) > 0
           then Call (Inet_addr (host (p_of w))) (\<lambda>r. Ret (AF_INET, le_word (rdata r)))
           else Call (Gethostbyname (host (p_of w))) (\<lambda>r.
                if rv r = - 1 then Abort (Exit (- 5))
                else if length (rdata r) \<noteq> 4 then Abort BadAccess
                else Ret (rv r, le_word (rdata r))))
          (\<lambda>(fam, a).
        Ret (upd_args (\<lambda>p. p\<lparr>commfd := sockfd\<rparr>)
              (upd_prot (\<lambda>q. q\<lparr>sin1 := \<lparr>sin_family = fam, sin_port = htons (word_of_int (port (p_of w))),
                                       sin_addr = a\<rparr>\<rparr>) w)))
      else
        let w = upd_prot (\<lambda>q. q\<lparr>sin1 := \<lparr>sin_family = AF_INET, sin_port = htons (word_of_int (port (p_of w))),
                                         sin_addr = 0\<rparr>\<rparr>) w in
        Call (Bind sockfd (sin1 (prot (p_of w)))) (\<lambda>r.
        if rv r < 0 then Abort (Exit (- 6))
        else Ret (upd_args (\<lambda>p. p\<lparr>servicefd := sockfd\<rparr>) w)))"

definition ibv_Setup :: "byte list \<Rightarrow> ibv_world \<Rightarrow> ibv_world ib_prog" where
  "ibv_Setup stk w =
     (if commtype (prot (p_of w)) = NP_COMM_RDMAWRITE \<and> comptype (prot (p_of w)) \<noteq> NP_COMP_LOCALPOLL
      then Abort (Exit (- 1))
      else if commtype (prot (p_of w)) \<noteq> NP_COMM_RDMAWRITE \<and> comptype (prot (p_of w)) = NP_COMP_LOCALPOLL
      then Abort (Exit (- 1))
      else
      Call (Lib (Fopen_iblog (1 - tr (p_of w)))) (\<lambda>_.
      let w = upd_prot (\<lambda>q. q\<lparr>sin1 := zero_sin, sin2 := zero_sin\<rparr>) w in
      Call (Lib (Sk (Socket AF_INET SOCK_STREAM 0))) (\<lambda>r.
      if oval r < 0 then Abort (Exit (- 4))
      else let sockfd = oval r in
      Call (Lib (Sk (Getprotobyname ''tcp''))) (\<lambda>r.
      if oval r = - 1 then Abort (Exit 555)
      else andThen (via (ibv_setup_addr sockfd w)) (\<lambda>w.
      andThen (via (ibv_establish w)) (\<lambda>w.
      andThen (initIB stk w) (\<lambda>(c, w).
      if c = - 1 then andThen (ibv_CleanUp w) (\<lambda>_. Abort (Exit (- 1))) else Ret w)))))))"

section \<open>Transfers\<close>

text \<open>
  \<open>while (ret == 0) ret = ibv_poll_cq(cq, 1, &wc)\<close>; the first argument bounds the number of rounds.
  The result is \<open>ret\<close>.
\<close>

primrec poll_cq :: "nat \<Rightarrow> nat \<Rightarrow> ibv_world \<Rightarrow> (int \<times> ibv_world) ib_prog" where
  "poll_cq 0 cq w = Abort OutOfFuel"
| "poll_cq (Suc n) cq w =
     Call (Lib (Ibv_poll_cq cq)) (\<lambda>r.
     let w = (if oval r > 0 then upd_ib (\<lambda>g. g\<lparr>wc_status := int (onum r 0)\<rparr>) w else w) in
     if oval r = 0 then poll_cq n cq w else Ret (oval r, w))"

text \<open>Wait for a completion and insist on its success.\<close>

definition completion :: "nat \<Rightarrow> nat \<Rightarrow> ibv_world \<Rightarrow> ibv_world ib_prog" where
  "completion fuel cq w =
     andThen (poll_cq fuel cq w) (\<lambda>(ret, w).
     if ret < 0 then Abort (Exit (- 1))
     else if wc_status (glob w) \<noteq> IBV_WC_SUCCESS then Abort (Exit (- 1))
     else Ret w)"

definition ibv_PrepareToReceive :: "ibv_world \<Rightarrow> ibv_world ib_prog" where
  "ibv_PrepareToReceive w =
     (if commtype (prot (p_of w)) = NP_COMM_RDMAWRITE \<and> comptype (prot (p_of w)) = NP_COMP_LOCALPOLL then Ret w
      else (case r_mr_hndl (glob w) of None \<Rightarrow> Abort BadAccess | Some mr \<Rightarrow>
        let sg_entry = \<lparr>sg_lkey = lkey mr, sg_length = bufflen (p_of w), sg_addr = r_ptr (p_of w)\<rparr> in
        Call (Lib (Ibv_post_recv (qp_of (glob w)) \<lparr>rr_sge = Some sg_entry\<rparr>)) (\<lambda>r.
        if oval r \<noteq> 0 then andThen (ibv_CleanUp w) (\<lambda>_. Abort (Exit (- 1)))
        else if comptype (prot (p_of w)) = NP_COMP_EVENT then Call (Lib (Rc_set 0)) (\<lambda>_. Ret w)
        else Ret w)))"

text \<open>The request that \<open>SendData\<close> posts; a send has no remote address.\<close>

definition send_request :: "ibv_world \<Rightarrow> ibv_mr \<Rightarrow> ibv_send_wr res" where
  "send_request w mr =
     (let c = commtype (prot (p_of w));
          raddr = nat (int (remote_address (glob w)) + (int (s_ptr (p_of w)) - int (s_buff (p_of w))));
          sg_entry = \<lparr>sg_lkey = lkey mr, sg_length = bufflen (p_of w), sg_addr = s_ptr (p_of w)\<rparr>;
          req = (\<lambda>opc a k. Inr \<lparr>sr_opcode = opc, sr_signaled = False, sr_sge = Some sg_entry, sr_remote_addr = a, sr_rkey = k\<rparr>)
      in if c = NP_COMM_SENDRECV then req IBV_WR_SEND 0 0
         else if c = NP_COMM_SENDRECV_WITH_IMM then req IBV_WR_SEND_WITH_IMM 0 0
         else if c = NP_COMM_RDMAWRITE then req IBV_WR_RDMA_WRITE raddr (remote_key (glob w))
         else if c = NP_COMM_RDMAWRITE_WITH_IMM then req IBV_WR_RDMA_WRITE_WITH_IMM raddr (remote_key (glob w))
         else Inl (Exit (- 1)))"

definition ibv_SendData :: "ibv_world \<Rightarrow> ibv_world ib_prog" where
  "ibv_SendData w =
     (case s_mr_hndl (glob w) of None \<Rightarrow> Abort BadAccess | Some mr \<Rightarrow>
      andThen (lift (send_request w mr)) (\<lambda>sr.
      Call (Lib (Ibv_post_send (qp_of (glob w)) sr)) (\<lambda>r.
      if oval r \<noteq> 0 then Ret (printf ''Error posting send request'' [] w) else Ret w)))"

definition ibv_RecvData :: "nat \<Rightarrow> ibv_world \<Rightarrow> ibv_world ib_prog" where
  "ibv_RecvData fuel w =
     (if commtype (prot (p_of w)) = NP_COMM_RDMAWRITE
      then let a = nat (int (r_ptr (p_of w)) + bufflen (p_of w) - 1) in
           Call (Spin a [word_of_int (97 + (if cache (p_of w) \<noteq> 0 then 1 - tr (p_of w) else 1))]) (\<lambda>_.
           Call (Store a [word_of_int (97 + (if cache (p_of w) \<noteq> 0 then tr (p_of w) else 0))]) (\<lambda>_. Ret w))
      else if comptype (prot (p_of w)) \<noteq> NP_COMP_EVENT
      then completion fuel (r_cq_hndl (glob w)) w
      else Call (Lib Rc_wait_set) (\<lambda>_.
           if preburst (p_of w) \<noteq> 0 then Call (Lib (Rc_set 0)) (\<lambda>_. Ret w) else Ret w))"

text \<open>
  \<open>Reset\<close>: one empty message in each direction.  The status of the previous completion is looked at
  before the queue is polled.
\<close>

definition ibv_Reset :: "nat \<Rightarrow> byte list \<Rightarrow> ibv_world \<Rightarrow> ibv_world ib_prog" where
  "ibv_Reset fuel stk w =
     andThen (if comptype (prot (p_of w)) = NP_COMP_EVENT then Call (Lib (Rc_set 0)) (\<lambda>_. Ret ()) else Ret ()) (\<lambda>_.
     Call (Lib (Ibv_post_recv (qp_of (glob w)) \<lparr>rr_sge = None\<rparr>)) (\<lambda>r.
     if oval r \<noteq> 0 then andThen (ibv_CleanUp w) (\<lambda>_. Abort (Exit (- 1)))
     else andThen (via (ibv_Sync stk w)) (\<lambda>w.
     Call (Lib (Ibv_post_send (qp_of (glob w)) \<lparr>sr_opcode = IBV_WR_SEND, sr_signaled = True, sr_sge = None,
       sr_remote_addr = 0, sr_rkey = 0\<rparr>)) (\<lambda>r.
     if oval r \<noteq> 0 then Abort (Exit (- 1))
     else if wc_status (glob w) \<noteq> IBV_WC_SUCCESS then Abort (Exit (- 1))
     else andThen (completion fuel (s_cq_hndl (glob w)) w) (\<lambda>w.
     if comptype (prot (p_of w)) = NP_COMP_EVENT then Call (Lib Rc_wait_set) (\<lambda>_. Ret w)
     else completion fuel (r_cq_hndl (glob w)) w)))))"

text \<open>
  The event thread.  It has the static variables in common with the main thread; of those it uses
  \<open>r_cq_hndl\<close>, which does not change once the thread runs.  The first argument bounds the number of
  completions taken and of events.
\<close>

primrec event_handler :: "nat \<Rightarrow> nat \<Rightarrow> ibv_world \<Rightarrow> ibv_world ib_prog" where
  "event_handler 0 cq w = Abort OutOfFuel"
| "event_handler (Suc n) cq w =
     Call (Lib (Ibv_poll_cq cq)) (\<lambda>r.
     let w = (if oval r > 0 then upd_ib (\<lambda>g. g\<lparr>wc_status := int (onum r 0)\<rparr>) w else w) in
     if oval r = 0 then Call (Lib (Ibv_req_notify_cq (r_cq_hndl (glob w)) 0)) (\<lambda>_. Ret w)
     else if oval r < 0 then Abort (Exit (- 1))
     else if wc_status (glob w) \<noteq> IBV_WC_SUCCESS then Abort (Exit (- 1))
     else Call (Lib Rc_get) (\<lambda>r.
       andThen (if oval r = 1 then Call (Lib Rc_wait_clear) (\<lambda>_. Ret ()) else Ret ()) (\<lambda>_.
       Call (Lib (Rc_set 1)) (\<lambda>_. event_handler n cq w))))"

primrec EventThread :: "nat \<Rightarrow> nat \<Rightarrow> ibv_world \<Rightarrow> ibv_world ib_prog" where
  "EventThread fuel 0 w = Abort OutOfFuel"
| "EventThread fuel (Suc n) w =
     Call (Lib Ibv_get_cq_event) (\<lambda>r.
     if oval r \<noteq> 0 then Ret (printf ''Failed to get CQ event'' [] w)
     else andThen (event_handler fuel (onum r 0) w) (EventThread fuel n))"

section \<open>Buffers\<close>

definition new_mr :: "os_reply \<Rightarrow> ibv_mr option" where
  "new_mr r = (if handle r = 0 then None
     else Some \<lparr>mr_ptr = handle r, lkey = word_of_nat (onum r 0), rkey = word_of_nat (onum r 1)\<rparr>)"

text \<open>The second half of \<open>MyMalloc\<close>: both buffers are registered.\<close>

definition reg_buffers :: "int \<Rightarrow> int \<Rightarrow> int \<Rightarrow> ibv_world \<Rightarrow> ibv_world ib_prog" where
  "reg_buffers len soff roff w =
     Call (Lib (Ibv_reg_mr (pd_hndl (glob w)) (r_buff (p_of w)) (len + CMAX soff roff)
       [IBV_ACCESS_LOCAL_WRITE, IBV_ACCESS_REMOTE_WRITE])) (\<lambda>r.
     let w = upd_ib (\<lambda>g. g\<lparr>r_mr_hndl := new_mr r\<rparr>) w in
     if r_mr_hndl (glob w) = None then Abort (Exit (- 1))
     else
     Call (Lib (Ibv_reg_mr (pd_hndl (glob w)) (s_buff (p_of w)) (len + soff) [IBV_ACCESS_LOCAL_WRITE])) (\<lambda>r.
     let w = upd_ib (\<lambda>g. g\<lparr>s_mr_hndl := new_mr r\<rparr>) w in
     if s_mr_hndl (glob w) = None then Abort (Exit (- 1)) else Ret w))"

definition ibv_MyMalloc :: "allocator \<Rightarrow> int \<Rightarrow> int \<Rightarrow> int \<Rightarrow> ibv_world \<Rightarrow> ibv_world ib_prog" where
  "ibv_MyMalloc alloc len soff roff w =
     andThen (malloc_shared alloc (unat (size_t (len + CMAX soff roff)))) (\<lambda>p.
     let w = upd_args (\<lambda>a. a\<lparr>r_buff := p\<rparr>) w in
     if r_buff (p_of w) = NULL then Abort (Exit (- 1))
     else if cache (p_of w) \<noteq> 0
     then reg_buffers len soff roff (upd_args (\<lambda>a. a\<lparr>s_buff := r_buff a\<rparr>) w)
     else andThen (malloc_shared alloc (unat (size_t (len + soff)))) (\<lambda>q.
          let w = upd_args (\<lambda>a. a\<lparr>s_buff := q\<rparr>) w in
          if s_buff (p_of w) = NULL then Abort (Exit (- 1)) else reg_buffers len soff roff w))"

text \<open>Give a region back; the handle is kept when that fails.\<close>

definition dereg :: "ibv_mr option \<Rightarrow> string \<Rightarrow> ibv_world \<Rightarrow> (ibv_mr option \<times> ibv_world) ib_prog" where
  "dereg m msg w =
     (case m of None \<Rightarrow> Ret (None, w)
      | Some mr \<Rightarrow> Call (Lib (Ibv_dereg_mr (mr_ptr mr))) (\<lambda>r.
          if oval r \<noteq> 0 then Ret (Some mr, printf msg [] w) else Ret (None, w)))"

definition ibv_FreeBuff :: "addr \<Rightarrow> addr \<Rightarrow> ibv_world \<Rightarrow> ibv_world ib_prog" where
  "ibv_FreeBuff buff1 buff2 w =
     andThen (dereg (s_mr_hndl (glob w)) ''Error deregistering send mr'' w) (\<lambda>(m, w).
     let w = upd_ib (\<lambda>g. g\<lparr>s_mr_hndl := m\<rparr>) w in
     andThen (dereg (r_mr_hndl (glob w)) ''Error deregistering recv mr'' w) (\<lambda>(m, w).
     let w = upd_ib (\<lambda>g. g\<lparr>r_mr_hndl := m\<rparr>) w in
     andThen (if buff1 \<noteq> NULL then free_shared buff1 else Ret ()) (\<lambda>_.
     andThen (if buff2 \<noteq> NULL then free_shared buff2 else Ret ()) (\<lambda>_. Ret w))))"

definition ibv_module :: "allocator \<Rightarrow> lfsr \<Rightarrow> nat \<Rightarrow> byte list \<Rightarrow> (ib_call os_ev, os_reply, IbvProt, ibv_glob) comm_module" where
  "ibv_module alloc L fuel stk =
     \<lparr>mInit = (\<lambda>w. Ret (ibv_Init w)), mSetup = ibv_Setup stk,
      mSendRepeat = (\<lambda>n w. via (ibv_SendRepeat n w)), mRecvRepeat = (\<lambda>w. via (ibv_RecvRepeat w)),
      mMyMalloc = ibv_MyMalloc alloc, mInitBufferData = (\<lambda>n so ro. on_shared (InitBufferData L n so ro)),
      mAfterAlignmentInit = (\<lambda>w. via (ibv_AfterAlignmentInit w)), mPrepareToReceive = ibv_PrepareToReceive,
      mSync = (\<lambda>w. via (ibv_Sync stk w)), mSendData = ibv_SendData, mRecvData = ibv_RecvData fuel,
      mCheckBufferData = (\<lambda>n so ro. on_shared (CheckBufferData L n so ro)),
      mFreeBuff = ibv_FreeBuff\<rparr>"

end
