(* ===== verification/Ibv_Safety.thy ===== *)
theory Ibv_Safety
  imports Ibv
begin

text \<open>
  The InfiniBand module against the verbs library as a device: every call it makes is one that the
  documentation of the library allows in the state the library is in, on every path, errors included.
  The invariant ties the module's handles to the objects that are alive.
\<close>

section \<open>Programs on the sockets\<close>

text \<open>A device that allows everything.\<close>

definition sk_dev :: "(sock_ev, reply, unit) device" where
  "sk_dev = \<lparr>d_legal = (\<lambda>_ _. True), d_adm = (\<lambda>_ _ _. True), d_upd = (\<lambda>_ _ s. s)\<rparr>"

lemma sk_dev_simps [simp]: "d_legal sk_dev e s" "d_adm sk_dev e s r" "d_upd sk_dev e r s = s"
  by (simp_all add: sk_dev_def)

lemma wp_sk: "wp sk_dev (\<lambda>e _. E e v) (\<lambda>x _. Q x v) p () \<Longrightarrow> wp verbs_dev E Q (via p) v"
  by (induction p) (auto simp del: split_paired_All)

lemma wp_readFully_loop: "(\<And>n b. Q (n, b) ()) \<Longrightarrow> wp sk_dev E Q (readFully_loop fd len left buf) ()"
proof (induction left arbitrary: buf rule: less_induct)
  case (less left)
  then show ?case by (subst readFully_loop.simps) auto
qed

lemma wp_readFully [simp]: "(\<And>n b. Q (n, b) ()) \<Longrightarrow> wp sk_dev E Q (readFully fd len) ()"
  by (simp add: readFully_def wp_readFully_loop)

lemma wp_Sync: "wp sk_dev (\<lambda>e _. e = Exit 3) (\<lambda>w' _. w' = w) (ibv_Sync stk w) ()"
  by (simp add: ibv_Sync_def)

lemma wp_establish:
  "wp sk_dev (\<lambda>e _. True) (\<lambda>w' _. glob w' = glob w \<and> tr (p_of w') = tr (p_of w)) (ibv_establish w) ()"
  by (simp add: ibv_establish_def upd_prot_def Let_def)

lemma wp_setup_addr: "wp sk_dev (\<lambda>e _. True) (\<lambda>w' _. glob w' = glob w) (ibv_setup_addr fd w) ()"
  by (simp add: ibv_setup_addr_def upd_prot_def Let_def)

section \<open>Handles and objects\<close>

definition ib_objs :: "ibv_glob \<Rightarrow> vres set" where
  "ib_objs g = (if ctx g = 0 then {} else {Ctx (ctx g)}) \<union> (if pd_hndl g = 0 then {} else {Pd (pd_hndl g)}) \<union>
     (if s_cq_hndl g = 0 then {} else {Cq (s_cq_hndl g)}) \<union> (if r_cq_hndl g = 0 then {} else {Cq (r_cq_hndl g)}) \<union>
     (case qp_hndl g of None \<Rightarrow> {} | Some q \<Rightarrow> {Qp (qp_ptr q)}) \<union>
     (case s_mr_hndl g of None \<Rightarrow> {} | Some m \<Rightarrow> {Mr (mr_ptr m)}) \<union>
     (case r_mr_hndl g of None \<Rightarrow> {} | Some m \<Rightarrow> {Mr (mr_ptr m)})"

text \<open>
  The live objects are exactly those the handles point to, different handles point to different
  objects, and the library knows them to belong together.  A device list may be left over.
\<close>

definition ib_inv :: "ibv_glob \<Rightarrow> verbs \<Rightarrow> bool" where
  "ib_inv g v \<longleftrightarrow> live v - range DevList = ib_objs g \<and>
     (s_cq_hndl g \<noteq> 0 \<longrightarrow> s_cq_hndl g \<noteq> r_cq_hndl g) \<and>
     (\<forall>q. qp_hndl g = Some q \<longrightarrow> qp_ptr q \<noteq> 0 \<and> qpuse v (qp_ptr q) = (pd_hndl g, s_cq_hndl g, r_cq_hndl g)) \<and>
     (\<forall>m. s_mr_hndl g = Some m \<or> r_mr_hndl g = Some m \<longrightarrow> mr_ptr m \<noteq> 0 \<and> fst (region v (mr_ptr m)) = pd_hndl g) \<and>
     (\<forall>m m'. s_mr_hndl g = Some m \<and> r_mr_hndl g = Some m' \<longrightarrow> mr_ptr m \<noteq> mr_ptr m')"

lemma ib_inv_live: "ib_inv g v \<Longrightarrow> x \<notin> range DevList \<Longrightarrow> x \<in> live v \<longleftrightarrow> x \<in> ib_objs g"
  unfolding ib_inv_def by blast

lemma ib_objs_iff:
  "Ctx a \<in> ib_objs g \<longleftrightarrow> a \<noteq> 0 \<and> a = ctx g"
  "Pd a \<in> ib_objs g \<longleftrightarrow> a \<noteq> 0 \<and> a = pd_hndl g"
  "Cq a \<in> ib_objs g \<longleftrightarrow> a \<noteq> 0 \<and> (a = s_cq_hndl g \<or> a = r_cq_hndl g)"
  "Qp a \<in> ib_objs g \<longleftrightarrow> (\<exists>q. qp_hndl g = Some q \<and> a = qp_ptr q)"
  "Mr a \<in> ib_objs g \<longleftrightarrow> (\<exists>m. (s_mr_hndl g = Some m \<or> r_mr_hndl g = Some m) \<and> a = mr_ptr m)"
  "DevList a \<notin> ib_objs g"
  by (auto simp: ib_objs_def split: option.splits if_splits)

lemma live_iff:
  assumes "ib_inv g v"
  shows "Ctx a \<in> live v \<longleftrightarrow> a \<noteq> 0 \<and> a = ctx g" "Pd a \<in> live v \<longleftrightarrow> a \<noteq> 0 \<and> a = pd_hndl g"
    "Cq a \<in> live v \<longleftrightarrow> a \<noteq> 0 \<and> (a = s_cq_hndl g \<or> a = r_cq_hndl g)"
    "Qp a \<in> live v \<longleftrightarrow> (\<exists>q. qp_hndl g = Some q \<and> a = qp_ptr q)"
    "Mr a \<in> live v \<longleftrightarrow> (\<exists>m. (s_mr_hndl g = Some m \<or> r_mr_hndl g = Some m) \<and> a = mr_ptr m)"
  by (simp_all add: ib_inv_live [OF assms] ib_objs_iff image_iff)

section \<open>Tearing down\<close>

text \<open>What a conditional destruction takes away; \<open>c\<close> destroys the object \<open>x\<close>.\<close>

definition gone :: "bool \<Rightarrow> vres \<Rightarrow> vres set" where
  "gone b x = (if b then {x} else {})"

definition mr_set :: "ibv_mr option \<Rightarrow> vres set" where
  "mr_set m = Mr ` mr_ptr ` set_option m"

lemma gone_iff [simp]: "y \<in> gone b x \<longleftrightarrow> b \<and> y = x"
  by (simp add: gone_def)

lemma mr_set_iff [simp]: "y \<in> mr_set m \<longleftrightarrow> (\<exists>mr. m = Some mr \<and> y = Mr (mr_ptr mr))"
  by (cases m) (auto simp: mr_set_def)


definition destroys :: "ib_call \<Rightarrow> vres \<Rightarrow> bool" where
  "destroys c x \<longleftrightarrow> (\<forall>v r. (lib_adm c v r \<longrightarrow> oval r = 0) \<and> lib_upd c r v = v\<lparr>live := live v - {x}\<rparr>)"

lemma destroys_simps [simp]:
  "destroys (Ibv_destroy_qp q) (Qp q)" "destroys (Ibv_destroy_cq c) (Cq c)" "destroys (Ibv_dereg_mr m) (Mr m)"
  "destroys (Ibv_dealloc_pd d) (Pd d)" "destroys (Ibv_close_device c') (Ctx c')"
  by (simp_all add: destroys_def)

lemma wp_destroy:
  assumes "destroys c x" and "b \<Longrightarrow> lib_legal c v" and "Q w (v\<lparr>live := live v - gone b x\<rparr>)"
  shows "wp verbs_dev E Q (destroy b c msg w) v"
  using assms by (cases b) (auto simp: destroy_def destroys_def gone_def)

lemmas wp_destroys = destroys_simps [THEN wp_destroy]

lemma wp_destroy_mr:
  assumes "\<And>mr. m = Some mr \<Longrightarrow> Mr (mr_ptr mr) \<in> live v"
    and "Q w (v\<lparr>live := live v - mr_set m\<rparr>)"
  shows "wp verbs_dev E Q (case m of None \<Rightarrow> Ret w | Some m \<Rightarrow> destroy True (Ibv_dereg_mr (mr_ptr m)) msg w) v"
  using assms by (cases m) (simp_all add: destroy_def mr_set_def)

lemma wp_finalizeIB:
  assumes inv: "ib_inv (glob w) v"
  shows "wp verbs_dev E (\<lambda>w' v'. w' = w \<and> live v' \<subseteq> range DevList) (finalizeIB w) v"
proof -
  note l = live_iff [OF inv]
  have cqs: "s_cq_hndl (glob w) \<noteq> 0 \<Longrightarrow> s_cq_hndl (glob w) \<noteq> r_cq_hndl (glob w)"
    and mrs: "\<And>m m'. s_mr_hndl (glob w) = Some m \<Longrightarrow> r_mr_hndl (glob w) = Some m' \<Longrightarrow> mr_ptr m \<noteq> mr_ptr m'"
    using inv unfolding ib_inv_def by blast+
  define S where "S = live v - gone (qp_hndl (glob w) \<noteq> None) (Qp (qp_of (glob w))) -
    gone (r_cq_hndl (glob w) \<noteq> 0) (Cq (r_cq_hndl (glob w))) - gone (s_cq_hndl (glob w) \<noteq> 0) (Cq (s_cq_hndl (glob w))) -
    mr_set (s_mr_hndl (glob w)) - mr_set (r_mr_hndl (glob w)) - gone (pd_hndl (glob w) \<noteq> 0) (Pd (pd_hndl (glob w)))"
  have left: "(\<exists>n. x = DevList n) \<or> ctx (glob w) \<noteq> 0 \<and> x = Ctx (ctx (glob w))" if "x \<in> S" for x
    using that unfolding S_def by (cases x) (auto simp: l qp_of_def)
  then have S: "S \<subseteq> range DevList \<union> gone (ctx (glob w) \<noteq> 0) (Ctx (ctx (glob w)))"
    "\<forall>x \<in> S. case x of DevList _ \<Rightarrow> True | Ctx _ \<Rightarrow> True | _ \<Rightarrow> False" by fastforce+
  have ctx: "ctx (glob w) \<noteq> 0 \<Longrightarrow> Ctx (ctx (glob w)) \<in> S" by (simp add: S_def l)
  show ?thesis
    unfolding finalizeIB_def Let_def wp_andThen
    apply (rule wp_destroys)
     apply (auto simp: l qp_of_def) [1]
    apply (rule wp_destroys)
     apply (auto simp: l qp_of_def) [1]
    apply (rule wp_destroys)
    subgoal using cqs by (auto simp: l qp_of_def)
    apply (rule wp_destroy_mr)
     apply (auto simp: l) [1]
    apply (rule wp_destroy_mr)
    subgoal by (auto simp: l dest: mrs)
    apply (rule wp_destroys)
    subgoal by (auto simp: l qp_of_def)
    apply (rule wp_destroys)
    subgoal using S(2) [unfolded S_def] ctx [unfolded S_def] by (simp del: gone_iff mr_set_iff)
    subgoal using S(1) [unfolded S_def] by (simp del: gone_iff mr_set_iff, blast)
    done
qed

lemma wp_CleanUp:
  assumes "ib_inv (glob w) v"
  shows "wp verbs_dev E (\<lambda>w' v'. w' = w \<and> live v' \<subseteq> range DevList) (ibv_CleanUp w) v"
  unfolding ibv_CleanUp_def
  by (rule wp_then [OF wp_sk [where Q = "\<lambda>w' v'. w' = w \<and> v' = v"]]) (use wp_finalizeIB [OF assms] in simp_all)

lemma wp_CleanUp_abort:
  "ib_inv (glob w) v \<Longrightarrow>
   wp verbs_dev (\<lambda>_ _. True) (\<lambda>x. wp verbs_dev (\<lambda>_ _. True) Q (Abort e)) (ibv_CleanUp w) v"
  by (rule wp_mono [OF wp_CleanUp]) simp_all

section \<open>Setting up\<close>

text \<open>The handles of a process that has not set up anything yet.\<close>

definition ib_fresh :: "ibv_glob \<Rightarrow> bool" where
  "ib_fresh g \<longleftrightarrow> hca g = 0 \<and> ctx g = 0 \<and> pd_hndl g = 0 \<and> s_cq_hndl g = 0 \<and> r_cq_hndl g = 0 \<and> qp_hndl g = None \<and>
     s_mr_hndl g = None \<and> r_mr_hndl g = None"

text \<open>All objects exist, and the queue pair is in the state \<open>st\<close>.\<close>

definition ib_ready :: "qp_state \<Rightarrow> ibv_glob \<Rightarrow> verbs \<Rightarrow> bool" where
  "ib_ready st g v \<longleftrightarrow> ib_inv g v \<and> ctx g \<noteq> 0 \<and> pd_hndl g \<noteq> 0 \<and> s_cq_hndl g \<noteq> 0 \<and> r_cq_hndl g \<noteq> 0 \<and>
     (\<exists>q. qp_hndl g = Some q \<and> qpst v (qp_ptr q) = st)"

lemma wp_objects:
  assumes "ib_fresh (glob w)" and "live v = {}"
  shows "wp verbs_dev E (\<lambda>(c, w') v'. self w' = self w \<and> (c = - 1 \<and> ib_inv (glob w') v' \<or>
     c = 0 \<and> ib_ready IBV_QPS_RESET (glob w') v' \<and> live v' \<inter> range DevList = {} \<and>
     s_mr_hndl (glob w') = None \<and> r_mr_hndl (glob w') = None)) (ib_objects w) v"
  using assms
  by (simp add: ib_objects_def Let_def ib_fresh_def fresh_def born_def)
    (auto simp: ib_inv_def ib_ready_def ib_objs_def)

lemma ib_ready_cong:
  "ib_ready st g v \<Longrightarrow> ctx g' = ctx g \<Longrightarrow> pd_hndl g' = pd_hndl g \<Longrightarrow> s_cq_hndl g' = s_cq_hndl g \<Longrightarrow>
   r_cq_hndl g' = r_cq_hndl g \<Longrightarrow> qp_hndl g' = qp_hndl g \<Longrightarrow> s_mr_hndl g' = s_mr_hndl g \<Longrightarrow> r_mr_hndl g' = r_mr_hndl g \<Longrightarrow>
   ib_ready st g' v"
  by (simp add: ib_ready_def ib_inv_def ib_objs_def)

text \<open>What the transitions of the queue pair change does not matter to the invariant.\<close>

lemma ib_inv_states [simp]:
  "ib_inv (g\<lparr>qp_attr := a\<rparr>) v = ib_inv g v" "ib_inv g (v\<lparr>qpst := f\<rparr>) = ib_inv g v" "ib_inv g (v\<lparr>qpdest := d\<rparr>) = ib_inv g v"
  by (simp_all add: ib_inv_def ib_objs_def)

lemma ib_ready_states [simp]:
  "ib_ready st (g\<lparr>qp_attr := a\<rparr>) v = ib_ready st g v" "ib_ready st g (v\<lparr>qpdest := d\<rparr>) = ib_ready st g v"
  by (simp_all add: ib_ready_def)

lemma ib_ready_qpst: "ib_ready st g v \<Longrightarrow> ib_ready st' g (v\<lparr>qpst := (qpst v)(qp_of g := st')\<rparr>)"
  by (auto simp: ib_ready_def qp_of_def)

lemma ib_ready_Qp: "ib_ready st g v \<Longrightarrow> Qp (qp_of g) \<in> live v \<and> qpst v (qp_of g) = st"
  by (auto simp: ib_ready_def live_iff qp_of_def)

lemma ib_ready_cqs: "ib_ready st g v \<Longrightarrow> Cq (s_cq_hndl g) \<in> live v \<and> Cq (r_cq_hndl g) \<in> live v \<and> Pd (pd_hndl g) \<in> live v"
  by (auto simp: ib_ready_def live_iff)

lemma ib_ready_inv: "ib_ready st g v \<Longrightarrow> ib_inv g v"
  by (simp add: ib_ready_def)

lemma ib_inv_clean: "ib_inv g v \<Longrightarrow> live v \<inter> range DevList = {} \<Longrightarrow> live v = ib_objs g"
  unfolding ib_inv_def by blast

lemma wp_exchange:
  assumes "ib_ready st (glob w) v"
  shows "wp sk_dev (\<lambda>e _. False) (\<lambda>(c, w') _. self w' = self w \<and> ib_ready st (glob w') v \<and> (c = - 1 \<or> c = 0) \<and>
    s_mr_hndl (glob w') = s_mr_hndl (glob w) \<and> r_mr_hndl (glob w') = r_mr_hndl (glob w)) (ib_exchange w) ()"
proof -
  obtain q where "qp_hndl (glob w) = Some q" using assms by (auto simp: ib_ready_def)
  then show ?thesis using assms by (auto simp: ib_exchange_def Let_def intro: ib_ready_cong)
qed

text \<open>The queue pair is connected: ready to send, to the peer the module has read from the socket.\<close>

definition connected :: "ibv_glob \<Rightarrow> verbs \<Rightarrow> bool" where
  "connected g v \<longleftrightarrow> ib_ready IBV_QPS_RTS g v \<and> qpdest v (qp_of g) = (d_lid g, d_qp_num g)"

lemma wp_bring_up:
  assumes "ib_ready IBV_QPS_RESET (glob w) v"
  shows "wp verbs_dev (\<lambda>e v'. e = Exit 3) (\<lambda>(c, w') v'. live v' = live v \<and> self w' = self w \<and> ib_inv (glob w') v' \<and>
     (c = - 1 \<or> c = 0 \<and> connected (glob w') v') \<and>
     s_mr_hndl (glob w') = s_mr_hndl (glob w) \<and> r_mr_hndl (glob w') = r_mr_hndl (glob w)) (ib_bring_up stk w) v"
proof -
  have q: "qp_of (qp_attr_update f g) = qp_of g" for f g by (simp add: qp_of_def)
  note r = ib_ready_Qp [OF assms] ib_ready_cqs [OF assms]
  show ?thesis
    using assms r unfolding ib_bring_up_def Let_def
    by (auto simp: q connected_def intro!: wp_sk wp_mono [OF wp_Sync] ib_ready_inv
        intro: ib_ready_cong ib_ready_qpst)
qed

lemma wp_initIB:
  assumes "ib_fresh (glob w)" and "live v = {}"
  shows "wp verbs_dev (\<lambda>e v'. e = Exit 3) (\<lambda>(c, w') v'. self w' = self w \<and> ib_inv (glob w') v' \<and>
     (c = - 1 \<or> c = 0 \<and> connected (glob w') v' \<and> live v' \<inter> range DevList = {} \<and>
       s_mr_hndl (glob w') = None \<and> r_mr_hndl (glob w') = None)) (initIB stk w) v"
proof -
  let ?E = "\<lambda>e (v' :: verbs). e = Exit 3"
  let ?Q = "\<lambda>(c :: int, w' :: ibv_world) v'. self w' = self w \<and> ib_inv (glob w') v' \<and>
     (c = - 1 \<or> c = 0 \<and> connected (glob w') v' \<and> live v' \<inter> range DevList = {} \<and>
       s_mr_hndl (glob w') = None \<and> r_mr_hndl (glob w') = None)"
  have up: "wp verbs_dev ?E ?Q (ib_bring_up stk w1) v1"
    if "ib_ready IBV_QPS_RESET (glob w1) v1" "self w1 = self w" "live v1 \<inter> range DevList = {}"
      "s_mr_hndl (glob w1) = None" "r_mr_hndl (glob w1) = None" for w1 v1
    by (rule wp_mono [OF wp_bring_up [OF that(1)]]) (use that in auto)
  have ex: "wp verbs_dev ?E (\<lambda>(c, w2) v2. v2 = v1 \<and> self w2 = self w \<and> ib_ready IBV_QPS_RESET (glob w2) v1 \<and> (c = - 1 \<or> c = 0) \<and>
      s_mr_hndl (glob w2) = None \<and> r_mr_hndl (glob w2) = None) (via (ib_exchange w1)) v1"
    if "ib_ready IBV_QPS_RESET (glob w1) v1" "self w1 = self w" "s_mr_hndl (glob w1) = None" "r_mr_hndl (glob w1) = None" for w1 v1
    by (rule wp_sk, rule wp_mono [OF wp_exchange [OF that(1)]]) (use that in auto)
  show ?thesis
    unfolding initIB_def
    by (rule wp_then [OF wp_objects [OF assms]])
      (auto simp del: wp_andThen simp: ib_ready_inv [of IBV_QPS_RESET] intro!: wp_then [OF ex] up)
qed


section \<open>Buffers and transfers\<close>

text \<open>Both buffers are registered: \<open>ns\<close> bytes from \<open>s_buff\<close> for sending, \<open>nr\<close> from \<open>r_buff\<close> for receiving.\<close>

definition registered :: "int \<Rightarrow> int \<Rightarrow> ibv_world \<Rightarrow> verbs \<Rightarrow> bool" where
  "registered ns nr w v \<longleftrightarrow> connected (glob w) v \<and>
     (\<exists>m. s_mr_hndl (glob w) = Some m \<and>
        region v (mr_ptr m) = (pd_hndl (glob w), s_buff (p_of w), ns, lkey m, [IBV_ACCESS_LOCAL_WRITE])) \<and>
     (\<exists>m. r_mr_hndl (glob w) = Some m \<and>
        region v (mr_ptr m) = (pd_hndl (glob w), r_buff (p_of w), nr, lkey m, [IBV_ACCESS_LOCAL_WRITE, IBV_ACCESS_REMOTE_WRITE]))"

definition unregistered :: "ibv_world \<Rightarrow> verbs \<Rightarrow> bool" where
  "unregistered w v \<longleftrightarrow> connected (glob w) v \<and> s_mr_hndl (glob w) = None \<and> r_mr_hndl (glob w) = None"

lemma connectedD:
  assumes "connected g v"
  shows "ib_inv g v" "Pd (pd_hndl g) \<in> live v" "Cq (s_cq_hndl g) \<in> live v" "Cq (r_cq_hndl g) \<in> live v"
    "Qp (qp_of g) \<in> live v" "qpst v (qp_of g) = IBV_QPS_RTS" "fst (qpuse v (qp_of g)) = pd_hndl g"
proof -
  have r: "ib_ready IBV_QPS_RTS g v" using assms by (simp add: connected_def)
  show "ib_inv g v" by (rule ib_ready_inv [OF r])
  show "fst (qpuse v (qp_of g)) = pd_hndl g" using r by (auto simp: ib_ready_def ib_inv_def qp_of_def)
qed (use assms ib_ready_cqs ib_ready_Qp in \<open>auto simp: connected_def\<close>)

lemma new_mr_cases:
  obtains "handle r = 0" "new_mr r = None"
  | m where "handle r \<noteq> 0" "new_mr r = Some m" "mr_ptr m = handle r" "lkey m = word_of_nat (onum r 0)"
  by (cases "handle r = 0") (simp_all add: new_mr_def)

lemma new_mr_None: "new_mr r = None \<longleftrightarrow> handle r = 0"
  by (simp add: new_mr_def)

text \<open>A new region, for either buffer.\<close>

lemma ib_objs_mr:
  "r_mr_hndl g = None \<Longrightarrow> ib_objs (g\<lparr>r_mr_hndl := Some m\<rparr>) = insert (Mr (mr_ptr m)) (ib_objs g)"
  "s_mr_hndl g = None \<Longrightarrow> ib_objs (g\<lparr>s_mr_hndl := Some m\<rparr>) = insert (Mr (mr_ptr m)) (ib_objs g)"
  by (simp_all add: ib_objs_def insert_commute Un_ac)

lemma live_add_mr: "live (add_mr h x v) - range DevList = insert (Mr h) (live v - range DevList)"
  by (auto simp: add_mr_def)

lemma connected_add_mr:
  assumes c: "connected g v" and new: "Mr (mr_ptr m) \<notin> live v" "mr_ptr m \<noteq> 0" "fst x = pd_hndl g"
  shows "r_mr_hndl g = None \<Longrightarrow> connected (g\<lparr>r_mr_hndl := Some m\<rparr>) (add_mr (mr_ptr m) x v)"
    "s_mr_hndl g = None \<Longrightarrow> connected (g\<lparr>s_mr_hndl := Some m\<rparr>) (add_mr (mr_ptr m) x v)"
proof -
  note inv = connectedD(1) [OF c]
  have old: "mr_ptr m' \<noteq> mr_ptr m" if "s_mr_hndl g = Some m' \<or> r_mr_hndl g = Some m'" for m'
    using new(1) that by (auto simp: live_iff [OF inv])
  have q: "qp_of (g\<lparr>r_mr_hndl := Some m\<rparr>) = qp_of g" "qp_of (g\<lparr>s_mr_hndl := Some m\<rparr>) = qp_of g"
    by (simp_all add: qp_of_def)
  have sel: "qpst (add_mr h x v) = qpst v" "qpuse (add_mr h x v) = qpuse v" "qpdest (add_mr h x v) = qpdest v"
    "region (add_mr h x v) = (region v)(h := x)" for h
    by (simp_all add: add_mr_def)
  show "connected (g\<lparr>r_mr_hndl := Some m\<rparr>) (add_mr (mr_ptr m) x v)" if "r_mr_hndl g = None"
    using c that old new(2,3)
    by (simp add: connected_def ib_ready_def ib_inv_def live_add_mr ib_objs_mr q sel)
  show "connected (g\<lparr>s_mr_hndl := Some m\<rparr>) (add_mr (mr_ptr m) x v)" if "s_mr_hndl g = None"
    using c that old new(2,3)
    by (simp add: connected_def ib_ready_def ib_inv_def live_add_mr ib_objs_mr q sel) fastforce
qed

lemma wp_reg_mr:
  assumes "Pd d \<in> live v" "0 \<le> n" "\<And>r. new_mr r = None \<Longrightarrow> wp verbs_dev E Q (k r) v"
    and "\<And>r. handle r \<noteq> 0 \<Longrightarrow> Mr (handle r) \<notin> live v \<Longrightarrow>
      wp verbs_dev E Q (k r) (add_mr (handle r) (d, a, n, word_of_nat (onum r 0), acc) v)"
  shows "wp verbs_dev E Q (Call (Lib (Ibv_reg_mr d a n acc)) k) v"
  using assms by (auto simp: fresh_def new_mr_def)

lemma registered_new:
  assumes c: "connected (glob w) v" and none: "s_mr_hndl (glob w) = None" "r_mr_hndl (glob w) = None"
    and new: "handle r \<noteq> 0" "Mr (handle r) \<notin> live v" "handle r' \<noteq> 0" "Mr (handle r') \<notin> insert (Mr (handle r)) (live v)"
  shows "registered ns nr (upd_ib (\<lambda>g. g\<lparr>s_mr_hndl := new_mr r'\<rparr>) (upd_ib (\<lambda>g. g\<lparr>r_mr_hndl := new_mr r\<rparr>) w))
      (add_mr (handle r') (pd_hndl (glob w), s_buff (p_of w), ns, word_of_nat (onum r' 0), [IBV_ACCESS_LOCAL_WRITE])
        (add_mr (handle r) (pd_hndl (glob w), r_buff (p_of w), nr, word_of_nat (onum r 0),
          [IBV_ACCESS_LOCAL_WRITE, IBV_ACCESS_REMOTE_WRITE]) v))"
proof -
  obtain m where m1: "new_mr r = Some m" "mr_ptr m = handle r" "lkey m = word_of_nat (onum r 0)"
    using new(1) by (cases r rule: new_mr_cases) auto
  obtain m' where m2: "new_mr r' = Some m'" "mr_ptr m' = handle r'" "lkey m' = word_of_nat (onum r' 0)"
    using new(3) by (cases r' rule: new_mr_cases) auto
  have "connected (glob w\<lparr>r_mr_hndl := Some m\<rparr>) (add_mr (mr_ptr m) (pd_hndl (glob w), r_buff (p_of w), nr,
      word_of_nat (onum r 0), [IBV_ACCESS_LOCAL_WRITE, IBV_ACCESS_REMOTE_WRITE]) v)"
    by (rule connected_add_mr(1) [OF c]) (use new m1 none in simp_all)
  then have "connected (glob w\<lparr>r_mr_hndl := Some m, s_mr_hndl := Some m'\<rparr>)
     (add_mr (mr_ptr m') (pd_hndl (glob w), s_buff (p_of w), ns, word_of_nat (onum r' 0), [IBV_ACCESS_LOCAL_WRITE])
     (add_mr (mr_ptr m) (pd_hndl (glob w), r_buff (p_of w), nr, word_of_nat (onum r 0),
       [IBV_ACCESS_LOCAL_WRITE, IBV_ACCESS_REMOTE_WRITE]) v))"
    by (rule connected_add_mr(2)) (use new m1 m2 none in \<open>simp_all add: add_mr_def\<close>)
  then show ?thesis using new m1 m2 by (auto simp: registered_def add_mr_def)
qed

lemma wp_reg_buffers:
  assumes "unregistered w v" and "0 \<le> len" and "0 \<le> soff"
  shows "wp verbs_dev (\<lambda>_ _. True) (\<lambda>w' v'. registered (len + soff) (len + CMAX soff roff) w' v' \<and> self w' = self w)
    (reg_buffers len soff roff w) v"
proof -
  have len: "0 \<le> len + CMAX soff roff" "0 \<le> len + soff" using assms(2,3) by (simp_all add: CMAX_def)
  have c: "connected (glob w) v" and none: "s_mr_hndl (glob w) = None" "r_mr_hndl (glob w) = None"
    using assms(1) by (simp_all add: unregistered_def)
  have pd: "Pd (pd_hndl (glob w)) \<in> live v" by (rule connectedD [OF c])
  show ?thesis
    unfolding reg_buffers_def Let_def
  proof (rule wp_reg_mr, goal_cases)
    case (4 r)
    have "Pd (pd_hndl (glob w)) \<in> live (add_mr h x v)" for h x using pd by (simp add: add_mr_def)
    moreover have "Mr h \<notin> insert (Mr (handle r)) (live v)" if "Mr h \<notin> live (add_mr (handle r) x v)" for h x
      using that by (simp add: add_mr_def)
    ultimately show ?case
      using len registered_new [OF c none 4] 4 by (auto simp del: wp.simps(3) simp: new_mr_None intro!: wp_reg_mr)
  qed (use pd len in simp_all)
qed

lemma wp_MyMalloc:
  assumes "unregistered w v" and "0 \<le> len" and "0 \<le> soff"
  shows "wp verbs_dev (\<lambda>_ _. True) (\<lambda>w' v'. registered (len + soff) (len + CMAX soff roff) w' v' \<and> r_buff (p_of w') \<noteq> NULL \<and>
     s_buff (p_of w') \<noteq> NULL \<and> bufflen (p_of w') = bufflen (p_of w) \<and> cache (p_of w') = cache (p_of w) \<and>
     (cache (p_of w) \<noteq> 0 \<longrightarrow> s_buff (p_of w') = r_buff (p_of w'))) (ibv_MyMalloc alloc len soff roff w) v"
  unfolding ibv_MyMalloc_def malloc_shared_def Let_def
  by (auto intro!: wp_mono [OF wp_reg_buffers] assms simp: assms(1) [unfolded unregistered_def] unregistered_def)

lemma connected_del_mr:
  assumes c: "connected g v"
  shows "s_mr_hndl g = Some m \<Longrightarrow> connected (g\<lparr>s_mr_hndl := None\<rparr>) (v\<lparr>live := live v - {Mr (mr_ptr m)}\<rparr>)"
    "r_mr_hndl g = Some m \<Longrightarrow> connected (g\<lparr>r_mr_hndl := None\<rparr>) (v\<lparr>live := live v - {Mr (mr_ptr m)}\<rparr>)"
proof -
  have q: "qp_of (g\<lparr>r_mr_hndl := None\<rparr>) = qp_of g" "qp_of (g\<lparr>s_mr_hndl := None\<rparr>) = qp_of g"
    by (simp_all add: qp_of_def)
  have l: "live v - {x} - range DevList = live v - range DevList - {x}" for x by blast
  have dist: "mr_ptr m \<noteq> mr_ptr m'" if "s_mr_hndl g = Some m" "r_mr_hndl g = Some m'" for m m'
    using connectedD(1) [OF c] that unfolding ib_inv_def by blast
  show "connected (g\<lparr>s_mr_hndl := None\<rparr>) (v\<lparr>live := live v - {Mr (mr_ptr m)}\<rparr>)" if m: "s_mr_hndl g = Some m"
  proof -
    have "ib_objs (g\<lparr>s_mr_hndl := None\<rparr>) = ib_objs g - {Mr (mr_ptr m)}"
      using m dist [OF m] by (cases "r_mr_hndl g") (auto simp: ib_objs_def split: option.splits)
    then show ?thesis using c by (simp add: connected_def ib_ready_def ib_inv_def l q)
  qed
  show "connected (g\<lparr>r_mr_hndl := None\<rparr>) (v\<lparr>live := live v - {Mr (mr_ptr m)}\<rparr>)" if m: "r_mr_hndl g = Some m"
  proof -
    have "ib_objs (g\<lparr>r_mr_hndl := None\<rparr>) = ib_objs g - {Mr (mr_ptr m)}"
      using m dist [OF _ m] by (cases "s_mr_hndl g") (auto simp: ib_objs_def split: option.splits)
    then show ?thesis using c by (simp add: connected_def ib_ready_def ib_inv_def l q)
  qed
qed

lemma wp_free_shared: "wp verbs_dev (\<lambda>_ _. True) (\<lambda>_ v'. v' = v) (free_shared a) v"
  by (simp add: free_shared_def split: option.splits)

lemma wp_FreeBuff:
  assumes "registered ns nr w v"
  shows "wp verbs_dev (\<lambda>_ _. True) (\<lambda>w' v'. unregistered w' v' \<and> self w' = self w) (ibv_FreeBuff b1 b2 w) v"
proof -
  obtain m m' where m: "s_mr_hndl (glob w) = Some m" "r_mr_hndl (glob w) = Some m'" and c: "connected (glob w) v"
    using assms by (auto simp: registered_def)
  have live: "Mr (mr_ptr m) \<in> live v" "Mr (mr_ptr m') \<in> live v"
    using m by (auto simp: live_iff [OF connectedD(1) [OF c]])
  have "mr_ptr m \<noteq> mr_ptr m'" using m connectedD(1) [OF c] unfolding ib_inv_def by blast
  note live = live this
  have c1: "connected (glob w\<lparr>s_mr_hndl := None\<rparr>) (v\<lparr>live := live v - {Mr (mr_ptr m)}\<rparr>)"
    by (rule connected_del_mr(1) [OF c m(1)])
  have c2: "connected (glob w\<lparr>s_mr_hndl := None, r_mr_hndl := None\<rparr>) (v\<lparr>live := live v - {Mr (mr_ptr m)} - {Mr (mr_ptr m')}\<rparr>)"
    using connected_del_mr(2) [OF c1, of m'] m by simp
  then show ?thesis
    using live m
    by (auto simp: ibv_FreeBuff_def dereg_def unregistered_def Let_def intro!: wp_mono [OF wp_free_shared])
qed

text \<open>The variables that the transfers change do not matter.\<close>

lemma registered_irrelevant [simp]:
  "registered ns nr (upd_ib (\<lambda>g. g\<lparr>wc_status := x\<rparr>) w) v = registered ns nr w v"
  "registered ns nr (upd_ib (\<lambda>g. g\<lparr>remote_address := a\<rparr>) w) v = registered ns nr w v"
  "registered ns nr (upd_ib (\<lambda>g. g\<lparr>remote_key := k\<rparr>) w) v = registered ns nr w v"
  "registered ns nr (printf s as w) v = registered ns nr w v"
  "registered ns nr (w\<lparr>lfsr_data := d, out := ms\<rparr>) v = registered ns nr w v"
  by (simp_all add: registered_def connected_def ib_ready_def ib_inv_def ib_objs_def qp_of_def cong: option.case_cong)

text \<open>
  The buffer pointers of \<open>p\<close> for messages of \<open>bufflen\<close> bytes lie in regions of \<open>ns\<close> and \<open>nr\<close> bytes.
\<close>

definition inside :: "int \<Rightarrow> int \<Rightarrow> 'p ArgStruct \<Rightarrow> bool" where
  "inside ns nr p \<longleftrightarrow> 0 \<le> bufflen p \<and> s_buff p \<le> s_ptr p \<and> int (s_ptr p) + bufflen p \<le> int (s_buff p) + ns \<and>
     r_buff p \<le> r_ptr p \<and> int (r_ptr p) + bufflen p \<le> int (r_buff p) + nr"

lemma registered_Qp:
  assumes "registered ns nr w v"
  shows "connected (glob w) v" "Qp (qp_of (glob w)) \<in> live v" "qpst v (qp_of (glob w)) = IBV_QPS_RTS"
    "Cq (s_cq_hndl (glob w)) \<in> live v" "Cq (r_cq_hndl (glob w)) \<in> live v" "ib_inv (glob w) v"
  using assms connectedD by (auto simp: registered_def)

lemma registered_sge:
  assumes "registered ns nr w v" and "inside ns nr (p_of w)"
  shows "s_mr_hndl (glob w) = Some m \<Longrightarrow>
      sge_ok v (qp_of (glob w)) (Some \<lparr>sg_lkey = lkey m, sg_length = bufflen (p_of w), sg_addr = s_ptr (p_of w)\<rparr>) False"
    "r_mr_hndl (glob w) = Some m \<Longrightarrow>
      sge_ok v (qp_of (glob w)) (Some \<lparr>sg_lkey = lkey m, sg_length = bufflen (p_of w), sg_addr = r_ptr (p_of w)\<rparr>) True"
proof -
  note c = registered_Qp(1) [OF assms(1)]
  have pd: "fst (qpuse v (qp_of (glob w))) = pd_hndl (glob w)" by (rule connectedD(7) [OF c])
  have live: "Mr (mr_ptr m) \<in> live v" if "s_mr_hndl (glob w) = Some m \<or> r_mr_hndl (glob w) = Some m" for m
    using that by (auto simp: live_iff [OF connectedD(1) [OF c]])
  show "sge_ok v (qp_of (glob w)) (Some \<lparr>sg_lkey = lkey m, sg_length = bufflen (p_of w), sg_addr = s_ptr (p_of w)\<rparr>) False"
    if "s_mr_hndl (glob w) = Some m"
    using that assms pd live [of m] by (auto simp: sge_ok_def registered_def inside_def intro!: exI [of _ "mr_ptr m"])
  show "sge_ok v (qp_of (glob w)) (Some \<lparr>sg_lkey = lkey m, sg_length = bufflen (p_of w), sg_addr = r_ptr (p_of w)\<rparr>) True"
    if "r_mr_hndl (glob w) = Some m"
    using that assms pd live [of m] by (auto simp: sge_ok_def registered_def inside_def intro!: exI [of _ "mr_ptr m"])
qed

text \<open>What every transfer operation keeps: the regions, and the argument structure \<open>p\<close>.\<close>

definition transferring :: "int \<Rightarrow> int \<Rightarrow> IbvProt ArgStruct \<Rightarrow> ibv_world \<Rightarrow> verbs \<Rightarrow> bool" where
  "transferring ns nr p w v \<longleftrightarrow> registered ns nr w v \<and> inside ns nr (p_of w) \<and> p_of w = p"

lemma transferring_irrelevant [simp]:
  "transferring ns nr p (upd_ib (\<lambda>g. g\<lparr>wc_status := x\<rparr>) w) v = transferring ns nr p w v"
  "transferring ns nr p (printf s as w) v = transferring ns nr p w v"
  by (simp_all add: transferring_def)

lemma wp_SendData:
  assumes "transferring ns nr p w v"
  shows "wp verbs_dev (\<lambda>_ _. True) (transferring ns nr p) (ibv_SendData w) v"
proof (cases "s_mr_hndl (glob w)")
  case (Some m)
  have t: "registered ns nr w v" "inside ns nr (p_of w)" using assms by (auto simp: transferring_def)
  have "sr_sge sr = Some \<lparr>sg_lkey = lkey m, sg_length = bufflen (p_of w), sg_addr = s_ptr (p_of w)\<rparr>"
    if "send_request w m = Inr sr" for sr
    using that by (auto simp: send_request_def Let_def split: if_splits)
  then show ?thesis
    using Some assms registered_Qp [OF t(1)] registered_sge(1) [OF t Some]
    by (cases "send_request w m") (simp_all add: ibv_SendData_def)
qed (simp add: ibv_SendData_def)

lemma wp_PrepareToReceive:
  assumes "transferring ns nr p w v"
  shows "wp verbs_dev (\<lambda>_ _. True) (transferring ns nr p) (ibv_PrepareToReceive w) v"
proof -
  have t: "registered ns nr w v" "inside ns nr (p_of w)" using assms by (auto simp: transferring_def)
  show ?thesis
    using assms registered_Qp [OF t(1)] registered_sge(2) [OF t]
    by (auto simp: ibv_PrepareToReceive_def Let_def intro!: wp_CleanUp_abort split: option.splits)
qed

lemma wp_poll_cq:
  assumes "Cq cq \<in> live v" and "transferring ns nr p w v"
  shows "wp verbs_dev (\<lambda>_ _. True) (\<lambda>(ret, w') v'. v' = v \<and> transferring ns nr p w' v) (poll_cq n cq w) v"
  using assms by (induction n arbitrary: w) (auto simp: Let_def)

lemma wp_completion:
  assumes "Cq cq \<in> live v" and "transferring ns nr p w v"
  shows "wp verbs_dev (\<lambda>_ _. True) (\<lambda>w' v'. v' = v \<and> transferring ns nr p w' v) (completion fuel cq w) v"
  unfolding completion_def by (rule wp_then [OF wp_poll_cq [OF assms]]) auto

lemma wp_RecvData:
  assumes "transferring ns nr p w v"
  shows "wp verbs_dev (\<lambda>_ _. True) (transferring ns nr p) (ibv_RecvData fuel w) v"
proof -
  have "Cq (r_cq_hndl (glob w)) \<in> live v" using assms registered_Qp(5) by (auto simp: transferring_def)
  then show ?thesis
    using assms by (auto simp: ibv_RecvData_def Let_def intro!: wp_mono [OF wp_completion])
qed

lemma wp_Sync_ib: "wp verbs_dev (\<lambda>_ _. True) (\<lambda>w' v'. w' = w \<and> v' = v) (via (ibv_Sync stk w)) v"
  by (rule wp_sk, rule wp_mono [OF wp_Sync]) simp_all

lemma wp_Reset:
  assumes "transferring ns nr p w v"
  shows "wp verbs_dev (\<lambda>_ _. True) (transferring ns nr p) (ibv_Reset fuel stk w) v"
proof -
  have t: "registered ns nr w v" using assms by (simp add: transferring_def)
  have cq: "Cq (r_cq_hndl (glob w')) \<in> live v" if "transferring ns nr p w' v" for w'
    using that registered_Qp(5) by (auto simp: transferring_def)
  have rest: "wp verbs_dev (\<lambda>_ _. True) (transferring ns nr p)
     (if comptype (prot (p_of w')) = NP_COMP_EVENT then Call (Lib Rc_wait_set) (\<lambda>_. Ret w')
     else completion fuel (r_cq_hndl (glob w')) w') v" if "transferring ns nr p w' v" for w'
    using that by (auto intro!: wp_mono [OF wp_completion [OF cq]])
  show ?thesis
    using assms registered_Qp [OF t]
    by (auto simp del: wp_if simp: ibv_Reset_def sge_ok_def intro!: wp_CleanUp_abort wp_mono [OF wp_Sync_ib] wp_mono [OF wp_completion] rest)
qed

text \<open>The event thread makes legal calls on the completion queues it is told of.\<close>

lemma wp_event_handler:
  assumes "Cq cq \<in> live v" and "Cq (r_cq_hndl (glob w)) \<in> live v"
  shows "wp verbs_dev (\<lambda>_ _. True) (\<lambda>w' v'. v' = v \<and> Cq (r_cq_hndl (glob w')) \<in> live v) (event_handler n cq w) v"
  using assms by (induction n arbitrary: w) (auto simp: Let_def)

lemma wp_EventThread:
  assumes "Cq (r_cq_hndl (glob w)) \<in> live v"
  shows "wp verbs_dev (\<lambda>_ _. True) (\<lambda>_ v'. v' = v) (EventThread fuel n w) v"
  using assms
proof (induction n arbitrary: w)
  case (Suc n)
  then show ?case by (auto intro!: wp_mono [OF wp_event_handler])
qed simp

section \<open>A whole run\<close>

lemma wp_AfterAlignmentInit:
  assumes "registered ns nr w v"
  shows "wp verbs_dev (\<lambda>_ _. True) (\<lambda>w' v'. v' = v \<and> registered ns nr w' v \<and> self w' = self w) (via (ibv_AfterAlignmentInit w)) v"
  using assms by (intro wp_sk) (auto simp: ibv_AfterAlignmentInit_def Let_def split: option.splits)

lemma wp_on_shared:
  "wp verbs_dev (\<lambda>_ _. True) (\<lambda>w' v'. v' = v \<and> glob w' = glob w \<and> self w' = self w) (on_shared f w) v"
  by (simp add: on_shared_def split: option.splits)

lemma wp_iter_loop:
  "transferring ns nr p w v \<Longrightarrow>
   wp verbs_dev (\<lambda>_ _. True) (transferring ns nr p) (iter_loop (ibv_module alloc L fuel stk) n w) v"
proof (induction n arbitrary: w v)
  case (Suc n)
  then show ?case
    by (auto simp: ibv_module_def intro!: wp_mono [OF wp_SendData] wp_mono [OF wp_RecvData])
qed simp

lemma registered_cong: "registered ns nr w v \<Longrightarrow> glob w' = glob w \<Longrightarrow> r_buff (p_of w') = r_buff (p_of w) \<Longrightarrow>
    s_buff (p_of w') = s_buff (p_of w) \<Longrightarrow> registered ns nr w' v"
  by (simp add: registered_def)

lemma wp_timed_part:
  assumes "transferring ns nr p w v"
  shows "wp verbs_dev (\<lambda>_ _. True) (\<lambda>(r, w'). unregistered w') (timed_part (ibv_module alloc L fuel stk) fl sz n w) v"
proof -
  let ?M = "ibv_module alloc L fuel stk"
  have chk: "wp verbs_dev (\<lambda>_ _. True) (registered ns nr) (mCheckBufferData ?M k so ro w') v'"
    if "transferring ns nr p w' v'" for w' v' k so ro
    unfolding ibv_module_def
    by (simp, rule wp_mono [OF wp_on_shared]) (use that in \<open>auto simp: transferring_def intro: registered_cong\<close>)
  have fr: "wp verbs_dev (\<lambda>_ _. True) unregistered (mFreeBuff ?M b1 b2 w') v'" if "registered ns nr w' v'" for w' v' b1 b2
    unfolding ibv_module_def by (simp, rule wp_mono [OF wp_FreeBuff [OF that]]) auto
  show ?thesis
    unfolding timed_part_def When_def Let_def
    by (auto simp del: wp_andThen intro!: wp_then [OF wp_iter_loop [OF assms]] wp_then [OF chk] wp_then [OF fr] split: prod.splits)
qed

lemma set_ptrs_simps [simp]:
  "glob (set_ptrs w) = glob w" "bufflen (p_of (set_ptrs w)) = bufflen (p_of w)" "r_buff (p_of (set_ptrs w)) = r_buff (p_of w)"
  "r_ptr (p_of (set_ptrs w)) = r_buff (p_of w)" "s_ptr (p_of (set_ptrs w)) = s_buff (p_of (set_ptrs w))"
  "s_buff (p_of (set_ptrs w)) = (if cache (p_of w) \<noteq> 0 then r_buff (p_of w) else s_buff (p_of w))"
  "r_buff_orig (p_of (set_ptrs w)) = r_buff (p_of w)" "s_buff_orig (p_of (set_ptrs w)) = s_buff (p_of (set_ptrs w))"
  by (simp_all add: set_ptrs_def Let_def)

lemma wp_run_sized:
  assumes "unregistered w v"
  shows "wp verbs_dev (\<lambda>_ _. True) (\<lambda>(r, w'). unregistered w') (run_sized (ibv_module alloc L fuel stk) fl sz n w) v"
proof -
  let ?n = "sint (size_bytes sz)" and ?M = "ibv_module alloc L fuel stk"
  have n: "0 \<le> ?n" by (simp add: sint_size_bytes)
  have tp: "wp verbs_dev (\<lambda>_ _. True) (\<lambda>(r, w'). unregistered w') (timed_part ?M fl sz n w') v'"
    if "registered ?n ?n w' v'" "inside ?n ?n (p_of w')" for w' v'
    by (rule wp_timed_part [of ?n ?n "p_of w'"]) (use that in \<open>simp add: transferring_def\<close>)
  have pr: "wp verbs_dev (\<lambda>_ _. True) (\<lambda>w'' v''. registered ?n ?n w'' v'' \<and> inside ?n ?n (p_of w'')) (ibv_PrepareToReceive w') v'"
    if "registered ?n ?n w' v'" "inside ?n ?n (p_of w')" for w' v'
    by (rule wp_mono [OF wp_PrepareToReceive [of ?n ?n "p_of w'"]]) (use that in \<open>auto simp: transferring_def\<close>)
  have rp: "wp verbs_dev (\<lambda>_ _. True) (\<lambda>w'' v''. v'' = v' \<and> w'' = w') (via (ibv_SendRepeat k w')) v'" for k and w' :: ibv_world and v'
    by (intro wp_sk) (simp add: ibv_SendRepeat_def)
  have my: "wp verbs_dev (\<lambda>_ _. True) (\<lambda>w'' v''. registered ?n ?n (set_ptrs w'') v'' \<and> inside ?n ?n (p_of (set_ptrs w'')) \<and>
      r_buff (p_of w'') \<noteq> NULL \<and> s_buff (p_of (set_ptrs w'')) \<noteq> NULL) (ibv_MyMalloc alloc ?n 0 0 w') v'"
    if "unregistered w' v'" "bufflen (p_of w') = ?n" for w' v'
    by (rule wp_mono [OF wp_MyMalloc [OF that(1) n order_refl]])
      (use that(2) n in \<open>auto simp: inside_def registered_def\<close>)
  have ini: "wp verbs_dev (\<lambda>_ _. True) (\<lambda>w'' v''. registered ?n ?n w'' v'' \<and> inside ?n ?n (p_of w'')) (on_shared f w') v'"
    if "registered ?n ?n w' v'" "inside ?n ?n (p_of w')" for f w' v'
    by (rule wp_mono [OF wp_on_shared]) (use that in \<open>auto simp: registered_def\<close>)
  have al: "wp verbs_dev (\<lambda>_ _. True) (\<lambda>w'' v''. registered ?n ?n w'' v'' \<and> inside ?n ?n (p_of w'')) (via (ibv_AfterAlignmentInit w')) v'"
    if "registered ?n ?n w' v'" "inside ?n ?n (p_of w')" for w' v'
    by (rule wp_mono [OF wp_AfterAlignmentInit [OF that(1)]]) (use that in auto)
  have un: "unregistered (upd_args (\<lambda>a. a\<lparr>bufflen := ?n\<rparr>) w) v" using assms by (simp add: unregistered_def)
  show ?thesis
    unfolding run_sized_def Let_def using un
    by (auto simp del: wp_andThen simp: ibv_module_def [of alloc L fuel stk] intro!: wp_then [OF rp] wp_then [OF my] wp_then [OF ini] wp_then [OF al]
        wp_then [OF pr] wp_then [OF wp_Sync_ib] tp [unfolded ibv_module_def])
qed


section \<open>Examples\<close>

text \<open>A process before \<open>Setup\<close>, and one that is connected, with the library's state.\<close>

definition ibv_start :: "ibv_world" where
  "ibv_start = ibv_Init \<lparr>self = new_Netpipe \<lparr>sin1 = zero_sin, sin2 = zero_sin, sndbufsz = 0, rcvbufsz = 0, ib_mtu = 0,
       commtype = 0, comptype = 0\<rparr> None,
     heap = \<lparr>hbytes = (\<lambda>_. 0), hblocks = []\<rparr>, lfsr_data = 0, fcflag = 0,
     glob = \<lparr>hca = 0, ctx = 0, port_num = 0, lid = 0, d_lid = 0, pd_hndl = 0, s_cq_hndl = 0, r_cq_hndl = 0, s_mr_hndl = None,
       r_mr_hndl = None, qp_init_attr = \<lparr>max_recv_wr = 0, max_send_wr = 0, max_recv_sge = 0, max_send_sge = 0, recv_cq = 0,
       send_cq = 0, sq_sig_all = 0\<rparr>, qp_hndl = None, d_qp_num = 0,
       qp_attr = \<lparr>qp_state = IBV_QPS_RESET, pkey_index = 0, qp_port_num = 0, qp_access_flags = [], max_dest_rd_atomic = 0,
         dest_qp_num = 0, ah_sl = 0, ah_is_global = 0, ah_dlid = 0, ah_static_rate = 0, ah_src_path_bits = 0, ah_port_num = 0,
         path_mtu = 0, rq_psn = 0, min_rnr_timer = 0, sq_psn = 0, timeout = 0, retry_cnt = 0, rnr_retry = 0, max_rd_atomic = 0\<rparr>,
       wc_status = 0, max_wq = 50000, remote_address = 0, remote_key = 0\<rparr>, out = []\<rparr>"

definition no_verbs :: verbs where
  "no_verbs = \<lparr>live = {}, qpst = (\<lambda>_. IBV_QPS_RESET), qpuse = (\<lambda>_. (0, 0, 0)), qpdest = (\<lambda>_. (0, 0)), region = (\<lambda>_. (0, 0, 0, 0, []))\<rparr>"

definition ibv_up :: "ibv_world" where
  "ibv_up = upd_ib (\<lambda>g. g\<lparr>ctx := 1, pd_hndl := 2, s_cq_hndl := 3, r_cq_hndl := 4, qp_hndl := Some \<lparr>qp_ptr = 5, qp_num = 7\<rparr>,
     d_lid := 8, d_qp_num := 9\<rparr>) ibv_start"

definition up_verbs :: verbs where
  "up_verbs = no_verbs\<lparr>live := {Ctx 1, Pd 2, Cq 3, Cq 4, Qp 5}, qpst := (\<lambda>_. IBV_QPS_RTS), qpuse := (\<lambda>_. (2, 3, 4)), qpdest := (\<lambda>_. (8, 9))\<rparr>"

lemma ibv_start_fresh: "ib_fresh (glob ibv_start)" "live no_verbs = {}"
  by (simp_all add: ib_fresh_def ibv_start_def ibv_Init_def no_verbs_def)

lemma ibv_up_handles:
  "ctx (glob ibv_up) = 1" "pd_hndl (glob ibv_up) = 2" "s_cq_hndl (glob ibv_up) = 3" "r_cq_hndl (glob ibv_up) = 4"
  "qp_hndl (glob ibv_up) = Some \<lparr>qp_ptr = 5, qp_num = 7\<rparr>" "s_mr_hndl (glob ibv_up) = None" "r_mr_hndl (glob ibv_up) = None"
  "d_lid (glob ibv_up) = 8" "d_qp_num (glob ibv_up) = 9"
  by (simp_all add: ibv_up_def ibv_start_def ibv_Init_def)

lemma ibv_up_unregistered: "unregistered ibv_up up_verbs"
proof -
  have "live up_verbs - range DevList = ib_objs (glob ibv_up)"
    by (auto simp: up_verbs_def ib_objs_def ibv_up_handles)
  then have "ib_inv (glob ibv_up) up_verbs" by (simp add: ib_inv_def ibv_up_handles up_verbs_def)
  then show ?thesis by (simp add: unregistered_def connected_def ib_ready_def ibv_up_handles qp_of_def up_verbs_def)
qed



end
