(* ===== verification/Ibv_Run.thy ===== *)
theory Ibv_Run
  imports Ibv_Safety
begin

text \<open>
  Two processes of the InfiniBand module together: the exchange of buffer addresses and keys over
  the TCP connection, an RDMA write into the buffer of the other side, and, inside one process,
  the main thread and the event thread that share the flag \<open>receive_complete\<close>.
\<close>

section \<open>The exchange of addresses\<close>

lemma ptr_bytes_length [simp]: "length (ptr_bytes a) = 8" "ptr_bytes a \<noteq> []"
  by (simp_all add: ptr_bytes_def)

lemma bytes_ptr_bytes: "a < 2 ^ 64 \<Longrightarrow> bytes_ptr (ptr_bytes a) = a"
proof -
  assume a: "a < 2 ^ 64"
  have "unat (word_of_nat a :: u32) = a mod 2 ^ 32" by (simp add: unat_of_nat)
  moreover have "unat (word_of_nat (a div 2 ^ 32) :: u32) = a div 2 ^ 32" using a by (simp add: unat_of_nat)
  ultimately show ?thesis by (simp add: bytes_ptr_def ptr_bytes_def)
qed

definition rdma :: "ibv_world \<Rightarrow> bool" where
  "rdma w \<longleftrightarrow> commtype (prot (p_of w)) = NP_COMM_RDMAWRITE \<or> commtype (prot (p_of w)) = NP_COMM_RDMAWRITE_WITH_IMM"

lemma AfterAlignmentInit_follows:
  assumes "rdma w" and "r_mr_hndl (glob w) = Some m" and "a < 2 ^ 64"
  shows "follows (commfd (p_of w)) (\<lambda>w'. w' = upd_ib (\<lambda>g. g\<lparr>remote_address := a, remote_key := k\<rparr>) w)
    (ibv_AfterAlignmentInit w) (snd_s (ptr_bytes (r_buff (p_of w)) @ le_bytes (rkey m)) @ rcv_s (ptr_bytes a @ le_bytes k))"
proof -
  let ?fd = "commfd (p_of w)" and ?Q = "\<lambda>w'. w' = upd_ib (\<lambda>g. g\<lparr>remote_address := a, remote_key := k\<rparr>) w"
  let ?w = "upd_ib (\<lambda>g. g\<lparr>remote_address := a\<rparr>) w"
  have "follows ?fd ?Q (andThen (readFully ?fd 4) (\<lambda>(bytesRead, k).
           if bytesRead < 0 then Abort (Exit (- 1)) else if bytesRead \<noteq> 4 then Abort (Exit (- 1))
           else Ret (upd_ib (\<lambda>g. g\<lparr>remote_key := le_word k\<rparr>) ?w))) (rcv_s (le_bytes k) @ [])"
    by (rule readFully_then) (auto intro: follows.ret simp: upd_ib_def)
  then have 3: "follows ?fd ?Q (andThen (readFully ?fd 8) (\<lambda>(bytesRead, a).
           if bytesRead < 0 then Abort (Exit (- 1)) else if bytesRead \<noteq> 8 then Abort (Exit (- 1))
           else let w = upd_ib (\<lambda>g. g\<lparr>remote_address := bytes_ptr a\<rparr>) w in
           andThen (readFully (commfd (p_of w)) 4) (\<lambda>(bytesRead, k).
           if bytesRead < 0 then Abort (Exit (- 1)) else if bytesRead \<noteq> 4 then Abort (Exit (- 1))
           else Ret (upd_ib (\<lambda>g. g\<lparr>remote_key := le_word k\<rparr>) w)))) (rcv_s (ptr_bytes a) @ rcv_s (le_bytes k))"
    by (intro readFully_then) (simp_all add: bytes_ptr_bytes [OF assms(3)] cong: if_cong)
  have 2: "follows ?fd ?Q (Call (Write ?fd (le_bytes (rkey m))) (\<lambda>r. if rv r < 0 then Abort (Exit (- 1)) else
       andThen (readFully ?fd 8) (\<lambda>(bytesRead, a).
           if bytesRead < 0 then Abort (Exit (- 1)) else if bytesRead \<noteq> 8 then Abort (Exit (- 1))
           else let w = upd_ib (\<lambda>g. g\<lparr>remote_address := bytes_ptr a\<rparr>) w in
           andThen (readFully (commfd (p_of w)) 4) (\<lambda>(bytesRead, k).
           if bytesRead < 0 then Abort (Exit (- 1)) else if bytesRead \<noteq> 4 then Abort (Exit (- 1))
           else Ret (upd_ib (\<lambda>g. g\<lparr>remote_key := le_word k\<rparr>) w)))))
     (snd_s (le_bytes (rkey m)) @ rcv_s (ptr_bytes a) @ rcv_s (le_bytes k))"
    by (rule short_write_follows) (use 3 in \<open>simp_all add: atomic_def\<close>)
  have c: "commtype (prot (p_of w)) = NP_COMM_RDMAWRITE \<or> commtype (prot (p_of w)) = NP_COMM_RDMAWRITE_WITH_IMM"
    using assms(1) by (simp add: rdma_def)
  have "follows ?fd ?Q (ibv_AfterAlignmentInit w)
     (snd_s (ptr_bytes (r_buff (p_of w))) @ snd_s (le_bytes (rkey m)) @ rcv_s (ptr_bytes a) @ rcv_s (le_bytes k))"
    unfolding ibv_AfterAlignmentInit_def if_P [OF c]
    by (rule short_write_follows) (use 2 assms(2) in \<open>simp_all add: atomic_def\<close>)
  then show ?thesis by simp
qed

text \<open>
  C32: \<open>AfterAlignmentInit\<close> with RDMA writes: two processes with registered receive buffers, joined by a TCP
  connection whose kernel buffers hold at least twelve bytes.  Every run of the two ends, and then
  each knows the address and the remote key of the other's receive buffer, and is otherwise
  unchanged.
\<close>

theorem ibv_exchange_addresses:
  assumes "rdma w1" "rdma w2" and "r_mr_hndl (glob w1) = Some m1" "r_mr_hndl (glob w2) = Some m2"
    and "r_buff (p_of w1) < 2 ^ 64" "r_buff (p_of w2) < 2 ^ 64" and "12 \<le> cap"
  shows "ends_in (pair_step (commfd (p_of w1)) (commfd (p_of w2)) cap)
    (both_done (\<lambda>w. w = upd_ib (\<lambda>g. g\<lparr>remote_address := r_buff (p_of w2), remote_key := rkey m2\<rparr>) w1)
               (\<lambda>w. w = upd_ib (\<lambda>g. g\<lparr>remote_address := r_buff (p_of w1), remote_key := rkey m1\<rparr>) w2))
    (pair_init (ibv_AfterAlignmentInit w1) (ibv_AfterAlignmentInit w2))"
  by (rule follows_pair [OF AfterAlignmentInit_follows [OF assms(1,3,6)] AfterAlignmentInit_follows [OF assms(2,4,5)]
        plays_exchange]) (use assms(7) in simp_all)

section \<open>RDMA writes\<close>

text \<open>A posted RDMA write is a put into the memory of the other side.\<close>

fun ib_lib :: "ib_call \<Rightarrow> (cheap, delivery, os_reply) oview" where
  "ib_lib (Ibv_post_send q sr) = (case sr_sge sr of
      Some g \<Rightarrow> (if sr_opcode sr = IBV_WR_RDMA_WRITE
        then OPut (\<lambda>h ds. valid h (sg_addr g) (nat (sg_length g)) \<and>
               arrives_as (sr_remote_addr sr) (load h (sg_addr g) (nat (sg_length g))) ds) os_ok else ONone)
    | None \<Rightarrow> ONone)"
| "ib_lib _ = ONone"


section \<open>The event thread\<close>

text \<open>
  The two threads of a process and the adapter share the flag \<open>receive_complete\<close>, the completion queue of the
  receives (a number of successful completions), the number of posted receives, the messages on
  their way, and the notification: asked for, and delivered.
\<close>

record ev_shared =
  rc :: int
  cqe :: nat
  posted :: nat
  incoming :: nat
  armed :: bool
  event :: bool

fun act :: "nat \<Rightarrow> ib_call \<Rightarrow> ev_shared \<Rightarrow> (os_reply \<times> ev_shared) option" where
  "act cq (Ibv_post_recv q r) s = Some (os_ok, s\<lparr>posted := posted s + 1\<rparr>)"
| "act cq (Ibv_poll_cq c) s = (if c \<noteq> cq then None
     else if cqe s = 0 then Some (os_ok, s) else Some (os_ok\<lparr>oval := 1, oaddrs := [0]\<rparr>, s\<lparr>cqe := cqe s - 1\<rparr>))"
| "act cq (Ibv_req_notify_cq c n) s = (if c = cq then Some (os_ok, s\<lparr>armed := True\<rparr>) else None)"
| "act cq Ibv_get_cq_event s = (if event s then Some (os_ok\<lparr>oaddrs := [cq]\<rparr>, s\<lparr>event := False\<rparr>) else None)"
| "act cq Rc_get s = Some (os_ok\<lparr>oval := rc s\<rparr>, s)"
| "act cq (Rc_set n) s = Some (os_ok, s\<lparr>rc := n\<rparr>)"
| "act cq Rc_wait_set s = (if rc s \<noteq> 0 then Some (os_ok, s) else None)"
| "act cq Rc_wait_clear s = (if rc s = 0 then Some (os_ok, s) else None)"
| "act cq _ s = None"

text \<open>What a thread does next; and the two threads with the adapter.\<close>

fun nxt :: "nat \<Rightarrow> 'a ib_prog \<Rightarrow> ev_shared \<Rightarrow> ('a ib_prog \<times> ev_shared) option" where
  "nxt cq (Call (Lib c) k) s = map_option (\<lambda>(r, s'). (k r, s')) (act cq c s)"
| "nxt cq _ s = None"

definition receive :: "ev_shared \<Rightarrow> ev_shared" where
  "receive s = s\<lparr>posted := posted s - 1, incoming := incoming s - 1, cqe := cqe s + 1, event := (event s \<or> armed s), armed := False\<rparr>"

inductive th_step :: "nat \<Rightarrow> 'a ib_prog \<times> 'b ib_prog \<times> ev_shared \<Rightarrow> 'a ib_prog \<times> 'b ib_prog \<times> ev_shared \<Rightarrow> bool" for cq where
  main: "nxt cq m s = Some (m', s') \<Longrightarrow> th_step cq (m, t, s) (m', t, s')"
| thread: "nxt cq t s = Some (t', s') \<Longrightarrow> th_step cq (m, t, s) (m, t', s')"
| adapter: "0 < posted s \<Longrightarrow> 0 < incoming s \<Longrightarrow> th_step cq (m, t, s) (m, t, receive s)"

inductive_cases th_stepE: "th_step cq (m, t, s) x"

lemma th_ends:
  assumes "\<And>m' s'. nxt cq m s = Some (m', s') \<Longrightarrow> ends_in (th_step cq) Q (m', t, s')"
    and "\<And>t' s'. nxt cq t s = Some (t', s') \<Longrightarrow> ends_in (th_step cq) Q (m, t', s')"
    and "0 < posted s \<Longrightarrow> 0 < incoming s \<Longrightarrow> ends_in (th_step cq) Q (m, t, receive s)"
    and "nxt cq m s \<noteq> None \<or> nxt cq t s \<noteq> None \<or> 0 < posted s \<and> 0 < incoming s \<or> Q (m, t, s)"
  shows "ends_in (th_step cq) Q (m, t, s)"
proof (rule ends_in.intros)
  show "ends_in (th_step cq) Q x" if "th_step cq (m, t, s) x" for x
    using that assms(1-3) by (auto elim: th_stepE)
  show "(\<exists>x. th_step cq (m, t, s) x) \<or> Q (m, t, s)"
    using assms(4) by (auto intro: th_step.intros)
qed

text \<open>No message can come in: only the thread moves, or either moves.\<close>

definition quiet :: "ev_shared \<Rightarrow> bool" where
  "quiet s \<longleftrightarrow> posted s = 0 \<or> incoming s = 0"

lemma th_idle: "nxt cq m s = None \<Longrightarrow> nxt cq t s = None \<Longrightarrow> quiet s \<Longrightarrow> Q (m, t, s) \<Longrightarrow> ends_in (th_step cq) Q (m, t, s)"
  by (rule th_ends) (auto simp: quiet_def)

lemma th_thread: "nxt cq m s = None \<Longrightarrow> nxt cq t s = Some (t', s') \<Longrightarrow> quiet s \<Longrightarrow>
    ends_in (th_step cq) Q (m, t', s') \<Longrightarrow> ends_in (th_step cq) Q (m, t, s)"
  by (rule th_ends) (auto simp: quiet_def)

lemma th_main: "nxt cq m s = Some (m', s') \<Longrightarrow> nxt cq t s = None \<Longrightarrow> quiet s \<Longrightarrow>
    ends_in (th_step cq) Q (m', t, s') \<Longrightarrow> ends_in (th_step cq) Q (m, t, s)"
  by (rule th_ends) (auto simp: quiet_def)

lemma th_either: "nxt cq m s = Some (m', s') \<Longrightarrow> nxt cq t s = Some (t', s'') \<Longrightarrow> quiet s \<Longrightarrow>
    ends_in (th_step cq) Q (m', t, s') \<Longrightarrow> ends_in (th_step cq) Q (m, t', s'') \<Longrightarrow> ends_in (th_step cq) Q (m, t, s)"
  by (rule th_ends) (auto simp: quiet_def)

lemma th_adapter: "nxt cq m s = None \<Longrightarrow> nxt cq t s = None \<Longrightarrow> \<not> quiet s \<Longrightarrow>
    ends_in (th_step cq) Q (m, t, receive s) \<Longrightarrow> ends_in (th_step cq) Q (m, t, s)"
  by (rule th_ends) (auto simp: quiet_def)

lemma run_main: "nxt cq m s = Some (m', s') \<Longrightarrow> (th_step cq)\<^sup>*\<^sup>* (m', t, s') x \<Longrightarrow> (th_step cq)\<^sup>*\<^sup>* (m, t, s) x"
  by (blast intro: converse_rtranclp_into_rtranclp th_step.main)

lemma run_thread: "nxt cq t s = Some (t', s') \<Longrightarrow> (th_step cq)\<^sup>*\<^sup>* (m, t', s') x \<Longrightarrow> (th_step cq)\<^sup>*\<^sup>* (m, t, s) x"
  by (blast intro: converse_rtranclp_into_rtranclp th_step.thread)

lemma run_adapter:
  "0 < posted s \<Longrightarrow> 0 < incoming s \<Longrightarrow> (th_step cq)\<^sup>*\<^sup>* (m, t, receive s) x \<Longrightarrow> (th_step cq)\<^sup>*\<^sup>* (m, t, s) x"
  by (blast intro: converse_rtranclp_into_rtranclp th_step.adapter)

text \<open>The way of the event thread through one completion.\<close>

abbreviation ev :: "int \<Rightarrow> nat \<Rightarrow> nat \<Rightarrow> nat \<Rightarrow> bool \<Rightarrow> bool \<Rightarrow> ev_shared" where
  "ev r c p i a e \<equiv> \<lparr>rc = r, cqe = c, posted = p, incoming = i, armed = a, event = e\<rparr>"

definition success :: "ibv_world \<Rightarrow> ibv_world" where
  "success w = upd_ib (\<lambda>g. g\<lparr>wc_status := 0\<rparr>) w"

definition handler :: "nat \<Rightarrow> nat \<Rightarrow> nat \<Rightarrow> nat \<Rightarrow> ibv_world \<Rightarrow> ibv_world ib_prog" where
  "handler F n j cq w = andThen (event_handler j cq w) (EventThread F n)"

definition got_one :: "nat \<Rightarrow> nat \<Rightarrow> nat \<Rightarrow> nat \<Rightarrow> ibv_world \<Rightarrow> ibv_world ib_prog" where
  "got_one F n j cq w = Call (Lib Rc_get) (\<lambda>r.
       andThen (if oval r = 1 then Call (Lib Rc_wait_clear) (\<lambda>_. Ret ()) else Ret ()) (\<lambda>_.
       Call (Lib (Rc_set 1)) (\<lambda>_. handler F n j cq w)))"

definition rearm :: "nat \<Rightarrow> nat \<Rightarrow> nat \<Rightarrow> ibv_world \<Rightarrow> ibv_world ib_prog" where
  "rearm F n cq w = Call (Lib (Ibv_req_notify_cq cq 0)) (\<lambda>_. EventThread F n w)"

lemma thread_steps:
  "event s \<Longrightarrow> nxt cq (EventThread F (Suc n) w) s = Some (handler F n F cq w, s\<lparr>event := False\<rparr>)"
  "\<not> event s \<Longrightarrow> nxt cq (EventThread F (Suc n) w) s = None"
  "0 < cqe s \<Longrightarrow> nxt cq (handler F n (Suc j) cq w) s = Some (got_one F n j cq (success w), s\<lparr>cqe := cqe s - 1\<rparr>)"
  "r_cq_hndl (glob w) = cq \<Longrightarrow> cqe s = 0 \<Longrightarrow> nxt cq (handler F n (Suc j) cq w) s = Some (rearm F n cq w, s)"
  "rc s \<noteq> 1 \<Longrightarrow> nxt cq (got_one F n j cq w) s = Some (Call (Lib (Rc_set 1)) (\<lambda>_. handler F n j cq w), s)"
  "nxt cq (Call (Lib (Rc_set i)) (\<lambda>_. p)) s = Some (p, s\<lparr>rc := i\<rparr>)"
  "nxt cq (rearm F n cq w) s = Some (EventThread F n w, s\<lparr>armed := True\<rparr>)"
  by (simp_all add: handler_def got_one_def rearm_def success_def os_ok_def onum_def IBV_WC_SUCCESS_def Let_def)

lemma success_simps [simp]: "r_cq_hndl (glob (success w)) = r_cq_hndl (glob w)"
  by (simp add: success_def)

text \<open>The main thread with event completion.\<close>

definition event_mode :: "nat \<Rightarrow> ibv_world \<Rightarrow> bool" where
  "event_mode cq w \<longleftrightarrow> comptype (prot (p_of w)) = NP_COMP_EVENT \<and> commtype (prot (p_of w)) \<noteq> NP_COMM_RDMAWRITE \<and>
     preburst (p_of w) = 0 \<and> r_cq_hndl (glob w) = cq \<and> r_mr_hndl (glob w) \<noteq> None"

lemma RecvData_event: "event_mode cq w \<Longrightarrow> ibv_RecvData fuel w = Call (Lib Rc_wait_set) (\<lambda>_. Ret w)"
  by (simp add: event_mode_def ibv_RecvData_def)

lemma Prepare_event:
  "event_mode cq w \<Longrightarrow> \<exists>q r. andThen (ibv_PrepareToReceive w) f =
     Call (Lib (Ibv_post_recv q r)) (\<lambda>r. if oval r \<noteq> 0 then andThen (andThen (ibv_CleanUp w) (\<lambda>_. Abort (Exit (- 1)))) f
        else Call (Lib (Rc_set 0)) (\<lambda>_. f w))"
  by (auto simp: event_mode_def ibv_PrepareToReceive_def Let_def if_distrib [of "\<lambda>p. andThen p f"] cong: if_cong)

text \<open>The message comes in after \<open>PrepareToReceive\<close>.\<close>

lemma event_flag_set:
  assumes "event_mode cq w"
  shows "ends_in (th_step cq) (\<lambda>x. x = (Ret w, EventThread (Suc (Suc f)) (Suc n) (success w), ev 1 0 0 0 True False))
      (ibv_RecvData fuel w, EventThread (Suc (Suc f)) (Suc (Suc n)) w, ev 0 0 1 1 True False)"
proof -
  let ?F = "Suc (Suc f)" and ?N = "Suc n" and ?w = "success w" and ?P = "EventThread (Suc (Suc f)) (Suc n) (success w)"
  let ?Q = "\<lambda>x. x = (Ret w :: ibv_world ib_prog, ?P, ev 1 0 0 0 True False)"
  let ?M = "Call (Lib Rc_wait_set) (\<lambda>_. Ret w) :: ibv_world ib_prog"
  have cq: "r_cq_hndl (glob w) = cq" using assms by (simp add: event_mode_def)
  have blocked: "rc s = 0 \<Longrightarrow> nxt cq ?M s = None" and free: "rc s \<noteq> 0 \<Longrightarrow> nxt cq ?M s = Some (Ret w, s)" for s
    by simp_all
  note st = thread_steps success_simps cq blocked free
  note [simp] = quiet_def receive_def and [simp del] = EventThread.simps
  let ?e = "ends_in (th_step cq) ?Q"
  have r1: "?e (Ret w, ?P, ev 1 0 0 0 True False)"
    by (rule th_idle) (simp_all add: st)
  have r2: "?e (Ret w, rearm ?F ?N cq ?w, ev 1 0 0 0 False False)"
    by (rule th_thread) (use r1 in \<open>simp_all add: st\<close>)
  have r3: "?e (Ret w, handler ?F ?N (Suc f) cq ?w, ev 1 0 0 0 False False)"
    by (rule th_thread) (use r2 in \<open>simp_all add: st\<close>)
  have m1: "?e (?M, ?P, ev 1 0 0 0 True False)"
    by (rule th_main) (use r1 in \<open>simp_all add: st\<close>)
  have m2: "?e (?M, rearm ?F ?N cq ?w, ev 1 0 0 0 False False)"
    by (rule th_either) (use r2 m1 in \<open>simp_all add: st\<close>)
  have m3: "?e (?M, handler ?F ?N (Suc f) cq ?w, ev 1 0 0 0 False False)"
    by (rule th_either) (use r3 m2 in \<open>simp_all add: st\<close>)
  have m4: "?e (?M, Call (Lib (Rc_set 1)) (\<lambda>_. handler ?F ?N (Suc f) cq ?w), ev 0 0 0 0 False False)"
    by (rule th_thread) (use m3 in \<open>simp_all add: st\<close>)
  have m5: "?e (?M, got_one ?F ?N (Suc f) cq ?w, ev 0 0 0 0 False False)"
    by (rule th_thread) (use m4 in \<open>simp_all add: st\<close>)
  have m6: "?e (?M, handler ?F ?N ?F cq w, ev 0 1 0 0 False False)"
    by (rule th_thread) (use m5 in \<open>simp_all add: st\<close>)
  have m7: "?e (?M, EventThread ?F (Suc ?N) w, ev 0 1 0 0 False True)"
    by (rule th_thread) (use m6 in \<open>simp_all add: st\<close>)
  show ?thesis
    unfolding RecvData_event [OF assms] by (rule th_adapter) (use m7 in \<open>simp_all add: st\<close>)
qed

text \<open>The message comes in between the posting of the receive and the clearing of the flag.\<close>

lemma event_flag_lost:
  assumes "event_mode cq w"
  shows "(th_step cq)\<^sup>*\<^sup>* (andThen (ibv_PrepareToReceive w) (ibv_RecvData fuel), EventThread (Suc (Suc f)) (Suc (Suc n)) w,
        ev 0 0 0 1 True False) (ibv_RecvData fuel w, EventThread (Suc (Suc f)) (Suc n) (success w), ev 0 0 0 0 True False)"
proof -
  let ?F = "Suc (Suc f)" and ?N = "Suc n" and ?w = "success w" and ?P = "EventThread (Suc (Suc f)) (Suc n) (success w)"
  let ?M = "Call (Lib Rc_wait_set) (\<lambda>_. Ret w) :: ibv_world ib_prog"
  have cq: "r_cq_hndl (glob w) = cq" using assms by (simp add: event_mode_def)
  note st = thread_steps success_simps cq
  note [simp] = receive_def and [simp del] = EventThread.simps
  let ?C = "Call (Lib (Rc_set 0)) (\<lambda>_. ?M)"
  let ?s = "\<lambda>m t s. (th_step cq)\<^sup>*\<^sup>* (m, t, s) (?M, ?P, ev 0 0 0 0 True False)"
  have "?s ?C ?P (ev 1 0 0 0 True False)"
    by (rule run_main [OF _ rtranclp.rtrancl_refl]) (simp add: st)
  then have "?s ?C (rearm ?F ?N cq ?w) (ev 1 0 0 0 False False)"
    by (rule run_thread [rotated]) (simp add: st)
  then have "?s ?C (handler ?F ?N (Suc f) cq ?w) (ev 1 0 0 0 False False)"
    by (rule run_thread [rotated]) (simp add: st)
  then have "?s ?C (Call (Lib (Rc_set 1)) (\<lambda>_. handler ?F ?N (Suc f) cq ?w)) (ev 0 0 0 0 False False)"
    by (rule run_thread [rotated]) (simp add: st)
  then have "?s ?C (got_one ?F ?N (Suc f) cq ?w) (ev 0 0 0 0 False False)"
    by (rule run_thread [rotated]) (simp add: st)
  then have "?s ?C (handler ?F ?N ?F cq w) (ev 0 1 0 0 False False)"
    by (rule run_thread [rotated]) (simp add: st)
  then have e: "?s ?C (EventThread ?F (Suc ?N) w) (ev 0 1 0 0 False True)"
    by (rule run_thread [rotated]) (simp add: st)
  have e': "?s ?C (EventThread ?F (Suc ?N) w) (ev 0 0 1 1 True False)"
    by (rule run_adapter) (use e in simp_all)
  obtain q r where p: "andThen (ibv_PrepareToReceive w) (ibv_RecvData fuel) =
     Call (Lib (Ibv_post_recv q r)) (\<lambda>r. if oval r \<noteq> 0 then andThen (andThen (ibv_CleanUp w) (\<lambda>_. Abort (Exit (- 1)))) (ibv_RecvData fuel)
        else ?C)"
    using Prepare_event [OF assms, of "ibv_RecvData fuel"] unfolding RecvData_event [OF assms] by blast
  show ?thesis
    unfolding RecvData_event [OF assms] p by (rule run_main [OF _ e']) (simp add: os_ok_def)
qed


section \<open>Examples\<close>

text \<open>Two processes whose buffers are registered, with their memories: a message ending in \<open>'b'\<close>.\<close>

definition ibv_reg :: "int \<Rightarrow> int \<Rightarrow> ibv_world" where
  "ibv_reg c c' = upd_ib (\<lambda>g. g\<lparr>s_mr_hndl := Some \<lparr>mr_ptr = 6, lkey = 1, rkey = 2\<rparr>, r_mr_hndl := Some \<lparr>mr_ptr = 7, lkey = 3, rkey = 4\<rparr>,
       remote_address := 64, remote_key := 4\<rparr>)
     (upd_args (\<lambda>p. p\<lparr>prot := (prot p)\<lparr>commtype := c, comptype := c'\<rparr>, commfd := 5, bufflen := 2, r_buff := 64, s_buff := 32,
       r_ptr := 64, s_ptr := 32\<rparr>) ibv_up)"

definition ibv_memory :: "byte list \<Rightarrow> cheap" where
  "ibv_memory bs = \<lparr>hbytes = (\<lambda>a. if 32 \<le> a \<and> a < 34 then bs ! (a - 32) else 0), hblocks = [(32, 8), (64, 8)]\<rparr>"

lemma ibv_reg_simps:
  "commtype (prot (p_of (ibv_reg a b))) = a" "comptype (prot (p_of (ibv_reg a b))) = b" "commfd (p_of (ibv_reg a b)) = 5"
  "bufflen (p_of (ibv_reg a b)) = 2" "r_buff (p_of (ibv_reg a b)) = 64" "r_ptr (p_of (ibv_reg a b)) = 64"
  "s_buff (p_of (ibv_reg a b)) = 32" "s_ptr (p_of (ibv_reg a b)) = 32" "cache (p_of (ibv_reg a b)) = 0" "preburst (p_of (ibv_reg a b)) = 0"
  "s_mr_hndl (glob (ibv_reg a b)) = Some \<lparr>mr_ptr = 6, lkey = 1, rkey = 2\<rparr>"
  "r_mr_hndl (glob (ibv_reg a b)) = Some \<lparr>mr_ptr = 7, lkey = 3, rkey = 4\<rparr>"
  "remote_address (glob (ibv_reg a b)) = 64" "r_cq_hndl (glob (ibv_reg a b)) = 4"
  by (simp_all add: ibv_reg_def ibv_up_def ibv_start_def ibv_Init_def new_Netpipe_def zero_args_def)

theorem ibv_exchange_addresses_witness:
  "ends_in (pair_step 5 5 12)
    (both_done (\<lambda>w. w = upd_ib (\<lambda>g. g\<lparr>remote_address := 64, remote_key := 4\<rparr>) (ibv_reg 2 0))
               (\<lambda>w. w = upd_ib (\<lambda>g. g\<lparr>remote_address := 64, remote_key := 4\<rparr>) (ibv_reg 2 0)))
    (pair_init (ibv_AfterAlignmentInit (ibv_reg 2 0)) (ibv_AfterAlignmentInit (ibv_reg 2 0)))"
  using ibv_exchange_addresses [of "ibv_reg 2 0" "ibv_reg 2 0" _ _ 12] by (simp add: ibv_reg_simps rdma_def np_types)



end
