(* ===== verification/Vapi.thy ===== *)
theory Vapi
  imports Ibv
begin

text \<open>
  The InfiniBand module \<open>ib.c\<close> for the Mellanox VAPI library.  The part that goes over the TCP
  connection is the text of \<open>ibv.c\<close>; the rest has the same structure over another library.
\<close>

section \<open>Structures and calls\<close>

text \<open>A handle; \<open>None\<close> is \<open>VAPI_INVAL_HNDL\<close>.\<close>

type_synonym hndl = "nat option"

datatype vapi_qp_state = VAPI_RESET | VAPI_INIT | VAPI_RTR | VAPI_RTS

datatype vapi_mask =
    QP_ATTR_QP_STATE | QP_ATTR_PKEY_IX | QP_ATTR_PORT | QP_ATTR_REMOTE_ATOMIC_FLAGS | QP_ATTR_QP_OUS_RD_ATOM
  | QP_ATTR_DEST_QP_NUM | QP_ATTR_AV | QP_ATTR_PATH_MTU | QP_ATTR_RQ_PSN | QP_ATTR_MIN_RNR_TIMER | QP_ATTR_SQ_PSN
  | QP_ATTR_TIMEOUT | QP_ATTR_RETRY_COUNT | QP_ATTR_RNR_RETRY | QP_ATTR_OUS_DST_RD_ATOM

datatype vapi_acl = VAPI_EN_LOCAL_WRITE | VAPI_EN_REMOTE_WRITE | VAPI_EN_REM_WRITE | VAPI_EN_REM_READ

datatype vapi_opcode = VAPI_SEND | VAPI_SEND_WITH_IMM | VAPI_RDMA_WRITE | VAPI_RDMA_WRITE_WITH_IMM

record vapi_qp_init_attr =
  max_oust_wr_rq :: int
  max_oust_wr_sq :: int
  max_sg_size_rq :: int
  max_sg_size_sq :: int
  qi_pd_hndl :: hndl
  rdd_hndl :: int
  rq_cq_hndl :: hndl
  sq_cq_hndl :: hndl

record vapi_qp_attr =
  vq_state :: vapi_qp_state
  pkey_ix :: int
  vq_port :: int
  remote_atomic_flags :: "vapi_acl list"
  qp_ous_rd_atom :: int
  vq_dest_qp_num :: u32
  av_sl :: int
  av_grh_flag :: bool
  av_dlid :: "16 word"
  av_static_rate :: int
  av_src_path_bits :: int
  vq_path_mtu :: int
  vq_rq_psn :: int
  vq_min_rnr_timer :: int
  vq_sq_psn :: int
  vq_timeout :: int
  retry_count :: int
  vq_rnr_retry :: int
  ous_dst_rd_atom :: int

record vapi_sg =
  vsg_lkey :: u32
  vsg_len :: int
  vsg_addr :: addr

record vapi_rr_desc =
  rr_signaled :: bool
  rr_sg :: "vapi_sg option"

record vapi_sr_desc =
  vs_opcode :: vapi_opcode
  vs_signaled :: bool
  vs_sg :: "vapi_sg option"
  vs_remote_addr :: addr
  vs_r_key :: u32

text \<open>
  The calls.  In a reply \<open>oval\<close> is the status, 0 for \<open>VAPI_OK\<close>, 1 for \<open>VAPI_CQ_EMPTY\<close> and anything else for an error, and the
  numbers are what the call stores through its pointers.  \<open>V_sk\<close> is a call on the sockets, and the
  last four access \<open>receive_complete\<close>.
\<close>

datatype vapi_call =
    V_sk sock_ev
  | V_fopen_iblog int
  | VAPI_open_hca string
  | EVAPI_get_hca_hndl string
  | VAPI_query_hca_port_prop hndl int
  | VAPI_alloc_pd hndl
  | VAPI_create_cq hndl int
  | VAPI_create_qp hndl vapi_qp_init_attr
  | VAPI_modify_qp hndl hndl vapi_qp_attr "vapi_mask list"
  | EVAPI_set_comp_eventh hndl hndl
  | VAPI_req_comp_notif hndl hndl
  | EVAPI_clear_comp_eventh hndl hndl
  | VAPI_destroy_qp hndl hndl
  | VAPI_destroy_cq hndl hndl
  | VAPI_deregister_mr hndl hndl
  | VAPI_dealloc_pd hndl hndl
  | EVAPI_release_hca_hndl hndl
  | VAPI_poll_cq hndl hndl
  | VAPI_post_rr hndl hndl vapi_rr_desc
  | VAPI_post_sr hndl hndl vapi_sr_desc
  | VAPI_register_mr hndl hndl addr int "vapi_acl list"
  | V_rc_get
  | V_rc_set int
  | V_rc_wait_set
  | V_rc_wait_clear

type_synonym 'a vapi_prog = "(vapi_call, 'a) os_prog"

primrec on_sockets :: "'a sprog \<Rightarrow> 'a vapi_prog" where
  "on_sockets (Ret x) = Ret x"
| "on_sockets (Abort e) = Abort e"
| "on_sockets (Call e k) = Call (Lib (V_sk e)) (\<lambda>r. on_sockets (k (sk_reply r)))"
| "on_sockets (Clock k) = Clock (\<lambda>t. on_sockets (k t))"

section \<open>State\<close>

text \<open>
  The static variables, but for \<open>receive_complete\<close> and those that are only written.  \<open>qp_prop\<close> is looked at for the number of the
  queue pair, \<open>s_mr_out\<close> and \<open>r_mr_out\<close> for their keys (local and remote), \<open>wc\<close> for its status.
\<close>

record vapi_glob =
  hca_hndl :: hndl
  v_port_num :: int
  v_lid :: "16 word"
  v_d_lid :: "16 word"
  v_pd_hndl :: hndl
  v_s_cq_hndl :: hndl
  v_r_cq_hndl :: hndl
  ceh_hndl :: hndl
  s_mr_out :: "u32 \<times> u32"
  r_mr_out :: "u32 \<times> u32"
  v_s_mr_hndl :: hndl
  v_r_mr_hndl :: hndl
  v_qp_init_attr :: vapi_qp_init_attr
  qp_prop :: u32
  v_qp_hndl :: hndl
  v_d_qp_num :: u32
  v_qp_attr :: vapi_qp_attr
  v_wc_status :: int
  v_max_wq :: int
  v_remote_address :: addr
  v_remote_key :: u32

type_synonym vapi_world = "(IbvProt, vapi_glob) world"

definition upd_v :: "(vapi_glob \<Rightarrow> vapi_glob) \<Rightarrow> vapi_world \<Rightarrow> vapi_world" where
  "upd_v f w = w\<lparr>glob := f (glob w)\<rparr>"

lemma upd_v_simps [simp]:
  "self (upd_v f w) = self w" "glob (upd_v f w) = f (glob w)" "heap (upd_v f w) = heap w"
  "lfsr_data (upd_v f w) = lfsr_data w" "out (upd_v f w) = out w"
  by (simp_all add: upd_v_def)

definition MTU1024 :: int where "MTU1024 = 3"
definition VAPI_SUCCESS :: int where "VAPI_SUCCESS = 0"

section \<open>Functions over the TCP connection\<close>

text \<open>Word for word those of \<open>ibv.c\<close>.\<close>

definition vapi_Sync :: "byte list \<Rightarrow> vapi_world \<Rightarrow> vapi_world vapi_prog" where
  "vapi_Sync stk w = on_sockets (ibv_Sync stk w)"

definition vapi_SendTime :: "(real \<Rightarrow> real) \<Rightarrow> real \<Rightarrow> vapi_world \<Rightarrow> vapi_world vapi_prog" where
  "vapi_SendTime fl t w = on_sockets (ibv_SendTime fl t w)"

definition vapi_RecvTime :: "(real \<Rightarrow> real) \<Rightarrow> vapi_world \<Rightarrow> (real \<times> vapi_world) vapi_prog" where
  "vapi_RecvTime fl w = on_sockets (ibv_RecvTime fl w)"

definition vapi_SendRepeat :: "u32 \<Rightarrow> vapi_world \<Rightarrow> vapi_world vapi_prog" where
  "vapi_SendRepeat rpt w = on_sockets (ibv_SendRepeat rpt w)"

definition vapi_RecvRepeat :: "vapi_world \<Rightarrow> (u32 \<times> vapi_world) vapi_prog" where
  "vapi_RecvRepeat w = on_sockets (ibv_RecvRepeat w)"

definition vapi_establish :: "vapi_world \<Rightarrow> vapi_world vapi_prog" where
  "vapi_establish w = on_sockets (ibv_establish w)"

text \<open>The remote key is that of the last registration.\<close>

definition vapi_exchange_keys :: "vapi_world \<Rightarrow> vapi_world sprog" where
  "vapi_exchange_keys w =
     Call (Write (commfd (p_of w)) (ptr_bytes (r_buff (p_of w)))) (\<lambda>r.
     if rv r < 0 then Abort (Exit (- 1))
     else
     Call (Write (commfd (p_of w)) (le_bytes (snd (r_mr_out (glob w))))) (\<lambda>r.
     if rv r < 0 then Abort (Exit (- 1))
     else andThen (readFully (commfd (p_of w)) 8) (\<lambda>(bytesRead, a).
     if bytesRead < 0 then Abort (Exit (- 1))
     else if bytesRead \<noteq> 8 then Abort (Exit (- 1))
     else let w = upd_v (\<lambda>g. g\<lparr>v_remote_address := bytes_ptr a\<rparr>) w in
     andThen (readFully (commfd (p_of w)) 4) (\<lambda>(bytesRead, k).
     if bytesRead < 0 then Abort (Exit (- 1))
     else if bytesRead \<noteq> 4 then Abort (Exit (- 1))
     else Ret (upd_v (\<lambda>g. g\<lparr>v_remote_key := le_word k\<rparr>) w)))))"

definition vapi_AfterAlignmentInit :: "vapi_world \<Rightarrow> vapi_world vapi_prog" where
  "vapi_AfterAlignmentInit w =
     (if commtype (prot (p_of w)) = NP_COMM_RDMAWRITE \<or> commtype (prot (p_of w)) = NP_COMM_RDMAWRITE_WITH_IMM
      then on_sockets (vapi_exchange_keys w) else Ret w)"

section \<open>The objects of the library\<close>

definition vapi_Init :: "vapi_world \<Rightarrow> vapi_world" where
  "vapi_Init w = upd_args (\<lambda>p. p\<lparr>prot := (prot p)\<lparr>ib_mtu := MTU1024, commtype := NP_COMM_SENDRECV,
     comptype := NP_COMP_LOCALPOLL\<rparr>, tr := 0, rcv := 1\<rparr>) w"

text \<open>
  \<open>initIB\<close> in three parts.  A call that fails leaves the variable for its handle as it was.
\<close>

definition vapi_objects :: "vapi_world \<Rightarrow> (int \<times> vapi_world) vapi_prog" where
  "vapi_objects w =
     Call (Lib (VAPI_open_hca ''InfiniHost0'')) (\<lambda>r.
     let w = (if oval r = 0 then upd_v (\<lambda>g. g\<lparr>hca_hndl := Some (onum r 0)\<rparr>) w else w) in
     Call (Lib (EVAPI_get_hca_hndl ''InfiniHost0'')) (\<lambda>r.
     if oval r \<noteq> 0 then Ret (- 1, w)
     else
     let w = upd_v (\<lambda>g. g\<lparr>hca_hndl := Some (onum r 0), v_port_num := 1\<rparr>) w in
     Call (Lib (VAPI_query_hca_port_prop (hca_hndl (glob w)) (v_port_num (glob w)))) (\<lambda>r.
     if oval r \<noteq> 0 then Ret (- 1, w)
     else
     let w = upd_v (\<lambda>g. g\<lparr>v_lid := word_of_nat (onum r 0)\<rparr>) w in
     Call (Lib (VAPI_alloc_pd (hca_hndl (glob w)))) (\<lambda>r.
     if oval r \<noteq> 0 then Ret (- 1, w)
     else
     let w = upd_v (\<lambda>g. g\<lparr>v_pd_hndl := Some (onum r 0)\<rparr>) w in
     Call (Lib (VAPI_create_cq (hca_hndl (glob w)) 30000)) (\<lambda>r.
     if oval r \<noteq> 0 then Ret (- 1, w)
     else
     let w = upd_v (\<lambda>g. g\<lparr>v_s_cq_hndl := Some (onum r 0)\<rparr>) w in
     Call (Lib (VAPI_create_cq (hca_hndl (glob w)) 20000)) (\<lambda>r.
     if oval r \<noteq> 0 then Ret (- 1, w)
     else
     let w = upd_v (\<lambda>g. g\<lparr>v_r_cq_hndl := Some (onum r 0)\<rparr>) w;
         w = upd_v (\<lambda>g. g\<lparr>v_qp_init_attr := \<lparr>max_oust_wr_rq = v_max_wq g, max_oust_wr_sq = v_max_wq g, max_sg_size_rq = 1,
                max_sg_size_sq = 1, qi_pd_hndl = v_pd_hndl g, rdd_hndl = 0, rq_cq_hndl = v_r_cq_hndl g,
                sq_cq_hndl = v_s_cq_hndl g\<rparr>\<rparr>) w in
     Call (Lib (VAPI_create_qp (hca_hndl (glob w)) (v_qp_init_attr (glob w)))) (\<lambda>r.
     if oval r \<noteq> 0 then Ret (- 1, w)
     else Ret (0, upd_v (\<lambda>g. g\<lparr>v_qp_hndl := Some (onum r 0), qp_prop := word_of_nat (onum r 1)\<rparr>) w))))))))"

definition vapi_exchange :: "vapi_world \<Rightarrow> (int \<times> vapi_world) sprog" where
  "vapi_exchange w =
     Call (Write (commfd (p_of w)) (half_bytes (v_lid (glob w)))) (\<lambda>r.
     if rv r \<noteq> 2 then Ret (- 1, w)
     else
     Call (Write (commfd (p_of w)) (le_bytes (qp_prop (glob w)))) (\<lambda>r.
     if rv r \<noteq> 4 then Ret (- 1, w)
     else
     Call (Read (commfd (p_of w)) 2) (\<lambda>r.
     if rv r \<noteq> 2 then Ret (- 1, w)
     else let w = upd_v (\<lambda>g. g\<lparr>v_d_lid := le_half (rdata r)\<rparr>) w in
     Call (Read (commfd (p_of w)) 4) (\<lambda>r.
     if rv r \<noteq> 4 then Ret (- 1, w)
     else Ret (0, upd_v (\<lambda>g. g\<lparr>v_d_qp_num := le_word (rdata r)\<rparr>) w)))))"

definition vapi_bring_up :: "byte list \<Rightarrow> vapi_world \<Rightarrow> (int \<times> vapi_world) vapi_prog" where
  "vapi_bring_up stk w =
     (let w = upd_v (\<lambda>g. g\<lparr>v_qp_attr := (v_qp_attr g)\<lparr>vq_state := VAPI_INIT, pkey_ix := 0, vq_port := v_port_num g,
                remote_atomic_flags := [VAPI_EN_REM_WRITE, VAPI_EN_REM_READ]\<rparr>\<rparr>) w in
     Call (Lib (VAPI_modify_qp (hca_hndl (glob w)) (v_qp_hndl (glob w)) (v_qp_attr (glob w))
       [QP_ATTR_QP_STATE, QP_ATTR_PKEY_IX, QP_ATTR_PORT, QP_ATTR_REMOTE_ATOMIC_FLAGS])) (\<lambda>r.
     if oval r \<noteq> 0 then Ret (- 1, w)
     else
     let w = upd_v (\<lambda>g. g\<lparr>v_qp_attr := (v_qp_attr g)\<lparr>vq_state := VAPI_RTR, qp_ous_rd_atom := 1, vq_dest_qp_num := v_d_qp_num g,
                av_sl := 0, av_grh_flag := False, av_dlid := v_d_lid g, av_static_rate := 0, av_src_path_bits := 0,
                vq_path_mtu := ib_mtu (prot (p_of w)), vq_rq_psn := 0, pkey_ix := 0, vq_min_rnr_timer := 5\<rparr>\<rparr>) w in
     Call (Lib (VAPI_modify_qp (hca_hndl (glob w)) (v_qp_hndl (glob w)) (v_qp_attr (glob w))
       [QP_ATTR_QP_STATE, QP_ATTR_QP_OUS_RD_ATOM, QP_ATTR_DEST_QP_NUM, QP_ATTR_AV, QP_ATTR_PATH_MTU, QP_ATTR_RQ_PSN,
        QP_ATTR_PKEY_IX, QP_ATTR_MIN_RNR_TIMER])) (\<lambda>r.
     if oval r \<noteq> 0 then Ret (- 1, w)
     else
     andThen (vapi_Sync stk w) (\<lambda>w.
     let w = upd_v (\<lambda>g. g\<lparr>v_qp_attr := (v_qp_attr g)\<lparr>vq_state := VAPI_RTS, vq_sq_psn := 0, vq_timeout := 31, retry_count := 1,
                vq_rnr_retry := 1, ous_dst_rd_atom := 1\<rparr>\<rparr>) w in
     Call (Lib (VAPI_modify_qp (hca_hndl (glob w)) (v_qp_hndl (glob w)) (v_qp_attr (glob w))
       [QP_ATTR_QP_STATE, QP_ATTR_SQ_PSN, QP_ATTR_TIMEOUT, QP_ATTR_RETRY_COUNT, QP_ATTR_RNR_RETRY, QP_ATTR_OUS_DST_RD_ATOM])) (\<lambda>r.
     if oval r \<noteq> 0 then Ret (- 1, w)
     else if comptype (prot (p_of w)) = NP_COMP_EVENT
     then Call (Lib (EVAPI_set_comp_eventh (hca_hndl (glob w)) (v_r_cq_hndl (glob w)))) (\<lambda>r.
          let w = (if oval r = 0 then upd_v (\<lambda>g. g\<lparr>ceh_hndl := Some (onum r 0)\<rparr>) w else w) in
          Call (Lib (VAPI_req_comp_notif (hca_hndl (glob w)) (v_r_cq_hndl (glob w)))) (\<lambda>_. Ret (0, w)))
     else Ret (0, w))))))"

definition vapi_initIB :: "byte list \<Rightarrow> vapi_world \<Rightarrow> (int \<times> vapi_world) vapi_prog" where
  "vapi_initIB stk w =
     andThen (vapi_objects w) (\<lambda>(c, w).
     if c = - 1 then Ret (- 1, w)
     else andThen (on_sockets (vapi_exchange w)) (\<lambda>(c, w).
     if c = - 1 then Ret (- 1, w)
     else vapi_bring_up stk w))"

definition vapi_destroy :: "bool \<Rightarrow> vapi_call \<Rightarrow> string \<Rightarrow> vapi_world \<Rightarrow> vapi_world vapi_prog" where
  "vapi_destroy b c msg w =
     (if b then Call (Lib c) (\<lambda>r. if oval r \<noteq> 0 then Ret (printf msg [] w) else Ret w) else Ret w)"

definition vapi_finalizeIB :: "vapi_world \<Rightarrow> vapi_world vapi_prog" where
  "vapi_finalizeIB w =
     (let g = glob w; h = hca_hndl g in
     andThen (vapi_destroy (comptype (prot (p_of w)) = NP_COMP_EVENT) (EVAPI_clear_comp_eventh h (ceh_hndl g)) ''Error clearing event handler'' w) (\<lambda>w.
     andThen (vapi_destroy (v_qp_hndl g \<noteq> None) (VAPI_destroy_qp h (v_qp_hndl g)) ''Error destroying Queue Pair'' w) (\<lambda>w.
     andThen (vapi_destroy (v_r_cq_hndl g \<noteq> None) (VAPI_destroy_cq h (v_r_cq_hndl g)) ''Error destroying recv CQ'' w) (\<lambda>w.
     andThen (vapi_destroy (v_s_cq_hndl g \<noteq> None) (VAPI_destroy_cq h (v_s_cq_hndl g)) ''Error destroying send CQ'' w) (\<lambda>w.
     andThen (vapi_destroy (v_s_mr_hndl g \<noteq> None) (VAPI_deregister_mr h (v_s_mr_hndl g)) ''Error deregistering send mr'' w) (\<lambda>w.
     andThen (vapi_destroy (v_r_mr_hndl g \<noteq> None) (VAPI_deregister_mr h (v_r_mr_hndl g)) ''Error deregistering recv mr'' w) (\<lambda>w.
     andThen (vapi_destroy (v_pd_hndl g \<noteq> None) (VAPI_dealloc_pd h (v_pd_hndl g)) ''Error deallocating PD'' w) (\<lambda>w.
     vapi_destroy (h \<noteq> None) (EVAPI_release_hca_hndl h) ''Error releasing HCA'' w))))))))"

definition vapi_CleanUp :: "vapi_world \<Rightarrow> vapi_world vapi_prog" where
  "vapi_CleanUp w =
     andThen (on_sockets (if tr (p_of w) \<noteq> 0
        then Call (Write (commfd (p_of w)) QUIT) (\<lambda>_.
             Call (Read (commfd (p_of w)) 5) (\<lambda>_.
             Call (Close (commfd (p_of w))) (\<lambda>_. Ret w)))
        else Call (Read (commfd (p_of w)) 5) (\<lambda>_.
             Call (Write (commfd (p_of w)) QUIT) (\<lambda>_.
             Call (Close (commfd (p_of w))) (\<lambda>_.
             Call (Close (servicefd (p_of w))) (\<lambda>_. Ret w)))))) vapi_finalizeIB"

text \<open>As in \<open>ibv.c\<close>, but the receiver's socket may reuse its address.\<close>

definition vapi_setup_addr :: "int \<Rightarrow> vapi_world \<Rightarrow> vapi_world sprog" where
  "vapi_setup_addr sockfd w =
     (if tr (p_of w) \<noteq> 0 then
        andThen
          (if atoi (host (p_of w)) > 0
           then Call (Inet_addr (host (p_of w))) (\<lambda>r. Ret (AF_INET, le_word (rdata r)))
           else Call (Gethostbyname (host (p_of w))) (\<lambda>r.
                if rv r = - 1 then Abort (Exit (- 5))
                else if length (rdata r) \<noteq> 4 then Abort BadAccess
                else Ret (rv r, le_word (rdata r))))
          (\<lambda>(fam, a).
        Ret (upd_args (\<lambda>p. p\<lparr>commfd := sockfd\<rparr>)
              (upd_prot (\<lambda>q. q\<lparr>sin1 := \<lparr>sin_family = fam, sin_port = htons (word_of_int (port (p_of w))),
                                       sin_addr = a\<rparr>\<rparr>) w)))
      else
        let w = upd_prot (\<lambda>q. q\<lparr>sin1 := \<lparr>sin_family = AF_INET, sin_port = htons (word_of_int (port (p_of w))),
                                         sin_addr = 0\<rparr>\<rparr>) w in
        Call (Setsockopt sockfd SOL_SOCKET SO_REUSEADDR 1) (\<lambda>r.
        if rv r \<noteq> 0 then Abort (Exit (- 7))
        else
        Call (Bind sockfd (sin1 (prot (p_of w)))) (\<lambda>r.
        if rv r < 0 then Abort (Exit (- 6))
        else Ret (upd_args (\<lambda>p. p\<lparr>servicefd := sockfd\<rparr>) w))))"

definition vapi_Setup :: "byte list \<Rightarrow> vapi_world \<Rightarrow> vapi_world vapi_prog" where
  "vapi_Setup stk w =
     (if commtype (prot (p_of w)) = NP_COMM_RDMAWRITE \<and> comptype (prot (p_of w)) \<noteq> NP_COMP_LOCALPOLL
      then Abort (Exit (- 1))
      else
      Call (Lib (V_fopen_iblog (1 - tr (p_of w)))) (\<lambda>_.
      let w = upd_prot (\<lambda>q. q\<lparr>sin1 := zero_sin, sin2 := zero_sin\<rparr>) w in
      Call (Lib (V_sk (Socket AF_INET SOCK_STREAM 0))) (\<lambda>r.
      if oval r < 0 then Abort (Exit (- 4))
      else let sockfd = oval r in
      Call (Lib (V_sk (Getprotobyname ''tcp''))) (\<lambda>r.
      if oval r = - 1 then Abort (Exit 555)
      else andThen (on_sockets (vapi_setup_addr sockfd w)) (\<lambda>w.
      andThen (vapi_establish w) (\<lambda>w.
      andThen (vapi_initIB stk w) (\<lambda>(c, w).
      if c = - 1 then andThen (vapi_CleanUp w) (\<lambda>_. Abort (Exit (- 1))) else Ret w)))))))"

section \<open>Transfers\<close>

primrec vapi_poll :: "nat \<Rightarrow> hndl \<Rightarrow> vapi_world \<Rightarrow> (int \<times> vapi_world) vapi_prog" where
  "vapi_poll 0 cq w = Abort OutOfFuel"
| "vapi_poll (Suc n) cq w =
     Call (Lib (VAPI_poll_cq (hca_hndl (glob w)) cq)) (\<lambda>r.
     let w = (if oval r = 0 then upd_v (\<lambda>g. g\<lparr>v_wc_status := int (onum r 0)\<rparr>) w else w) in
     if oval r = 1 then vapi_poll n cq w else Ret (oval r, w))"

definition vapi_completion :: "nat \<Rightarrow> hndl \<Rightarrow> vapi_world \<Rightarrow> vapi_world vapi_prog" where
  "vapi_completion fuel cq w =
     andThen (vapi_poll fuel cq w) (\<lambda>(ret, w).
     if ret \<noteq> 0 then Abort (Exit (- 1))
     else if v_wc_status (glob w) \<noteq> VAPI_SUCCESS then Abort (Exit (- 1))
     else Ret w)"

definition vapi_PrepareToReceive :: "vapi_world \<Rightarrow> vapi_world vapi_prog" where
  "vapi_PrepareToReceive w =
     (if commtype (prot (p_of w)) = NP_COMM_RDMAWRITE \<and> comptype (prot (p_of w)) = NP_COMP_LOCALPOLL then Ret w
      else
        let rr = \<lparr>rr_signaled = (comptype (prot (p_of w)) \<noteq> NP_COMP_LOCALPOLL),
                  rr_sg = Some \<lparr>vsg_lkey = fst (r_mr_out (glob w)), vsg_len = bufflen (p_of w), vsg_addr = r_ptr (p_of w)\<rparr>\<rparr> in
        Call (Lib (VAPI_post_rr (hca_hndl (glob w)) (v_qp_hndl (glob w)) rr)) (\<lambda>r.
        if oval r \<noteq> 0 then andThen (vapi_CleanUp w) (\<lambda>_. Abort (Exit (- 1)))
        else if comptype (prot (p_of w)) = NP_COMP_EVENT then Call (Lib (V_rc_set 0)) (\<lambda>_. Ret w)
        else Ret w))"

definition vapi_send_request :: "vapi_world \<Rightarrow> vapi_sr_desc res" where
  "vapi_send_request w =
     (let c = commtype (prot (p_of w));
          raddr = nat (int (v_remote_address (glob w)) + (int (s_ptr (p_of w)) - int (s_buff (p_of w))));
          sg_entry = \<lparr>vsg_lkey = fst (s_mr_out (glob w)), vsg_len = bufflen (p_of w), vsg_addr = s_ptr (p_of w)\<rparr>;
          req = (\<lambda>opc a k. Inr \<lparr>vs_opcode = opc, vs_signaled = False, vs_sg = Some sg_entry, vs_remote_addr = a, vs_r_key = k\<rparr>)
      in if c = NP_COMM_SENDRECV then req VAPI_SEND 0 0
         else if c = NP_COMM_SENDRECV_WITH_IMM then req VAPI_SEND_WITH_IMM 0 0
         else if c = NP_COMM_RDMAWRITE then req VAPI_RDMA_WRITE raddr (v_remote_key (glob w))
         else if c = NP_COMM_RDMAWRITE_WITH_IMM then req VAPI_RDMA_WRITE_WITH_IMM raddr (v_remote_key (glob w))
         else Inl (Exit (- 1)))"

definition vapi_SendData :: "vapi_world \<Rightarrow> vapi_world vapi_prog" where
  "vapi_SendData w =
     andThen (lift (vapi_send_request w)) (\<lambda>sr.
     Call (Lib (VAPI_post_sr (hca_hndl (glob w)) (v_qp_hndl (glob w)) sr)) (\<lambda>r.
     if oval r \<noteq> 0 then Ret (printf ''Error posting send request'' [] w) else Ret w))"

definition vapi_RecvData :: "nat \<Rightarrow> vapi_world \<Rightarrow> vapi_world vapi_prog" where
  "vapi_RecvData fuel w =
     (if comptype (prot (p_of w)) = NP_COMP_LOCALPOLL
      then let a = nat (int (r_ptr (p_of w)) + bufflen (p_of w) - 1) in
           Call (Spin a [word_of_int (97 + (if cache (p_of w) \<noteq> 0 then 1 - tr (p_of w) else 1))]) (\<lambda>_.
           Call (Store a [word_of_int (97 + (if cache (p_of w) \<noteq> 0 then tr (p_of w) else 0))]) (\<lambda>_. Ret w))
      else if comptype (prot (p_of w)) = NP_COMP_VAPIPOLL
      then vapi_completion fuel (v_r_cq_hndl (glob w)) w
      else if comptype (prot (p_of w)) = NP_COMP_EVENT
      then Call (Lib V_rc_wait_set) (\<lambda>_.
           if preburst (p_of w) \<noteq> 0 then Call (Lib (V_rc_set 0)) (\<lambda>_. Ret w) else Ret w)
      else Ret w)"

definition vapi_Reset :: "nat \<Rightarrow> byte list \<Rightarrow> vapi_world \<Rightarrow> vapi_world vapi_prog" where
  "vapi_Reset fuel stk w =
     andThen (if comptype (prot (p_of w)) = NP_COMP_EVENT then Call (Lib (V_rc_set 0)) (\<lambda>_. Ret ()) else Ret ()) (\<lambda>_.
     Call (Lib (VAPI_post_rr (hca_hndl (glob w)) (v_qp_hndl (glob w)) \<lparr>rr_signaled = True, rr_sg = None\<rparr>)) (\<lambda>r.
     if oval r \<noteq> 0 then andThen (vapi_CleanUp w) (\<lambda>_. Abort (Exit (- 1)))
     else andThen (vapi_Sync stk w) (\<lambda>w.
     Call (Lib (VAPI_post_sr (hca_hndl (glob w)) (v_qp_hndl (glob w)) \<lparr>vs_opcode = VAPI_SEND, vs_signaled = True, vs_sg = None,
       vs_remote_addr = 0, vs_r_key = 0\<rparr>)) (\<lambda>r.
     if oval r \<noteq> 0 then Abort (Exit (- 1))
     else if v_wc_status (glob w) \<noteq> VAPI_SUCCESS then Abort (Exit (- 1))
     else andThen (vapi_completion fuel (v_s_cq_hndl (glob w)) w) (\<lambda>w.
     if comptype (prot (p_of w)) = NP_COMP_EVENT then Call (Lib V_rc_wait_set) (\<lambda>_. Ret w)
     else vapi_completion fuel (v_r_cq_hndl (glob w)) w)))))"

text \<open>The completion handler, which the library calls in a thread of its own.\<close>

primrec vapi_event_handler :: "nat \<Rightarrow> hndl \<Rightarrow> hndl \<Rightarrow> vapi_world \<Rightarrow> vapi_world vapi_prog" where
  "vapi_event_handler 0 h cq w = Abort OutOfFuel"
| "vapi_event_handler (Suc n) h cq w =
     Call (Lib (VAPI_poll_cq h cq)) (\<lambda>r.
     let w = (if oval r = 0 then upd_v (\<lambda>g. g\<lparr>v_wc_status := int (onum r 0)\<rparr>) w else w) in
     if oval r = 1 then Call (Lib (VAPI_req_comp_notif (hca_hndl (glob w)) (v_r_cq_hndl (glob w)))) (\<lambda>_. Ret w)
     else if oval r \<noteq> 0 then Abort (Exit (- 1))
     else if v_wc_status (glob w) \<noteq> VAPI_SUCCESS then Abort (Exit (- 1))
     else Call (Lib V_rc_get) (\<lambda>r.
       andThen (if oval r = 1 then Call (Lib V_rc_wait_clear) (\<lambda>_. Ret ()) else Ret ()) (\<lambda>_.
       Call (Lib (V_rc_set 1)) (\<lambda>_. vapi_event_handler n h cq w))))"

section \<open>Buffers\<close>

definition vapi_reg_buffers :: "int \<Rightarrow> int \<Rightarrow> int \<Rightarrow> vapi_world \<Rightarrow> vapi_world vapi_prog" where
  "vapi_reg_buffers len soff roff w =
     Call (Lib (VAPI_register_mr (hca_hndl (glob w)) (v_pd_hndl (glob w)) (r_buff (p_of w)) (len + CMAX soff roff)
       [VAPI_EN_LOCAL_WRITE, VAPI_EN_REMOTE_WRITE])) (\<lambda>r.
     if oval r \<noteq> 0 then Abort (Exit (- 1))
     else
     let w = upd_v (\<lambda>g. g\<lparr>v_r_mr_hndl := Some (onum r 0), r_mr_out := (word_of_nat (onum r 1), word_of_nat (onum r 2))\<rparr>) w in
     Call (Lib (VAPI_register_mr (hca_hndl (glob w)) (v_pd_hndl (glob w)) (s_buff (p_of w)) (len + soff) [VAPI_EN_LOCAL_WRITE])) (\<lambda>r.
     if oval r \<noteq> 0 then Abort (Exit (- 1))
     else Ret (upd_v (\<lambda>g. g\<lparr>v_s_mr_hndl := Some (onum r 0), s_mr_out := (word_of_nat (onum r 1), word_of_nat (onum r 2))\<rparr>) w)))"

definition vapi_MyMalloc :: "allocator \<Rightarrow> int \<Rightarrow> int \<Rightarrow> int \<Rightarrow> vapi_world \<Rightarrow> vapi_world vapi_prog" where
  "vapi_MyMalloc alloc len soff roff w =
     andThen (malloc_shared alloc (unat (size_t (len + CMAX soff roff)))) (\<lambda>p.
     let w = upd_args (\<lambda>a. a\<lparr>r_buff := p\<rparr>) w in
     if r_buff (p_of w) = NULL then Abort (Exit (- 1))
     else if cache (p_of w) \<noteq> 0
     then vapi_reg_buffers len soff roff (upd_args (\<lambda>a. a\<lparr>s_buff := r_buff a\<rparr>) w)
     else andThen (malloc_shared alloc (unat (size_t (len + soff)))) (\<lambda>q.
          let w = upd_args (\<lambda>a. a\<lparr>s_buff := q\<rparr>) w in
          if s_buff (p_of w) = NULL then Abort (Exit (- 1)) else vapi_reg_buffers len soff roff w))"

definition vapi_dereg :: "hndl \<Rightarrow> string \<Rightarrow> vapi_world \<Rightarrow> (hndl \<times> vapi_world) vapi_prog" where
  "vapi_dereg m msg w =
     (if m \<noteq> None
      then Call (Lib (VAPI_deregister_mr (hca_hndl (glob w)) m)) (\<lambda>r.
           if oval r \<noteq> 0 then Ret (m, printf msg [] w) else Ret (None, w))
      else Ret (m, w))"

definition vapi_FreeBuff :: "addr \<Rightarrow> addr \<Rightarrow> vapi_world \<Rightarrow> vapi_world vapi_prog" where
  "vapi_FreeBuff buff1 buff2 w =
     andThen (vapi_dereg (v_s_mr_hndl (glob w)) ''Error deregistering send mr'' w) (\<lambda>(m, w).
     let w = upd_v (\<lambda>g. g\<lparr>v_s_mr_hndl := m\<rparr>) w in
     andThen (vapi_dereg (v_r_mr_hndl (glob w)) ''Error deregistering recv mr'' w) (\<lambda>(m, w).
     let w = upd_v (\<lambda>g. g\<lparr>v_r_mr_hndl := m\<rparr>) w in
     andThen (if buff1 \<noteq> NULL then free_shared buff1 else Ret ()) (\<lambda>_.
     andThen (if buff2 \<noteq> NULL then free_shared buff2 else Ret ()) (\<lambda>_. Ret w))))"

definition vapi_module :: "allocator \<Rightarrow> lfsr \<Rightarrow> nat \<Rightarrow> byte list \<Rightarrow> (vapi_call os_ev, os_reply, IbvProt, vapi_glob) comm_module" where
  "vapi_module alloc L fuel stk =
     \<lparr>mInit = (\<lambda>w. Ret (vapi_Init w)), mSetup = vapi_Setup stk,
      mSendRepeat = vapi_SendRepeat, mRecvRepeat = vapi_RecvRepeat,
      mMyMalloc = vapi_MyMalloc alloc, mInitBufferData = (\<lambda>n so ro. on_shared (InitBufferData L n so ro)),
      mAfterAlignmentInit = vapi_AfterAlignmentInit, mPrepareToReceive = vapi_PrepareToReceive,
      mSync = vapi_Sync stk, mSendData = vapi_SendData, mRecvData = vapi_RecvData fuel,
      mCheckBufferData = (\<lambda>n so ro. on_shared (CheckBufferData L n so ro)),
      mFreeBuff = vapi_FreeBuff\<rparr>"

end
