(* ===== verification/Vapi_Port.thy ===== *)
theory Vapi_Port
  imports Vapi
begin

text \<open>
  \<open>ibv.c\<close> was made from \<open>ib.c\<close> by replacing the calls of one library by those of the other.  Here the calls of
  VAPI and their replies are translated into those of verbs, and the functions of the two modules
  are shown to be the same under this translation.
\<close>

section \<open>Translation of calls\<close>

definition h0 :: "hndl \<Rightarrow> nat" where
  "h0 h = (case h of None \<Rightarrow> 0 | Some a \<Rightarrow> a)"

fun tstate :: "vapi_qp_state \<Rightarrow> qp_state" where
  "tstate VAPI_RESET = IBV_QPS_RESET"
| "tstate VAPI_INIT = IBV_QPS_INIT"
| "tstate VAPI_RTR = IBV_QPS_RTR"
| "tstate VAPI_RTS = IBV_QPS_RTS"

fun tmask :: "vapi_mask \<Rightarrow> qp_mask" where
  "tmask QP_ATTR_QP_STATE = IBV_QP_STATE"
| "tmask QP_ATTR_PKEY_IX = IBV_QP_PKEY_INDEX"
| "tmask QP_ATTR_PORT = IBV_QP_PORT"
| "tmask QP_ATTR_REMOTE_ATOMIC_FLAGS = IBV_QP_ACCESS_FLAGS"
| "tmask QP_ATTR_QP_OUS_RD_ATOM = IBV_QP_MAX_DEST_RD_ATOMIC"
| "tmask QP_ATTR_DEST_QP_NUM = IBV_QP_DEST_QPN"
| "tmask QP_ATTR_AV = IBV_QP_AV"
| "tmask QP_ATTR_PATH_MTU = IBV_QP_PATH_MTU"
| "tmask QP_ATTR_RQ_PSN = IBV_QP_RQ_PSN"
| "tmask QP_ATTR_MIN_RNR_TIMER = IBV_QP_MIN_RNR_TIMER"
| "tmask QP_ATTR_SQ_PSN = IBV_QP_SQ_PSN"
| "tmask QP_ATTR_TIMEOUT = IBV_QP_TIMEOUT"
| "tmask QP_ATTR_RETRY_COUNT = IBV_QP_RETRY_CNT"
| "tmask QP_ATTR_RNR_RETRY = IBV_QP_RNR_RETRY"
| "tmask QP_ATTR_OUS_DST_RD_ATOM = IBV_QP_MAX_QP_RD_ATOMIC"

fun tacl :: "vapi_acl \<Rightarrow> access" where
  "tacl VAPI_EN_LOCAL_WRITE = IBV_ACCESS_LOCAL_WRITE"
| "tacl VAPI_EN_REMOTE_WRITE = IBV_ACCESS_REMOTE_WRITE"
| "tacl VAPI_EN_REM_WRITE = IBV_ACCESS_REMOTE_WRITE"
| "tacl VAPI_EN_REM_READ = IBV_ACCESS_REMOTE_READ"

fun topcode :: "vapi_opcode \<Rightarrow> opcode" where
  "topcode VAPI_SEND = IBV_WR_SEND"
| "topcode VAPI_SEND_WITH_IMM = IBV_WR_SEND_WITH_IMM"
| "topcode VAPI_RDMA_WRITE = IBV_WR_RDMA_WRITE"
| "topcode VAPI_RDMA_WRITE_WITH_IMM = IBV_WR_RDMA_WRITE_WITH_IMM"

definition tinit :: "vapi_qp_init_attr \<Rightarrow> ibv_qp_init_attr" where
  "tinit a = \<lparr>max_recv_wr = max_oust_wr_rq a, max_send_wr = max_oust_wr_sq a, max_recv_sge = max_sg_size_rq a,
     max_send_sge = max_sg_size_sq a, recv_cq = h0 (rq_cq_hndl a), send_cq = h0 (sq_cq_hndl a), sq_sig_all = 0\<rparr>"

definition tattr :: "vapi_qp_attr \<Rightarrow> ibv_qp_attr" where
  "tattr a = \<lparr>qp_state = tstate (vq_state a), pkey_index = pkey_ix a, qp_port_num = vq_port a,
     qp_access_flags = map tacl (remote_atomic_flags a), max_dest_rd_atomic = qp_ous_rd_atom a,
     dest_qp_num = vq_dest_qp_num a, ah_sl = av_sl a, ah_is_global = (if av_grh_flag a then 1 else 0), ah_dlid = av_dlid a,
     ah_static_rate = av_static_rate a, ah_src_path_bits = av_src_path_bits a, ah_port_num = vq_port a, path_mtu = vq_path_mtu a,
     rq_psn = vq_rq_psn a, min_rnr_timer = vq_min_rnr_timer a, sq_psn = vq_sq_psn a, timeout = vq_timeout a,
     retry_cnt = retry_count a, rnr_retry = vq_rnr_retry a, max_rd_atomic = ous_dst_rd_atom a\<rparr>"

definition tsg :: "vapi_sg \<Rightarrow> ibv_sge" where
  "tsg e = \<lparr>sg_lkey = vsg_lkey e, sg_length = vsg_len e, sg_addr = vsg_addr e\<rparr>"

definition tsr :: "vapi_sr_desc \<Rightarrow> ibv_send_wr" where
  "tsr s = \<lparr>sr_opcode = topcode (vs_opcode s), sr_signaled = vs_signaled s, sr_sge = map_option tsg (vs_sg s),
     sr_remote_addr = vs_remote_addr s, sr_rkey = vs_r_key s\<rparr>"

text \<open>The call of verbs for a call of VAPI; opening the adapter and the completion handler have none.\<close>

fun tcall :: "vapi_call \<Rightarrow> ib_call option" where
  "tcall (V_sk e) = Some (Sk e)"
| "tcall (V_fopen_iblog n) = Some (Fopen_iblog n)"
| "tcall (VAPI_open_hca s) = None"
| "tcall (EVAPI_get_hca_hndl s) = None"
| "tcall (VAPI_query_hca_port_prop h n) = Some (Ibv_query_port (h0 h) n)"
| "tcall (VAPI_alloc_pd h) = Some (Ibv_alloc_pd (h0 h))"
| "tcall (VAPI_create_cq h n) = Some (Ibv_create_cq (h0 h) n)"
| "tcall (VAPI_create_qp h a) = Some (Ibv_create_qp (h0 (qi_pd_hndl a)) (tinit a))"
| "tcall (VAPI_modify_qp h q a ms) = Some (Ibv_modify_qp (h0 q) (tattr a) (map tmask ms))"
| "tcall (EVAPI_set_comp_eventh h c) = None"
| "tcall (VAPI_req_comp_notif h c) = Some (Ibv_req_notify_cq (h0 c) 0)"
| "tcall (EVAPI_clear_comp_eventh h c) = None"
| "tcall (VAPI_destroy_qp h q) = Some (Ibv_destroy_qp (h0 q))"
| "tcall (VAPI_destroy_cq h c) = Some (Ibv_destroy_cq (h0 c))"
| "tcall (VAPI_deregister_mr h m) = Some (Ibv_dereg_mr (h0 m))"
| "tcall (VAPI_dealloc_pd h d) = Some (Ibv_dealloc_pd (h0 d))"
| "tcall (EVAPI_release_hca_hndl h) = Some (Ibv_close_device (h0 h))"
| "tcall (VAPI_poll_cq h c) = Some (Ibv_poll_cq (h0 c))"
| "tcall (VAPI_post_rr h q r) = Some (Ibv_post_recv (h0 q) \<lparr>rr_sge = map_option tsg (rr_sg r)\<rparr>)"
| "tcall (VAPI_post_sr h q s) = Some (Ibv_post_send (h0 q) (tsr s))"
| "tcall (VAPI_register_mr h d a n acl) = Some (Ibv_reg_mr (h0 d) a n (map tacl acl))"
| "tcall V_rc_get = Some Rc_get"
| "tcall (V_rc_set n) = Some (Rc_set n)"
| "tcall V_rc_wait_set = Some Rc_wait_set"
| "tcall V_rc_wait_clear = Some Rc_wait_clear"

text \<open>
  A reply of verbs as one of VAPI.  A call that creates an object returns it, or the null pointer;
  in VAPI it returns a status and stores a handle.  A poll returns the number of completions.
\<close>

definition created :: "os_reply \<Rightarrow> os_reply" where
  "created r = (if handle r = 0 then os_ok\<lparr>oval := 2\<rparr> else os_ok\<lparr>oaddrs := handle r # oaddrs r\<rparr>)"

fun reply_back :: "vapi_call \<Rightarrow> os_reply \<Rightarrow> os_reply" where
  "reply_back (VAPI_alloc_pd h) r = created r"
| "reply_back (VAPI_create_cq h n) r = created r"
| "reply_back (VAPI_create_qp h a) r = created r"
| "reply_back (VAPI_register_mr h d a n acl) r = created r"
| "reply_back (VAPI_poll_cq h c) r = r\<lparr>oval := (if oval r > 0 then 0 else if oval r = 0 then 1 else 2)\<rparr>"
| "reply_back _ r = r"

primrec translate :: "('a \<Rightarrow> 'b) \<Rightarrow> 'a vapi_prog \<Rightarrow> 'b ib_prog" where
  "translate f (Ret x) = Ret (f x)"
| "translate f (Abort e) = Abort e"
| "translate f (Clock k) = Clock (\<lambda>t. translate f (k t))"
| "translate f (Call e k) =
     (case e of
        Lib c \<Rightarrow> (case tcall c of
            Some c' \<Rightarrow> Call (Lib c') (\<lambda>r. translate f (k (reply_back c r)))
          | None \<Rightarrow> translate f (k os_ok))
      | Load a n \<Rightarrow> Call (Load a n) (\<lambda>r. translate f (k r))
      | Store a bs \<Rightarrow> Call (Store a bs) (\<lambda>r. translate f (k r))
      | Spin a bs \<Rightarrow> Call (Spin a bs) (\<lambda>r. translate f (k r))
      | Put d s n pe \<Rightarrow> Call (Put d s n pe) (\<lambda>r. translate f (k r))
      | Routine g \<Rightarrow> Call (Routine g) (\<lambda>r. translate f (k r)))"

lemma translate_if [simp]: "translate f (if b then p else q) = (if b then translate f p else translate f q)"
  by simp

lemma translate_andThen:
  "translate f (andThen p q) = andThen (translate (\<lambda>x. x) p) (\<lambda>x. translate f (q x))"
  by (induction p) (auto split: os_ev.splits option.splits)

lemma translate_sockets: "translate f (on_sockets p) = via (andThen p (\<lambda>x. Ret (f x)))"
  by (induction p) (simp_all add: via_andThen)

lemma translate_shared [simp]:
  "translate (\<lambda>x. x) (malloc_shared alloc n) = malloc_shared alloc n" "translate (\<lambda>x. x) (free_shared a) = free_shared a"
  "translate (\<lambda>x. ()) (free_shared a) = free_shared a"
  by (simp_all add: malloc_shared_def free_shared_def fun_eq_iff split: option.splits)

section \<open>Translation of states\<close>

definition tmr :: "u32 \<times> u32 \<Rightarrow> nat \<Rightarrow> ibv_mr" where
  "tmr ks m = \<lparr>mr_ptr = m, lkey = fst ks, rkey = snd ks\<rparr>"

definition tglob :: "vapi_glob \<Rightarrow> ibv_glob" where
  "tglob g = \<lparr>hca = 0, ctx = h0 (hca_hndl g), port_num = v_port_num g, lid = v_lid g, d_lid = v_d_lid g, pd_hndl = h0 (v_pd_hndl g),
     s_cq_hndl = h0 (v_s_cq_hndl g), r_cq_hndl = h0 (v_r_cq_hndl g), s_mr_hndl = map_option (tmr (s_mr_out g)) (v_s_mr_hndl g),
     r_mr_hndl = map_option (tmr (r_mr_out g)) (v_r_mr_hndl g), qp_init_attr = tinit (v_qp_init_attr g),
     qp_hndl = map_option (\<lambda>q. \<lparr>qp_ptr = q, qp_num = qp_prop g\<rparr>) (v_qp_hndl g), d_qp_num = v_d_qp_num g, qp_attr = tattr (v_qp_attr g),
     wc_status = v_wc_status g, max_wq = v_max_wq g, remote_address = v_remote_address g, remote_key = v_remote_key g\<rparr>"

definition tworld :: "vapi_world \<Rightarrow> ibv_world" where
  "tworld w = \<lparr>self = self w, heap = heap w, lfsr_data = lfsr_data w, fcflag = fcflag w, glob = tglob (glob w), out = out w\<rparr>"

lemma tworld_simps [simp]:
  "self (tworld w) = self w" "heap (tworld w) = heap w" "glob (tworld w) = tglob (glob w)" "out (tworld w) = out w"
  "lfsr_data (tworld w) = lfsr_data w"
  "tworld (upd_args a w) = upd_args a (tworld w)" "tworld (printf s as w) = printf s as (tworld w)"
  "tworld (upd_v (\<lambda>g. g\<lparr>v_wc_status := x\<rparr>) w) = upd_ib (\<lambda>g. g\<lparr>wc_status := x\<rparr>) (tworld w)"
  by (simp_all add: tworld_def upd_args_def printf_def upd_v_def upd_ib_def tglob_def)

lemma tworld_mr [simp]:
  "tworld (upd_v (\<lambda>g. g\<lparr>v_r_mr_hndl := m, r_mr_out := ks\<rparr>) w) = upd_ib (\<lambda>g. g\<lparr>r_mr_hndl := map_option (tmr ks) m\<rparr>) (tworld w)"
  "tworld (upd_v (\<lambda>g. g\<lparr>v_s_mr_hndl := m, s_mr_out := ks\<rparr>) w) = upd_ib (\<lambda>g. g\<lparr>s_mr_hndl := map_option (tmr ks) m\<rparr>) (tworld w)"
  "tworld (upd_v (\<lambda>g. g\<lparr>v_r_mr_hndl := m\<rparr>) w) = upd_ib (\<lambda>g. g\<lparr>r_mr_hndl := map_option (tmr (r_mr_out (glob w))) m\<rparr>) (tworld w)"
  "tworld (upd_v (\<lambda>g. g\<lparr>v_s_mr_hndl := m\<rparr>) w) = upd_ib (\<lambda>g. g\<lparr>s_mr_hndl := map_option (tmr (s_mr_out (glob w))) m\<rparr>) (tworld w)"
  by (simp_all add: tworld_def upd_v_def upd_ib_def tglob_def)

lemma tworld_remote [simp]:
  "tworld (upd_v (\<lambda>g. g\<lparr>v_remote_address := a\<rparr>) w) = upd_ib (\<lambda>g. g\<lparr>remote_address := a\<rparr>) (tworld w)"
  "tworld (upd_v (\<lambda>g. g\<lparr>v_remote_key := k\<rparr>) w) = upd_ib (\<lambda>g. g\<lparr>remote_key := k\<rparr>) (tworld w)"
  by (simp_all add: tworld_def upd_v_def upd_ib_def tglob_def)

lemma onum_created [simp]:
  "handle r \<noteq> 0 \<Longrightarrow> onum (created r) 0 = handle r" "handle r \<noteq> 0 \<Longrightarrow> onum (created r) (Suc i) = onum r i"
  "oval (created r) = 0 \<longleftrightarrow> handle r \<noteq> 0"
  by (simp_all add: created_def onum_def os_ok_def)

lemma qp_of_tglob [simp]: "qp_of (tglob g) = h0 (v_qp_hndl g)"
  by (simp add: qp_of_def tglob_def h0_def split: option.splits)

text \<open>Programs in sequence, with the translated state in between.\<close>

lemma translate_then:
  assumes "translate g p = p'" and "\<And>x. translate f (q x) = q' (g x)"
  shows "translate f (andThen p q) = andThen p' q'"
  unfolding assms(1) [symmetric] by (induction p) (auto simp: assms(2) split: os_ev.splits option.splits)

lemma map_if: "andThen (if b then p else q) f = (if b then andThen p f else andThen q f)"
  by simp

text \<open>No handle is the null pointer.\<close>

definition proper :: "vapi_glob \<Rightarrow> bool" where
  "proper g \<longleftrightarrow> Some 0 \<notin> {hca_hndl g, v_pd_hndl g, v_s_cq_hndl g, v_r_cq_hndl g}"

lemma h0_simps [simp]: "h0 None = 0" "h0 (Some a) = a"
  by (simp_all add: h0_def)

lemma h0_0: "h \<noteq> Some 0 \<Longrightarrow> h0 h = 0 \<longleftrightarrow> h = None"
  by (cases h) simp_all

section \<open>The functions of the two modules\<close>

lemma Sync_port: "translate tworld (vapi_Sync stk w) = via (ibv_Sync stk (tworld w))"
  by (simp add: vapi_Sync_def translate_sockets ibv_Sync_def via_andThen case_prod_unfold map_if cong: if_cong)

lemma destroy_port:
  assumes "tcall c = Some c'" and "\<And>r. reply_back c r = r" and "b \<longleftrightarrow> b'"
  shows "translate tworld (vapi_destroy b c msg w) = destroy b' c' msg (tworld w)"
  using assms by (simp add: vapi_destroy_def destroy_def fun_eq_iff)

lemma tglob_handles:
  assumes "proper g"
  shows "qp_hndl (tglob g) \<noteq> None \<longleftrightarrow> v_qp_hndl g \<noteq> None" "r_cq_hndl (tglob g) \<noteq> 0 \<longleftrightarrow> v_r_cq_hndl g \<noteq> None"
    "s_cq_hndl (tglob g) \<noteq> 0 \<longleftrightarrow> v_s_cq_hndl g \<noteq> None" "pd_hndl (tglob g) \<noteq> 0 \<longleftrightarrow> v_pd_hndl g \<noteq> None"
    "ctx (tglob g) \<noteq> 0 \<longleftrightarrow> hca_hndl g \<noteq> None"
  using assms by (auto simp: tglob_def proper_def h0_def split: option.splits)

lemma tglob_sel [simp]:
  "r_cq_hndl (tglob g) = h0 (v_r_cq_hndl g)" "s_cq_hndl (tglob g) = h0 (v_s_cq_hndl g)" "pd_hndl (tglob g) = h0 (v_pd_hndl g)"
  "ctx (tglob g) = h0 (hca_hndl g)" "s_mr_hndl (tglob g) = map_option (tmr (s_mr_out g)) (v_s_mr_hndl g)"
  "r_mr_hndl (tglob g) = map_option (tmr (r_mr_out g)) (v_r_mr_hndl g)" "wc_status (tglob g) = v_wc_status g"
  by (simp_all add: tglob_def)

lemma destroy_mr_port:
  "translate tworld (vapi_destroy (m \<noteq> None) (VAPI_deregister_mr h m) msg w) =
   (case map_option (tmr ks) m of None \<Rightarrow> Ret (tworld w) | Some m \<Rightarrow> destroy True (Ibv_dereg_mr (mr_ptr m)) msg (tworld w))"
  by (cases m) (simp_all add: vapi_destroy_def destroy_def tmr_def fun_eq_iff)

lemma destroy_then:
  assumes "tcall c = Some c'" and "\<And>r. reply_back c r = r" and "b \<longleftrightarrow> b'" and "\<And>x. translate tworld (q x) = q' (tworld x)"
  shows "translate tworld (andThen (vapi_destroy b c msg w) q) = andThen (destroy b' c' msg (tworld w)) q'"
  by (rule translate_then [where g = tworld]) (use assms in \<open>simp_all add: destroy_port\<close>)

lemma destroy_mr_then:
  assumes "m' = map_option (tmr ks) m" and "\<And>x. translate tworld (q x) = q' (tworld x)"
  shows "translate tworld (andThen (vapi_destroy (m \<noteq> None) (VAPI_deregister_mr h m) msg w) q) =
    andThen (case m' of None \<Rightarrow> Ret (tworld w) | Some m \<Rightarrow> destroy True (Ibv_dereg_mr (mr_ptr m)) msg (tworld w)) q'"
  unfolding assms(1) by (rule translate_then [where g = tworld]) (use assms(2) destroy_mr_port in simp_all)

lemma finalizeIB_port:
  assumes "proper (glob w)"
  shows "translate tworld (vapi_finalizeIB w) = finalizeIB (tworld w)"
proof -
  have skip: "translate tworld (andThen (vapi_destroy b (EVAPI_clear_comp_eventh h c) msg w') q) = q' (tworld w')"
    if "\<And>x. translate tworld (q x) = q' (tworld x)" for b h c msg w' q q'
    using that by (simp add: vapi_destroy_def os_ok_def)
  note h = tglob_handles [OF assms]
  show ?thesis
    unfolding vapi_finalizeIB_def finalizeIB_def Let_def tworld_simps
    apply (rule skip)
    apply (rule destroy_then [OF _ _ h(1) [symmetric]], simp, simp)
    apply (rule destroy_then [OF _ _ h(2) [symmetric]], simp, simp)
    apply (rule destroy_then [OF _ _ h(3) [symmetric]], simp, simp)
    apply (rule destroy_mr_then, simp)
    apply (rule destroy_mr_then, simp)
    apply (rule destroy_then [OF _ _ h(4) [symmetric]], simp, simp)
    apply (rule destroy_port [OF _ _ h(5) [symmetric]], simp_all)
    done
qed

lemma onum_oval [simp]: "onum (r\<lparr>oval := x\<rparr>) i = onum r i"
  by (simp add: onum_def)

lemma poll_port: "translate (\<lambda>(r, w). (if r = 0 then 1 else - 1, tworld w)) (vapi_poll n cq w) =
    andThen (poll_cq n (h0 cq) (tworld w)) (\<lambda>(r, w). Ret (if r > 0 then 1 else - 1, w))"
  by (induction n arbitrary: w) (simp_all add: Let_def fun_eq_iff)

lemma poll_cq_cong: "(\<And>r w. r \<noteq> 0 \<Longrightarrow> f (r, w) = f' (r, w)) \<Longrightarrow> andThen (poll_cq n cq w) f = andThen (poll_cq n cq w) f'"
  by (induction n arbitrary: w) (simp_all add: Let_def fun_eq_iff)

lemma completion_port: "translate tworld (vapi_completion n cq w) = completion n (h0 cq) (tworld w)"
proof -
  have "translate tworld (vapi_completion n cq w) =
     andThen (andThen (poll_cq n (h0 cq) (tworld w)) (\<lambda>(r, w). Ret (if r > 0 then 1 else - 1 :: int, w))) (\<lambda>(ret, w).
     if ret < 0 then Abort (Exit (- 1)) else if wc_status (glob w) \<noteq> IBV_WC_SUCCESS then Abort (Exit (- 1)) else Ret w)"
    unfolding vapi_completion_def by (rule translate_then [OF poll_port]) (auto simp: VAPI_SUCCESS_def IBV_WC_SUCCESS_def)
  also have "\<dots> = completion n (h0 cq) (tworld w)"
    unfolding completion_def andThen_assoc by (rule poll_cq_cong) auto
  finally show ?thesis .
qed

lemma SendData_port:
  assumes "v_s_mr_hndl (glob w) = Some m"
  shows "translate tworld (vapi_SendData w) = ibv_SendData (tworld w)"
proof -
  let ?r = "vapi_send_request w" and ?r' = "send_request (tworld w) (tmr (s_mr_out (glob w)) m)"
  have "?r' = map_sum id tsr ?r"
    by (simp add: vapi_send_request_def send_request_def Let_def tmr_def tsr_def tsg_def tglob_def)
  moreover have "s_mr_hndl (tglob (glob w)) = Some (tmr (s_mr_out (glob w)) m)" using assms by (simp add: tglob_def)
  ultimately show ?thesis
    using assms by (cases ?r) (simp_all add: vapi_SendData_def ibv_SendData_def fun_eq_iff)
qed

lemma CleanUp_port:
  assumes "proper (glob w)"
  shows "translate tworld (vapi_CleanUp w) = ibv_CleanUp (tworld w)"
proof -
  have "via (andThen (if tr (p_of w) \<noteq> 0
        then Call (Write (commfd (p_of w)) QUIT) (\<lambda>_. Call (Read (commfd (p_of w)) 5) (\<lambda>_. Call (Close (commfd (p_of w))) (\<lambda>_. Ret w)))
        else Call (Read (commfd (p_of w)) 5) (\<lambda>_. Call (Write (commfd (p_of w)) QUIT) (\<lambda>_. Call (Close (commfd (p_of w))) (\<lambda>_.
             Call (Close (servicefd (p_of w))) (\<lambda>_. Ret w))))) (\<lambda>x. Ret (tworld x))) = via (if tr (p_of w) \<noteq> 0
        then Call (Write (commfd (p_of w)) QUIT) (\<lambda>_. Call (Read (commfd (p_of w)) 5) (\<lambda>_. Call (Close (commfd (p_of w))) (\<lambda>_. Ret (tworld w))))
        else Call (Read (commfd (p_of w)) 5) (\<lambda>_. Call (Write (commfd (p_of w)) QUIT) (\<lambda>_. Call (Close (commfd (p_of w))) (\<lambda>_.
             Call (Close (servicefd (p_of w))) (\<lambda>_. Ret (tworld w))))))" by simp
  then show ?thesis
    using finalizeIB_port [OF assms] by (simp add: vapi_CleanUp_def ibv_CleanUp_def translate_andThen translate_sockets cong: if_cong)
qed

lemma CleanUp_exit_port:
  "proper (glob w) \<Longrightarrow> translate tworld (andThen (vapi_CleanUp w) (\<lambda>_. Abort e)) = andThen (ibv_CleanUp (tworld w)) (\<lambda>_. Abort e)"
  by (rule translate_then [where g = tworld]) (simp_all add: CleanUp_port)

lemma PrepareToReceive_port:
  assumes "proper (glob w)" and "v_r_mr_hndl (glob w) = Some m"
  shows "translate tworld (vapi_PrepareToReceive w) = ibv_PrepareToReceive (tworld w)"
  using assms by (simp add: vapi_PrepareToReceive_def ibv_PrepareToReceive_def Let_def CleanUp_exit_port tsg_def tmr_def fun_eq_iff cong: if_cong)

text \<open>The two \<open>RecvData\<close> agree in the modes that \<open>Setup\<close> of \<open>ibv.c\<close> lets pass.\<close>

definition ibv_mode :: "IbvProt \<Rightarrow> bool" where
  "ibv_mode q \<longleftrightarrow> (commtype q = NP_COMM_RDMAWRITE \<longleftrightarrow> comptype q = NP_COMP_LOCALPOLL) \<and>
     comptype q \<in> {NP_COMP_LOCALPOLL, NP_COMP_VAPIPOLL, NP_COMP_EVENT}"

lemma RecvData_port:
  assumes "ibv_mode (prot (p_of w))"
  shows "translate tworld (vapi_RecvData n w) = ibv_RecvData n (tworld w)"
  using assms by (auto simp: vapi_RecvData_def ibv_RecvData_def ibv_mode_def Let_def completion_port np_types)

lemma Reset_port:
  assumes "proper (glob w)"
  shows "translate tworld (vapi_Reset n stk w) = ibv_Reset n stk (tworld w)"
proof -
  define R where "R = (\<lambda>w. if comptype (prot (p_of w)) = NP_COMP_EVENT then Call (Lib V_rc_wait_set) (\<lambda>_. Ret w)
     else vapi_completion n (v_r_cq_hndl (glob w)) w)"
  define R' where "R' = (\<lambda>w :: ibv_world. if comptype (prot (p_of w)) = NP_COMP_EVENT then Call (Lib Rc_wait_set) (\<lambda>_. Ret w)
     else completion n (r_cq_hndl (glob w)) w)"
  have r: "translate tworld (R x) = R' (tworld x)" for x by (simp add: R_def R'_def completion_port)
  have c: "translate tworld (andThen (vapi_completion n cq x) R) = andThen (completion n (h0 cq) (tworld x)) R'" for cq x
    by (rule translate_then [where g = tworld]) (simp_all add: completion_port r)
  have s: "translate tworld (andThen (vapi_Sync stk w) q) = andThen (via (ibv_Sync stk (tworld w))) q'"
    if "\<And>x. translate tworld (q x) = q' (tworld x)" for q q'
    by (rule translate_then [where g = tworld]) (use that Sync_port in simp_all)
  have first: "translate f (andThen (if b then Call (Lib (V_rc_set 0)) (\<lambda>_. Ret ()) else Ret ()) q) =
      andThen (if b then Call (Lib (Rc_set 0)) (\<lambda>_. Ret ()) else Ret ()) (\<lambda>u. translate f (q u))" for f b q
    by simp
  show ?thesis
    unfolding vapi_Reset_def ibv_Reset_def first R_def [symmetric] R'_def [symmetric] tworld_simps
    by (simp add: CleanUp_exit_port [OF assms] tsr_def VAPI_SUCCESS_def IBV_WC_SUCCESS_def fun_eq_iff
        cong: if_cong) (auto intro!: s simp: c tsr_def VAPI_SUCCESS_def IBV_WC_SUCCESS_def fun_eq_iff)
qed

lemma event_handler_port: "translate tworld (vapi_event_handler n h cq w) = event_handler n (h0 cq) (tworld w)"
  by (induction n arbitrary: w) (auto simp: Let_def fun_eq_iff VAPI_SUCCESS_def IBV_WC_SUCCESS_def)

lemma AfterAlignmentInit_port:
  assumes "v_r_mr_hndl (glob w) = Some m"
  shows "translate tworld (vapi_AfterAlignmentInit w) = via (ibv_AfterAlignmentInit (tworld w))"
  using assms
  by (simp add: vapi_AfterAlignmentInit_def ibv_AfterAlignmentInit_def translate_sockets vapi_exchange_keys_def via_andThen Let_def tmr_def
      case_prod_unfold map_if cong: if_cong)

lemma reg_buffers_port: "translate tworld (vapi_reg_buffers len soff roff w) = reg_buffers len soff roff (tworld w)"
  by (simp add: vapi_reg_buffers_def reg_buffers_def Let_def new_mr_def tmr_def numeral_2_eq_2 fun_eq_iff)

lemma MyMalloc_port: "translate tworld (vapi_MyMalloc alloc len soff roff w) = ibv_MyMalloc alloc len soff roff (tworld w)"
  by (simp add: vapi_MyMalloc_def ibv_MyMalloc_def Let_def translate_andThen reg_buffers_port cong: if_cong)

lemma dereg_port:
  "translate (\<lambda>(m, w). (map_option (tmr (ks (glob w))) m, tworld w)) (vapi_dereg m msg w) =
   dereg (map_option (tmr (ks (glob w))) m) msg (tworld w)"
  by (cases m) (simp_all add: vapi_dereg_def dereg_def tmr_def fun_eq_iff)

lemma FreeBuff_port: "translate tworld (vapi_FreeBuff b1 b2 w) = ibv_FreeBuff b1 b2 (tworld w)"
proof -
  define F where "F = (\<lambda>w. andThen (vapi_dereg (v_r_mr_hndl (glob w)) ''Error deregistering recv mr'' w) (\<lambda>(m, w).
     let w = upd_v (\<lambda>g. g\<lparr>v_r_mr_hndl := m\<rparr>) w in
     andThen (if b1 \<noteq> NULL then free_shared b1 else Ret ()) (\<lambda>_.
     andThen (if b2 \<noteq> NULL then free_shared b2 else Ret ()) (\<lambda>_. Ret w))))"
  define F' where "F' = (\<lambda>w. andThen (dereg (r_mr_hndl (glob w)) ''Error deregistering recv mr'' w) (\<lambda>(m, w).
     let w = upd_ib (\<lambda>g. g\<lparr>r_mr_hndl := m\<rparr>) w in
     andThen (if b1 \<noteq> NULL then free_shared b1 else Ret ()) (\<lambda>_.
     andThen (if b2 \<noteq> NULL then free_shared b2 else Ret ()) (\<lambda>_. Ret w))))"
  have F: "translate tworld (F x) = F' (tworld x)" for x
    unfolding F_def F'_def tworld_simps tglob_sel
    by (rule translate_then [OF dereg_port [where ks = r_mr_out]]) (clarsimp simp: Let_def translate_andThen)
  show ?thesis
    unfolding vapi_FreeBuff_def ibv_FreeBuff_def F_def [symmetric] F'_def [symmetric] tworld_simps tglob_sel
    by (rule translate_then [OF dereg_port [where ks = s_mr_out]]) (clarsimp simp: Let_def F)
qed

end
