(* ===== verification/Vapi_Setup.thy ===== *)
theory Vapi_Setup
  imports Vapi_Port Ibv_Safety
begin

text \<open>
  \<open>Setup\<close> of \<open>ib.c\<close> against the VAPI library as a device: the objects that are alive, the states of the queue pairs, the
  completion handlers that are set, and whether the adapter is open.
\<close>

section \<open>The library as a device\<close>

record vlib =
  vlive :: "vres set"
  vst :: "nat \<Rightarrow> vapi_qp_state"
  vceh :: "nat set"
  vopen :: bool

abbreviation alive :: "(nat \<Rightarrow> vres) \<Rightarrow> hndl \<Rightarrow> vlib \<Rightarrow> bool" where
  "alive c h v \<equiv> h \<noteq> None \<and> c (the h) \<in> vlive v"

text \<open>
  Objects are created on live parents and destroyed after those that depend on them; a queue pair
  goes through its states in order, with the attributes that each step needs; only a handler that
  is set is cleared.
\<close>

fun v_legal :: "vapi_call \<Rightarrow> vlib \<Rightarrow> bool" where
  "v_legal (VAPI_query_hca_port_prop h n) v \<longleftrightarrow> alive Ctx h v"
| "v_legal (VAPI_alloc_pd h) v \<longleftrightarrow> alive Ctx h v"
| "v_legal (VAPI_create_cq h n) v \<longleftrightarrow> alive Ctx h v \<and> 0 < n"
| "v_legal (VAPI_create_qp h a) v \<longleftrightarrow> alive Ctx h v \<and> alive Pd (qi_pd_hndl a) v \<and> alive Cq (sq_cq_hndl a) v \<and> alive Cq (rq_cq_hndl a) v"
| "v_legal (VAPI_modify_qp h q a ms) v \<longleftrightarrow> alive Ctx h v \<and> alive Qp q v \<and>
     (case required (tstate (vst v (the q))) (tstate (vq_state a)) of None \<Rightarrow> False | Some need \<Rightarrow> need \<subseteq> tmask ` set ms)"
| "v_legal (EVAPI_set_comp_eventh h c) v \<longleftrightarrow> alive Ctx h v \<and> alive Cq c v"
| "v_legal (VAPI_req_comp_notif h c) v \<longleftrightarrow> alive Ctx h v \<and> alive Cq c v"
| "v_legal (EVAPI_clear_comp_eventh h c) v \<longleftrightarrow> c \<noteq> None \<and> the c \<in> vceh v"
| "v_legal (VAPI_destroy_qp h q) v \<longleftrightarrow> alive Ctx h v \<and> alive Qp q v"
| "v_legal (VAPI_destroy_cq h c) v \<longleftrightarrow> alive Ctx h v \<and> alive Cq c v \<and> vlive v \<inter> range Qp = {}"
| "v_legal (VAPI_deregister_mr h m) v \<longleftrightarrow> alive Ctx h v \<and> alive Mr m v"
| "v_legal (VAPI_dealloc_pd h d) v \<longleftrightarrow> alive Ctx h v \<and> alive Pd d v \<and> vlive v \<inter> (range Qp \<union> range Mr) = {}"
| "v_legal (EVAPI_release_hca_hndl h) v \<longleftrightarrow> alive Ctx h v \<and> vlive v \<subseteq> range Ctx"
| "v_legal _ v \<longleftrightarrow> True"

text \<open>
  Replies: a new object is not one that is alive, a legal destruction succeeds, and the handle of
  an adapter that is open can be had; nothing else is assumed.
\<close>

fun v_adm :: "vapi_call \<Rightarrow> vlib \<Rightarrow> os_reply \<Rightarrow> bool" where
  "v_adm (EVAPI_get_hca_hndl s) v r \<longleftrightarrow> (vopen v \<longrightarrow> oval r = 0) \<and> (oval r = 0 \<longrightarrow> Ctx (onum r 0) \<notin> vlive v)"
| "v_adm (VAPI_alloc_pd h) v r \<longleftrightarrow> (oval r = 0 \<longrightarrow> Pd (onum r 0) \<notin> vlive v)"
| "v_adm (VAPI_create_cq h n) v r \<longleftrightarrow> (oval r = 0 \<longrightarrow> Cq (onum r 0) \<notin> vlive v)"
| "v_adm (VAPI_create_qp h a) v r \<longleftrightarrow> (oval r = 0 \<longrightarrow> Qp (onum r 0) \<notin> vlive v)"
| "v_adm (VAPI_destroy_qp h q) v r \<longleftrightarrow> oval r = 0"
| "v_adm (VAPI_destroy_cq h c) v r \<longleftrightarrow> oval r = 0"
| "v_adm (VAPI_deregister_mr h m) v r \<longleftrightarrow> oval r = 0"
| "v_adm (VAPI_dealloc_pd h d) v r \<longleftrightarrow> oval r = 0"
| "v_adm (EVAPI_release_hca_hndl h) v r \<longleftrightarrow> oval r = 0"
| "v_adm _ v r \<longleftrightarrow> True"

definition vborn :: "(nat \<Rightarrow> vres) \<Rightarrow> os_reply \<Rightarrow> vlib \<Rightarrow> vlib" where
  "vborn c r v = (if oval r = 0 then v\<lparr>vlive := insert (c (onum r 0)) (vlive v)\<rparr> else v)"

definition vgone :: "(nat \<Rightarrow> vres) \<Rightarrow> hndl \<Rightarrow> vlib \<Rightarrow> vlib" where
  "vgone c h v = v\<lparr>vlive := vlive v - {c (the h)}\<rparr>"

fun v_upd :: "vapi_call \<Rightarrow> os_reply \<Rightarrow> vlib \<Rightarrow> vlib" where
  "v_upd (VAPI_open_hca s) r v = (if oval r = 0 then v\<lparr>vopen := True\<rparr> else v)"
| "v_upd (EVAPI_get_hca_hndl s) r v = vborn Ctx r v"
| "v_upd (VAPI_alloc_pd h) r v = vborn Pd r v"
| "v_upd (VAPI_create_cq h n) r v = vborn Cq r v"
| "v_upd (VAPI_create_qp h a) r v =
     (if oval r = 0 then (vborn Qp r v)\<lparr>vst := (vst v)(onum r 0 := VAPI_RESET)\<rparr> else v)"
| "v_upd (VAPI_modify_qp h q a ms) r v = (if oval r = 0 then v\<lparr>vst := (vst v)(the q := vq_state a)\<rparr> else v)"
| "v_upd (EVAPI_set_comp_eventh h c) r v = (if oval r = 0 then v\<lparr>vceh := insert (onum r 0) (vceh v)\<rparr> else v)"
| "v_upd (EVAPI_clear_comp_eventh h c) r v = v\<lparr>vceh := vceh v - {the c}\<rparr>"
| "v_upd (VAPI_destroy_qp h q) r v = vgone Qp q v"
| "v_upd (VAPI_destroy_cq h c) r v = vgone Cq c v"
| "v_upd (VAPI_deregister_mr h m) r v = vgone Mr m v"
| "v_upd (VAPI_dealloc_pd h d) r v = vgone Pd d v"
| "v_upd (EVAPI_release_hca_hndl h) r v = vgone Ctx h v"
| "v_upd _ r v = v"

definition vapi_dev :: "(vapi_call os_ev, os_reply, vlib) device" where
  "vapi_dev = \<lparr>
     d_legal = (\<lambda>e v. case e of Lib c \<Rightarrow> v_legal c v | _ \<Rightarrow> True),
     d_adm = (\<lambda>e v r. case e of Lib c \<Rightarrow> v_adm c v r | _ \<Rightarrow> True),
     d_upd = (\<lambda>e r v. case e of Lib c \<Rightarrow> v_upd c r v | _ \<Rightarrow> v)\<rparr>"

lemma vapi_dev_simps [simp]:
  "d_legal vapi_dev e v = (case e of Lib c \<Rightarrow> v_legal c v | _ \<Rightarrow> True)"
  "d_adm vapi_dev e v r = (case e of Lib c \<Rightarrow> v_adm c v r | _ \<Rightarrow> True)"
  "d_upd vapi_dev e r v = (case e of Lib c \<Rightarrow> v_upd c r v | _ \<Rightarrow> v)"
  by (simp_all add: vapi_dev_def)

lemma wp_on_sockets: "wp sk_dev (\<lambda>e _. E e v) (\<lambda>x _. Q x v) p () \<Longrightarrow> wp vapi_dev E Q (on_sockets p) v"
  by (induction p) (auto simp del: split_paired_All)

section \<open>Handles and objects\<close>

definition v_objs :: "vapi_glob \<Rightarrow> vres set" where
  "v_objs g = Ctx ` set_option (hca_hndl g) \<union> Pd ` set_option (v_pd_hndl g) \<union> Cq ` set_option (v_s_cq_hndl g) \<union>
     Cq ` set_option (v_r_cq_hndl g) \<union> Qp ` set_option (v_qp_hndl g)"

text \<open>
  The live objects are those the handles show, without regions; nothing is alive without a handle
  for the adapter.
\<close>

definition v_inv :: "vapi_glob \<Rightarrow> vlib \<Rightarrow> bool" where
  "v_inv g v \<longleftrightarrow> vlive v = v_objs g \<and> v_s_mr_hndl g = None \<and> v_r_mr_hndl g = None \<and>
     (v_objs g \<noteq> {} \<longrightarrow> hca_hndl g \<noteq> None) \<and> (v_s_cq_hndl g \<noteq> None \<longrightarrow> v_s_cq_hndl g \<noteq> v_r_cq_hndl g)"

definition v_complete :: "vapi_qp_state \<Rightarrow> vapi_glob \<Rightarrow> vlib \<Rightarrow> bool" where
  "v_complete st g v \<longleftrightarrow> v_inv g v \<and> hca_hndl g \<noteq> None \<and> v_pd_hndl g \<noteq> None \<and> v_s_cq_hndl g \<noteq> None \<and> v_r_cq_hndl g \<noteq> None \<and>
     v_qp_hndl g \<noteq> None \<and> vst v (the (v_qp_hndl g)) = st"

definition v_fresh :: "vapi_glob \<Rightarrow> bool" where
  "v_fresh g \<longleftrightarrow> hca_hndl g = None \<and> v_pd_hndl g = None \<and> v_s_cq_hndl g = None \<and> v_r_cq_hndl g = None \<and> v_qp_hndl g = None \<and>
     ceh_hndl g = None \<and> v_s_mr_hndl g = None \<and> v_r_mr_hndl g = None"

lemma wp_vapi_objects:
  assumes "v_fresh (glob w)" and "vlive v = {}"
  shows "wp vapi_dev E (\<lambda>(c, w') v'. self w' = self w \<and> ceh_hndl (glob w') = None \<and> vceh v' = vceh v \<and>
     (c = - 1 \<and> v_inv (glob w') v' \<or> c = 0 \<and> v_complete VAPI_RESET (glob w') v')) (vapi_objects w) v"
  using assms
  by (simp add: vapi_objects_def Let_def v_fresh_def vborn_def)
    (auto simp: v_inv_def v_complete_def v_objs_def)

section \<open>Tearing down\<close>

text \<open>Without event completion; each destruction removes what its handle shows, the adapter comes last.\<close>

lemma wp_vapi_finalizeIB:
  assumes "v_inv (glob w) v" and "comptype (prot (p_of w)) \<noteq> NP_COMP_EVENT"
  shows "wp vapi_dev E (\<lambda>w' v'. vlive v' = {}) (vapi_finalizeIB w) v"
  using assms
  by (cases "hca_hndl (glob w)"; cases "v_pd_hndl (glob w)"; cases "v_s_cq_hndl (glob w)"; cases "v_r_cq_hndl (glob w)"; cases "v_qp_hndl (glob w)")
    (auto simp: vapi_finalizeIB_def Let_def vapi_destroy_def v_inv_def v_objs_def vgone_def)

lemma wp_vapi_CleanUp:
  assumes "v_inv (glob w) v" and "comptype (prot (p_of w)) \<noteq> NP_COMP_EVENT"
  shows "wp vapi_dev E (\<lambda>w' v'. vlive v' = {}) (vapi_CleanUp w) v"
  unfolding vapi_CleanUp_def
  by (rule wp_then [OF wp_on_sockets [where Q = "\<lambda>w' v'. w' = w \<and> v' = v"]]) (use wp_vapi_finalizeIB [OF assms] in simp_all)

section \<open>Setting up\<close>

lemma wp_vapi_exchange:
  assumes "v_complete st (glob w) v"
  shows "wp sk_dev (\<lambda>e _. False) (\<lambda>(c, w') _. self w' = self w \<and> v_complete st (glob w') v \<and> ceh_hndl (glob w') = ceh_hndl (glob w) \<and>
    (c = - 1 \<or> c = 0)) (vapi_exchange w) ()"
  using assms by (simp add: vapi_exchange_def Let_def v_complete_def v_inv_def v_objs_def)

text \<open>The peer that the queue pair was connected to is the one whose identifiers were read.\<close>

definition v_connected :: "vapi_glob \<Rightarrow> vlib \<Rightarrow> bool" where
  "v_connected g v \<longleftrightarrow> v_complete VAPI_RTS g v \<and> vq_dest_qp_num (v_qp_attr g) = v_d_qp_num g \<and> av_dlid (v_qp_attr g) = v_d_lid g"

lemma wp_vapi_bring_up:
  assumes "v_complete VAPI_RESET (glob w) v" and "comptype (prot (p_of w)) \<noteq> NP_COMP_EVENT"
  shows "wp vapi_dev (\<lambda>e v'. e = Exit 3) (\<lambda>(c, w') v'. self w' = self w \<and> v_inv (glob w') v' \<and>
     (c = - 1 \<or> c = 0 \<and> v_connected (glob w') v')) (vapi_bring_up stk w) v"
proof -
  have sy: "wp vapi_dev (\<lambda>e v'. e = Exit 3) Q (vapi_Sync stk w') v'" if "Q w' v'" for Q w' v'
    unfolding vapi_Sync_def by (rule wp_on_sockets, rule wp_mono [OF wp_Sync]) (use that in simp_all)
  show ?thesis
    using assms unfolding vapi_bring_up_def Let_def
    by (auto simp: v_complete_def v_connected_def v_inv_def v_objs_def intro!: sy)
qed

lemma wp_vapi_initIB:
  assumes "v_fresh (glob w)" and "vlive v = {}" and "comptype (prot (p_of w)) \<noteq> NP_COMP_EVENT"
  shows "wp vapi_dev (\<lambda>e v'. e = Exit 3) (\<lambda>(c, w') v'. self w' = self w \<and> v_inv (glob w') v' \<and>
     (c = - 1 \<or> c = 0 \<and> v_connected (glob w') v')) (vapi_initIB stk w) v"
proof -
  let ?E = "\<lambda>e (v' :: vlib). e = Exit 3"
  let ?Q = "\<lambda>(c :: int, w' :: vapi_world) v'. self w' = self w \<and> v_inv (glob w') v' \<and> (c = - 1 \<or> c = 0 \<and> v_connected (glob w') v')"
  have up: "wp vapi_dev ?E ?Q (vapi_bring_up stk w1) v1" if "v_complete VAPI_RESET (glob w1) v1" "self w1 = self w" for w1 v1
    by (rule wp_mono [OF wp_vapi_bring_up [OF that(1)]]) (use that assms(3) in auto)
  have ex: "wp vapi_dev ?E (\<lambda>(c, w2) v2. v2 = v1 \<and> self w2 = self w \<and> v_complete VAPI_RESET (glob w2) v1 \<and> (c = - 1 \<or> c = 0))
      (on_sockets (vapi_exchange w1)) v1" if "v_complete VAPI_RESET (glob w1) v1" "self w1 = self w" for w1 v1
    by (rule wp_on_sockets, rule wp_mono [OF wp_vapi_exchange [OF that(1)]]) (use that in auto)
  have inv: "v_complete st g v1 \<Longrightarrow> v_inv g v1" for st g v1 by (simp add: v_complete_def)
  show ?thesis
    unfolding vapi_initIB_def
    by (rule wp_then [OF wp_vapi_objects [OF assms(1,2)]])
      (auto simp del: wp_andThen simp: inv [of VAPI_RESET] intro!: wp_then [OF ex] up)
qed

lemma wp_vapi_setup_addr:
  "wp sk_dev (\<lambda>e _. True) (\<lambda>w' _. glob w' = glob w \<and> comptype (prot (p_of w')) = comptype (prot (p_of w))) (vapi_setup_addr fd w) ()"
  by (simp add: vapi_setup_addr_def upd_prot_def Let_def)

lemma wp_vapi_establish:
  "wp sk_dev (\<lambda>e _. True) (\<lambda>w' _. glob w' = glob w \<and> comptype (prot (p_of w')) = comptype (prot (p_of w))) (ibv_establish w) ()"
  by (simp add: ibv_establish_def upd_prot_def Let_def)

lemma wp_vapi_Setup:
  assumes fresh: "v_fresh (glob w)" and live: "vlive v = {}" and mode: "comptype (prot (p_of w)) \<noteq> NP_COMP_EVENT"
  shows "wp vapi_dev (\<lambda>e v. e \<noteq> Exit 3 \<longrightarrow> vlive v = {}) (\<lambda>w' v. v_connected (glob w') v) (vapi_Setup stk w) v"
proof -
  let ?E = "\<lambda>e v. e \<noteq> Exit 3 \<longrightarrow> vlive v = {}" and ?Q = "\<lambda>w' v. v_connected (glob w') v"
  define K where "K = (\<lambda>(w' :: vapi_world) v'. v' = v \<and> glob w' = glob w \<and> comptype (prot (p_of w')) \<noteq> NP_COMP_EVENT)"
  have cl: "wp vapi_dev ?E ?Q (andThen (vapi_CleanUp w') (\<lambda>_. Abort (Exit (- 1)))) u"
    if "v_inv (glob w') u" "comptype (prot (p_of w')) \<noteq> NP_COMP_EVENT" for w' u
    by (rule wp_then [OF wp_vapi_CleanUp [OF that]]) simp
  have ini: "wp vapi_dev ?E ?Q (andThen (vapi_initIB stk w') (\<lambda>(c, w). if c = - 1 then andThen (vapi_CleanUp w) (\<lambda>_. Abort (Exit (- 1))) else Ret w)) v'"
    if "K w' v'" for w' v'
  proof (rule wp_then [OF wp_mono [OF wp_vapi_initIB [of w' v' stk]]])
    show "v_fresh (glob w')" "vlive v' = {}" "comptype (prot (p_of w')) \<noteq> NP_COMP_EVENT" using that fresh live by (simp_all add: K_def)
  qed (use that in \<open>auto simp del: wp_andThen simp: K_def intro!: cl\<close>)
  have est: "wp vapi_dev ?E K (vapi_establish w') v'" if "K w' v'" for w' v'
    unfolding vapi_establish_def by (rule wp_on_sockets, rule wp_mono [OF wp_vapi_establish]) (use that live in \<open>auto simp: K_def\<close>)
  have adr: "wp vapi_dev ?E K (on_sockets (vapi_setup_addr fd w')) v'" if "K w' v'" for fd w' v'
    by (rule wp_on_sockets, rule wp_mono [OF wp_vapi_setup_addr]) (use that live in \<open>auto simp: K_def\<close>)
  have K0: "K (upd_prot (\<lambda>q. q\<lparr>sin1 := zero_sin, sin2 := zero_sin\<rparr>) w) v" using mode by (simp add: K_def upd_prot_def)
  show ?thesis
    unfolding vapi_Setup_def Let_def using live
    by (auto simp del: wp_andThen intro!: wp_then [OF adr [OF K0]] wp_then [OF est] ini)
qed


section \<open>A receiver without an adapter\<close>

definition vapi_start :: vapi_world where
  "vapi_start = vapi_Init \<lparr>self = new_Netpipe \<lparr>sin1 = zero_sin, sin2 = zero_sin, sndbufsz = 0, rcvbufsz = 0, ib_mtu = 0, commtype = 0,
       comptype = 0\<rparr> None,
     heap = \<lparr>hbytes = (\<lambda>_. 0), hblocks = []\<rparr>, lfsr_data = 0, fcflag = 0,
     glob = \<lparr>hca_hndl = None, v_port_num = 0, v_lid = 0, v_d_lid = 0, v_pd_hndl = None, v_s_cq_hndl = None, v_r_cq_hndl = None,
       ceh_hndl = None, s_mr_out = (0, 0), r_mr_out = (0, 0), v_s_mr_hndl = None, v_r_mr_hndl = None,
       v_qp_init_attr = \<lparr>max_oust_wr_rq = 0, max_oust_wr_sq = 0, max_sg_size_rq = 0, max_sg_size_sq = 0, qi_pd_hndl = None,
         rdd_hndl = 0, rq_cq_hndl = None, sq_cq_hndl = None\<rparr>,
       qp_prop = 0, v_qp_hndl = None, v_d_qp_num = 0,
       v_qp_attr = \<lparr>vq_state = VAPI_RESET, pkey_ix = 0, vq_port = 0, remote_atomic_flags = [], qp_ous_rd_atom = 0, vq_dest_qp_num = 0,
         av_sl = 0, av_grh_flag = False, av_dlid = 0, av_static_rate = 0, av_src_path_bits = 0, vq_path_mtu = 0, vq_rq_psn = 0,
         vq_min_rnr_timer = 0, vq_sq_psn = 0, vq_timeout = 0, retry_count = 0, vq_rnr_retry = 0, ous_dst_rd_atom = 0\<rparr>,
       v_wc_status = 0, v_max_wq = 50000, v_remote_address = 0, v_remote_key = 0\<rparr>, out = []\<rparr>"

definition no_vapi :: vlib where
  "no_vapi = \<lparr>vlive = {}, vst = (\<lambda>_. VAPI_RESET), vceh = {}, vopen = False\<rparr>"

lemma vapi_start_fresh: "v_fresh (glob vapi_start)" "vlive no_vapi = {}" "vceh no_vapi = {}" "\<not> vopen no_vapi"
  by (simp_all add: v_fresh_def vapi_start_def vapi_Init_def no_vapi_def)


end
