(* ===== verification/Vapi_Run.thy ===== *)
theory Vapi_Run
  imports Vapi_Setup
begin

text \<open>
  The driver over \<open>ib.c\<close> and over \<open>ibv.c\<close>: a whole call of \<open>run_iters\<close> is the same under the translation of the libraries.
\<close>

section \<open>What the functions of the module keep\<close>

definition keeps :: "vapi_world \<Rightarrow> bool" where
  "keeps w \<longleftrightarrow> proper (glob w) \<and> ibv_mode (prot (p_of w))"

definition has_mrs :: "vapi_world \<Rightarrow> bool" where
  "has_mrs w \<longleftrightarrow> keeps w \<and> v_s_mr_hndl (glob w) \<noteq> None \<and> v_r_mr_hndl (glob w) \<noteq> None"

lemma translate_returns:
  assumes "returns P p" and "translate g p = p'" and "\<And>x. P x \<Longrightarrow> translate f (q x) = q' (g x)"
  shows "translate f (andThen p q) = andThen p' q'"
  unfolding assms(2) [symmetric] using assms(1)
  by (induction rule: returns.induct) (auto simp: assms(3) split: os_ev.splits option.splits)

lemma returns_True: "returns (\<lambda>_. True) p"
  by (induction p) (auto intro: returns.intros)

lemma returns_sockets: "returns P p \<Longrightarrow> returns P (on_sockets p)"
  by (induction rule: returns.induct) (auto intro: returns.intros)

lemmas ret = returns.ret returns.abort returns.call returns.clock

lemma returns_if [intro!]: "(b \<Longrightarrow> returns P p) \<Longrightarrow> (\<not> b \<Longrightarrow> returns P q) \<Longrightarrow> returns P (if b then p else q)"
  by simp

lemma has_mrs_simps [simp]:
  "has_mrs (upd_v (\<lambda>g. g\<lparr>v_wc_status := x\<rparr>) w) = has_mrs w" "has_mrs (printf s as w) = has_mrs w" "has_mrs (w\<lparr>lfsr_data := d, out := ms\<rparr>) = has_mrs w"
  "has_mrs (upd_v (\<lambda>g. g\<lparr>v_remote_address := a\<rparr>) w) = has_mrs w" "has_mrs (upd_v (\<lambda>g. g\<lparr>v_remote_key := k\<rparr>) w) = has_mrs w"
  "keeps (printf s as w) = keeps w" "keeps (upd_v (\<lambda>g. g\<lparr>v_s_mr_hndl := m\<rparr>) w) = keeps w" "keeps (upd_v (\<lambda>g. g\<lparr>v_r_mr_hndl := m\<rparr>) w) = keeps w"
  by (simp_all add: has_mrs_def keeps_def proper_def printf_def)

lemma Sync_returns: "P w \<Longrightarrow> returns P (vapi_Sync stk w)"
  unfolding vapi_Sync_def ibv_Sync_def
  by (rule returns_sockets) (auto intro!: ret returns_andThen [OF returns_True])

lemma SendRepeat_returns: "P w \<Longrightarrow> returns P (vapi_SendRepeat n w)"
  unfolding vapi_SendRepeat_def ibv_SendRepeat_def by (rule returns_sockets) (auto intro!: ret)

lemma RecvRepeat_returns: "P w \<Longrightarrow> returns (\<lambda>(n, w). P w) (vapi_RecvRepeat w)"
  unfolding vapi_RecvRepeat_def ibv_RecvRepeat_def
  by (rule returns_sockets) (auto intro!: ret returns_andThen [OF returns_True])

lemma AfterAlignmentInit_returns: "has_mrs w \<Longrightarrow> returns has_mrs (vapi_AfterAlignmentInit w)"
  unfolding vapi_AfterAlignmentInit_def vapi_exchange_keys_def Let_def
  by (auto intro!: ret returns_sockets returns_andThen [OF returns_True])

lemma poll_returns: "has_mrs w \<Longrightarrow> returns (\<lambda>(r, w). has_mrs w) (vapi_poll n cq w)"
  by (induction n arbitrary: w) (auto intro!: ret simp: Let_def)

lemma completion_returns: "has_mrs w \<Longrightarrow> returns has_mrs (vapi_completion n cq w)"
  unfolding vapi_completion_def by (rule returns_andThen [OF poll_returns]) (auto intro!: ret)

lemma RecvData_returns: "has_mrs w \<Longrightarrow> returns has_mrs (vapi_RecvData n w)"
  unfolding vapi_RecvData_def Let_def by (auto intro!: ret completion_returns)

lemma SendData_returns: "has_mrs w \<Longrightarrow> returns has_mrs (vapi_SendData w)"
  unfolding vapi_SendData_def by (auto intro!: ret returns_andThen [OF returns_True])

lemma PrepareToReceive_returns: "has_mrs w \<Longrightarrow> returns has_mrs (vapi_PrepareToReceive w)"
  unfolding vapi_PrepareToReceive_def Let_def by (auto intro!: ret returns_andThen [OF returns_True])

lemma on_shared_returns: "has_mrs w \<Longrightarrow> returns has_mrs (on_shared f w)"
  unfolding on_shared_def by (auto intro!: ret split: option.splits)

lemma reg_buffers_returns: "keeps w \<Longrightarrow> returns has_mrs (vapi_reg_buffers len soff roff w)"
  unfolding vapi_reg_buffers_def Let_def by (auto intro!: ret simp: has_mrs_def keeps_def proper_def)

lemma MyMalloc_returns: "keeps w \<Longrightarrow> returns has_mrs (vapi_MyMalloc alloc len soff roff w)"
  unfolding vapi_MyMalloc_def Let_def
  by (auto intro!: ret returns_andThen [OF returns_True] reg_buffers_returns simp: keeps_def)

section \<open>The buffer routines\<close>

text \<open>The routines of \<open>netpipe.c\<close> do not depend on the module's variables.\<close>

lemma tworld_heap [simp]: "tworld (w\<lparr>heap := h\<rparr>) = (tworld w)\<lparr>heap := h\<rparr>" "tworld (w\<lparr>lfsr_data := d\<rparr>) = (tworld w)\<lparr>lfsr_data := d\<rparr>"
  "tworld (w\<lparr>out := ms\<rparr>) = (tworld w)\<lparr>out := ms\<rparr>"
  by (simp_all add: tworld_def)

lemma lfsrset_tworld: "lfsrset L s c n (tworld w) = map_sum id tworld (lfsrset L s c n w)"
  by (simp add: lfsrset_def Let_def res_bind_def split: sum.splits)

lemma lfsrcheck_tworld: "lfsrcheck L s c n (tworld w) = map_sum id tworld (lfsrcheck L s c n w)"
  by (simp add: lfsrcheck_def Let_def res_bind_def split: sum.splits)

lemma InitBufferData_tworld: "InitBufferData L n so ro (tworld w) = map_sum id tworld (InitBufferData L n so ro w)"
  by (auto simp: InitBufferData_def lfsrset_tworld res_bind_def put_bytes_def upd_heap_def split: sum.splits)

lemma CheckBufferData_tworld: "CheckBufferData L n so ro (tworld w) = map_sum id tworld (CheckBufferData L n so ro w)"
  by (simp add: CheckBufferData_def lfsrcheck_tworld)

lemma on_shared_port:
  assumes "\<And>w. f' (tworld w) = map_sum id tworld (f w)"
  shows "translate tworld (on_shared f w) = on_shared f' (tworld w)"
proof -
  have "(case f' (tworld w\<lparr>heap := h\<rparr>) of Inl e \<Rightarrow> (os_ok\<lparr>oerr := Some e\<rparr>, h)
           | Inr w' \<Rightarrow> (os_ok\<lparr>olfsr := lfsr_data w', oout := out w'\<rparr>, heap w')) =
        (case f (w\<lparr>heap := h\<rparr>) of Inl e \<Rightarrow> (os_ok\<lparr>oerr := Some e\<rparr>, h)
           | Inr w' \<Rightarrow> (os_ok\<lparr>olfsr := lfsr_data w', oout := out w'\<rparr>, heap w'))" for h
    using assms [of "w\<lparr>heap := h\<rparr>"] by (simp split: sum.splits)
  then show ?thesis by (simp add: on_shared_def fun_eq_iff split: option.splits)
qed

section \<open>A whole run\<close>

abbreviation tres :: "'a \<times> vapi_world \<Rightarrow> 'a \<times> ibv_world" where
  "tres \<equiv> map_prod id tworld"

text \<open>A program of the one library with its port, both returning related states.\<close>

definition ported :: "('a \<Rightarrow> bool) \<Rightarrow> ('a \<Rightarrow> 'b) \<Rightarrow> 'a vapi_prog \<Rightarrow> 'b ib_prog \<Rightarrow> bool" where
  "ported P g p p' \<longleftrightarrow> returns P p \<and> translate g p = p'"

lemma ported_ret: "P x \<Longrightarrow> y = g x \<Longrightarrow> ported P g (Ret x) (Ret y)"
  by (simp add: ported_def returns.ret)

lemma ported_then:
  assumes "ported P g p p'" and "\<And>x. P x \<Longrightarrow> ported Q f (q x) (q' (g x))"
  shows "ported Q f (andThen p q) (andThen p' q')"
  using assms unfolding ported_def by (metis returns_andThen translate_returns)

lemma ported_if: "(b \<Longrightarrow> ported P g p p') \<Longrightarrow> (\<not> b \<Longrightarrow> ported P g q q') \<Longrightarrow> ported P g (if b then p else q) (if b then p' else q')"
  by simp

lemma ported_When: "ported (\<lambda>_. True) (\<lambda>t. t) (When fl) (When fl)"
  by (simp add: ported_def returns_True When_def fun_eq_iff)

text \<open>The functions of the module, in states with a working memory registration.\<close>

lemma SendRepeat_ported: "P w \<Longrightarrow> ported P tworld (vapi_SendRepeat n w) (via (ibv_SendRepeat n (tworld w)))"
  by (simp add: ported_def SendRepeat_returns) (simp add: vapi_SendRepeat_def translate_sockets ibv_SendRepeat_def via_andThen map_if cong: if_cong)

lemma RecvRepeat_ported: "P w \<Longrightarrow> ported (\<lambda>(n, w). P w) tres (vapi_RecvRepeat w) (via (ibv_RecvRepeat (tworld w)))"
  by (simp add: ported_def RecvRepeat_returns)
    (simp add: vapi_RecvRepeat_def translate_sockets ibv_RecvRepeat_def via_andThen case_prod_unfold map_if cong: if_cong)

lemma module_ported:
  assumes "has_mrs w"
  shows "ported has_mrs tworld (vapi_SendData w) (ibv_SendData (tworld w))"
    and "ported has_mrs tworld (vapi_RecvData fuel w) (ibv_RecvData fuel (tworld w))"
    and "ported has_mrs tworld (vapi_AfterAlignmentInit w) (via (ibv_AfterAlignmentInit (tworld w)))"
    and "ported has_mrs tworld (vapi_PrepareToReceive w) (ibv_PrepareToReceive (tworld w))"
    and "ported has_mrs tworld (vapi_Sync stk w) (via (ibv_Sync stk (tworld w)))"
    and "ported has_mrs tworld (on_shared (InitBufferData L n so ro) w) (on_shared (InitBufferData L n so ro) (tworld w))"
    and "ported has_mrs tworld (on_shared (CheckBufferData L n so ro) w) (on_shared (CheckBufferData L n so ro) (tworld w))"
  using assms unfolding ported_def
  by (auto simp: SendData_returns RecvData_returns AfterAlignmentInit_returns PrepareToReceive_returns Sync_returns on_shared_returns
      has_mrs_def keeps_def SendData_port RecvData_port AfterAlignmentInit_port PrepareToReceive_port Sync_port
      on_shared_port InitBufferData_tworld CheckBufferData_tworld)

lemma MyMalloc_ported: "keeps w \<Longrightarrow> ported has_mrs tworld (vapi_MyMalloc alloc len so ro w) (ibv_MyMalloc alloc len so ro (tworld w))"
  by (simp add: ported_def MyMalloc_returns MyMalloc_port)

lemma FreeBuff_ported: "ported (\<lambda>_. True) tworld (vapi_FreeBuff b1 b2 w) (ibv_FreeBuff b1 b2 (tworld w))"
  by (simp add: ported_def returns_True FreeBuff_port)

text \<open>The parts of the driver.\<close>

lemma module_sel:
  "mSendRepeat (vapi_module alloc L fuel stk) = vapi_SendRepeat" "mSendRepeat (ibv_module alloc L fuel stk) = (\<lambda>n w. via (ibv_SendRepeat n w))"
  "mRecvRepeat (vapi_module alloc L fuel stk) = vapi_RecvRepeat" "mRecvRepeat (ibv_module alloc L fuel stk) = (\<lambda>w. via (ibv_RecvRepeat w))"
  "mMyMalloc (vapi_module alloc L fuel stk) = vapi_MyMalloc alloc" "mMyMalloc (ibv_module alloc L fuel stk) = ibv_MyMalloc alloc"
  "mInitBufferData (vapi_module alloc L fuel stk) = (\<lambda>n so ro. on_shared (InitBufferData L n so ro))"
  "mInitBufferData (ibv_module alloc L fuel stk) = (\<lambda>n so ro. on_shared (InitBufferData L n so ro))"
  "mAfterAlignmentInit (vapi_module alloc L fuel stk) = vapi_AfterAlignmentInit"
  "mAfterAlignmentInit (ibv_module alloc L fuel stk) = (\<lambda>w. via (ibv_AfterAlignmentInit w))"
  "mPrepareToReceive (vapi_module alloc L fuel stk) = vapi_PrepareToReceive" "mPrepareToReceive (ibv_module alloc L fuel stk) = ibv_PrepareToReceive"
  "mSync (vapi_module alloc L fuel stk) = vapi_Sync stk" "mSync (ibv_module alloc L fuel stk) = (\<lambda>w. via (ibv_Sync stk w))"
  "mSendData (vapi_module alloc L fuel stk) = vapi_SendData" "mSendData (ibv_module alloc L fuel stk) = ibv_SendData"
  "mRecvData (vapi_module alloc L fuel stk) = vapi_RecvData fuel" "mRecvData (ibv_module alloc L fuel stk) = ibv_RecvData fuel"
  "mCheckBufferData (vapi_module alloc L fuel stk) = (\<lambda>n so ro. on_shared (CheckBufferData L n so ro))"
  "mCheckBufferData (ibv_module alloc L fuel stk) = (\<lambda>n so ro. on_shared (CheckBufferData L n so ro))"
  "mFreeBuff (vapi_module alloc L fuel stk) = vapi_FreeBuff" "mFreeBuff (ibv_module alloc L fuel stk) = ibv_FreeBuff"
  by (simp_all add: vapi_module_def ibv_module_def)

lemma set_ptrs_tworld: "tworld (set_ptrs w) = set_ptrs (tworld w)" "has_mrs (set_ptrs w) = has_mrs w"
  by (simp_all add: set_ptrs_def has_mrs_def keeps_def Let_def)

lemma iter_loop_ported:
  "has_mrs w \<Longrightarrow> ported has_mrs tworld (iter_loop (vapi_module alloc L fuel stk) n w) (iter_loop (ibv_module alloc L fuel stk) n (tworld w))"
proof (induction n arbitrary: w)
  case 0
  then show ?case by (simp add: ported_ret)
next
  case (Suc n)
  have "ported has_mrs tworld (if tr (p_of w) \<noteq> 0 then andThen (vapi_SendData w) (vapi_RecvData fuel) else andThen (vapi_RecvData fuel w) vapi_SendData)
     (if tr (p_of w) \<noteq> 0 then andThen (ibv_SendData (tworld w)) (ibv_RecvData fuel) else andThen (ibv_RecvData fuel (tworld w)) ibv_SendData)"
    using Suc.prems by (intro ported_if ported_then [OF module_ported(1)] ported_then [OF module_ported(2)] module_ported(1,2))
  from ported_then [OF this, where q = "iter_loop (vapi_module alloc L fuel stk) n" and q' = "iter_loop (ibv_module alloc L fuel stk) n",
      OF Suc.IH] show ?case
    unfolding iter_loop.simps module_sel tworld_simps .
qed

lemma timed_part_ported:
  assumes "has_mrs w"
  shows "ported (\<lambda>_. True) tres (timed_part (vapi_module alloc L fuel stk) fl sz n w) (timed_part (ibv_module alloc L fuel stk) fl sz n (tworld w))"
proof -
  have free: "ported (\<lambda>_. True) tres
      (andThen (if cache (p_of w) \<noteq> 0 then vapi_FreeBuff (s_buff_orig (p_of w)) NULL w
                else vapi_FreeBuff (s_buff_orig (p_of w)) (r_buff_orig (p_of w)) w) (\<lambda>w. Ret (x, w)))
      (andThen (if cache (p_of w) \<noteq> 0 then ibv_FreeBuff (s_buff_orig (p_of w)) NULL (tworld w)
                else ibv_FreeBuff (s_buff_orig (p_of w)) (r_buff_orig (p_of w)) (tworld w)) (\<lambda>w. Ret (x, w)))"
    for w :: vapi_world and x :: pyres
    by (rule ported_then [where P = "\<lambda>_. True" and g = tworld]) (auto intro: ported_if FreeBuff_ported ported_ret)
  have check: "ported (\<lambda>_. True) tres
      (andThen (on_shared (CheckBufferData L (bufflen (p_of w)) 0 0) w) (\<lambda>w.
       andThen (if cache (p_of w) \<noteq> 0 then vapi_FreeBuff (s_buff_orig (p_of w)) NULL w
                else vapi_FreeBuff (s_buff_orig (p_of w)) (r_buff_orig (p_of w)) w) (\<lambda>w. Ret (x, w))))
      (andThen (on_shared (CheckBufferData L (bufflen (p_of w)) 0 0) (tworld w)) (\<lambda>w.
       andThen (if cache (p_of w) \<noteq> 0 then ibv_FreeBuff (s_buff_orig (p_of w)) NULL w
                else ibv_FreeBuff (s_buff_orig (p_of w)) (r_buff_orig (p_of w)) w) (\<lambda>w. Ret (x, w))))"
    if "has_mrs w" for w :: vapi_world and x :: pyres
    by (rule ported_then [OF module_ported(7) [OF that]]) (use free in \<open>simp only: tworld_simps\<close>)
  show ?thesis
    unfolding timed_part_def
    apply (rule ported_then [OF ported_When])
    apply (rule ported_then [where P = has_mrs and g = tworld, OF iter_loop_ported [OF assms]])
    apply (rule ported_then [OF ported_When])
    apply (simp only: module_sel Let_def tworld_simps check)
    done
qed

lemma run_sized_ported:
  assumes "keeps w"
  shows "ported (\<lambda>_. True) tres (run_sized (vapi_module alloc L fuel stk) fl sz n w) (run_sized (ibv_module alloc L fuel stk) fl sz n (tworld w))"
proof -
  have announce: "ported keeps tworld
      (if tr (p_of w) \<noteq> 0 then andThen (vapi_SendRepeat sz w) (vapi_SendRepeat n) else Ret w)
      (if tr (p_of w) \<noteq> 0 then andThen (via (ibv_SendRepeat sz (tworld w))) (\<lambda>w. via (ibv_SendRepeat n w)) else Ret (tworld w))"
    by (intro ported_if ported_ret ported_then [where P = keeps and g = tworld] SendRepeat_ported) (use assms in simp_all)
  have prepare: "ported has_mrs tworld (if asyncReceive (self w) \<noteq> 0 then vapi_PrepareToReceive w else Ret w)
      (if asyncReceive (self w) \<noteq> 0 then ibv_PrepareToReceive (tworld w) else Ret (tworld w))" if "has_mrs w" for w
    using that by (auto intro: module_ported ported_ret)
  show ?thesis
    unfolding run_sized_def module_sel tworld_simps Let_def
    apply (rule ported_then [where P = keeps and g = tworld, OF announce])
    apply (subst tworld_simps(6) [symmetric])
    apply (subst tworld_simps(6) [symmetric])
    apply (subst tworld_simps(1))
    apply (rule ported_then [where P = has_mrs and g = tworld, OF MyMalloc_ported])
    apply (simp add: keeps_def)
    unfolding set_ptrs_tworld(1) [symmetric] tworld_simps
    apply (rule ported_if)
    apply (simp add: ported_ret)
    apply (rule ported_then [where P = has_mrs and g = tworld, OF module_ported(6)], simp add: set_ptrs_tworld)
    apply (rule ported_then [where P = has_mrs and g = tworld, OF module_ported(3)], assumption)
    unfolding tworld_simps
    apply (rule ported_then [where P = has_mrs and g = tworld, OF prepare], assumption)
    apply (rule ported_then [where P = has_mrs and g = tworld, OF module_ported(5)], assumption)
    apply (rule timed_part_ported, assumption)
    done
qed

lemma run_iters_ported:
  assumes "keeps w"
  shows "ported (\<lambda>_. True) tres (netpipe_run_iters (vapi_module alloc L fuel stk) fl pyargs w)
     (netpipe_run_iters (ibv_module alloc L fuel stk) fl pyargs (tworld w))"
proof (cases pyargs)
  case None
  let ?R = "\<lambda>(sz, w). andThen (vapi_RecvRepeat w) (\<lambda>(nrepeat, w).
     if sz = 0 then Ret (PyBuildNone, w) else run_sized (vapi_module alloc L fuel stk) fl sz nrepeat w)"
  let ?R' = "\<lambda>(sz, w). andThen (via (ibv_RecvRepeat w)) (\<lambda>(nrepeat, w).
     if sz = 0 then Ret (PyBuildNone, w) else run_sized (ibv_module alloc L fuel stk) fl sz nrepeat w)"
  have sized: "ported (\<lambda>_. True) tres (?R x) (?R' (tres x))" if "case x of (sz, w) \<Rightarrow> keeps w" for x
  proof (cases x)
    case (Pair sz w1)
    show ?thesis
      unfolding Pair prod.case map_prod_simp id_apply
      by (rule ported_then [OF RecvRepeat_ported [where P = keeps]]) (use that Pair in \<open>auto simp: id_def intro!: ported_ret run_sized_ported [unfolded id_def]\<close>)
  qed
  have "ported (\<lambda>_. True) tres (andThen (vapi_RecvRepeat w) ?R) (andThen (via (ibv_RecvRepeat (tworld w))) ?R')"
    by (rule ported_then [OF RecvRepeat_ported [where P = keeps, OF assms]]) (rule sized)
  then show ?thesis unfolding None netpipe_run_iters_def module_sel by (simp add: ported_ret)
next
  case (Some a)
  then show ?thesis using run_sized_ported [OF assms] by (simp add: netpipe_run_iters_def split: prod.split)
qed


section \<open>A connected process\<close>

definition vapi_up :: vapi_world where
  "vapi_up = upd_args (\<lambda>p. p\<lparr>prot := (prot p)\<lparr>commtype := NP_COMM_RDMAWRITE\<rparr>\<rparr>)
     (upd_v (\<lambda>g. g\<lparr>hca_hndl := Some 1, v_pd_hndl := Some 2, v_s_cq_hndl := Some 3, v_r_cq_hndl := Some 4, v_qp_hndl := Some 5, qp_prop := 7,
        v_d_lid := 8, v_d_qp_num := 9\<rparr>) vapi_start)"

lemma vapi_up_simps: "proper (glob vapi_up)" "ibv_mode (prot (p_of vapi_up))"
  by (simp_all add: vapi_up_def vapi_start_def vapi_Init_def proper_def ibv_mode_def np_types)


end
