(* ===== verification/Exchange.thy ===== *)
theory Exchange
  imports Onesided
begin

text \<open>
  Two straight-line processes that send each other at most one message each: a general argument
  that every interleaving of their steps and of the arriving pieces ends in the same state.
\<close>

section \<open>One process\<close>

text \<open>
  \<open>straight dlv view P M b n s r Out In\<close>: a process that runs through the programs \<open>P b\<close>, ..., \<open>P n\<close>.  Its memory
  at \<open>P a\<close> after \<open>c\<close> pieces of the incoming message \<open>In\<close> is \<open>M a c\<close>.  Step \<open>s\<close> sends the message \<open>Out\<close>, step
  \<open>r\<close>, later than that, waits for the whole of \<open>In\<close>.
\<close>

definition straight :: "('d \<Rightarrow> 'm \<Rightarrow> 'm) \<Rightarrow> ('e \<Rightarrow> ('m, 'd, 'r) oview) \<Rightarrow> (nat \<Rightarrow> ('e, 'r, 'a) prog) \<Rightarrow> (nat \<Rightarrow> nat \<Rightarrow> 'm) \<Rightarrow>
    nat \<Rightarrow> nat \<Rightarrow> nat \<Rightarrow> nat \<Rightarrow> 'd list \<Rightarrow> 'd list \<Rightarrow> bool" where
  "straight dlv view P M b n s r Out In \<longleftrightarrow>
     (\<forall>a c. b \<le> a \<longrightarrow> a \<le> n \<longrightarrow> c \<le> length In \<longrightarrow> (r < a \<longrightarrow> c = length In) \<longrightarrow> moves view (P a) (M a c) =
        (if a < n \<and> (a < r \<or> c = length In) then {(P (Suc a), M (Suc a) c, if a = s then Out else [])} else {})) \<and>
     (\<forall>a c. b \<le> a \<longrightarrow> a \<le> r \<longrightarrow> a \<le> n \<longrightarrow> c < length In \<longrightarrow> dlv (In ! c) (M a c) = M a (Suc c)) \<and>
     (\<forall>a e k. b \<le> a \<longrightarrow> a \<le> n \<longrightarrow> P a = Call e k \<longrightarrow> (\<forall>x. view e \<noteq> OFence x \<and> view e \<noteq> OSync x)) \<and>
     (Out \<noteq> [] \<longrightarrow> s < n \<and> s < r)"

lemma straight_moves:
  assumes "straight dlv view P M b n s r Out In" and "b \<le> a" and "a \<le> n" and "c \<le> length In" and "r < a \<longrightarrow> c = length In"
  shows "moves view (P a) (M a c) =
    (if a < n \<and> (a < r \<or> c = length In) then {(P (Suc a), M (Suc a) c, if a = s then Out else [])} else {})"
  using assms by (simp add: straight_def)

lemma straight_deliver:
  "straight dlv view P M b n s r Out In \<Longrightarrow> b \<le> a \<Longrightarrow> a \<le> r \<Longrightarrow> a \<le> n \<Longrightarrow> c < length In \<Longrightarrow> dlv (In ! c) (M a c) = M a (Suc c)"
  by (simp add: straight_def)

lemma straight_local:
  "straight dlv view P M b n s r Out In \<Longrightarrow> b \<le> a \<Longrightarrow> a \<le> n \<Longrightarrow> P a = Call e k \<Longrightarrow> view e \<noteq> OFence x \<and> view e \<noteq> OSync x"
  by (simp add: straight_def)

lemma straight_order: "straight dlv view P M b n s r Out In \<Longrightarrow> Out \<noteq> [] \<Longrightarrow> s < n \<and> s < r"
  by (simp add: straight_def)

lemma Cons_eq_drop: "drop c xs = d # ds \<Longrightarrow> c < length xs \<and> d = xs ! c \<and> ds = drop (Suc c) xs"
  by (cases "c < length xs") (simp_all flip: Cons_nth_drop_Suc)

section \<open>Two processes\<close>

text \<open>Where the two are, and how much of each message has arrived.\<close>

definition grid where
  "grid P1 M1 P2 M2 s1 s2 D12 D21 a1 a2 c1 c2 =
     ostate (P1 a1) (M1 a1 c1) (P2 a2) (M2 a2 c2) (if a1 \<le> s1 then [] else drop c2 D12) (if a2 \<le> s2 then [] else drop c1 D21)"

text \<open>A position that can occur: no more has arrived than was sent, and who has waited has received.\<close>

definition position :: "nat \<Rightarrow> nat \<Rightarrow> nat \<Rightarrow> nat \<Rightarrow> nat \<Rightarrow> nat \<Rightarrow> nat \<Rightarrow> nat \<Rightarrow> nat \<Rightarrow> bool" where
  "position b n r s' k a a' c c' \<longleftrightarrow> b \<le> a \<and> a \<le> n \<and> c \<le> k \<and> (a' \<le> s' \<longrightarrow> c = 0) \<and> (r < a \<longrightarrow> c = k)"

text \<open>Unless both are through, somebody can go on or a piece can arrive.\<close>

lemma position_goes_on:
  assumes "position b1 n1 r1 s2 k1 a1 a2 c1 c2" and "position b2 n2 r2 s1 k2 a2 a1 c2 c1"
    and "0 < k2 \<longrightarrow> s1 < n1 \<and> s1 < r1" and "0 < k1 \<longrightarrow> s2 < n2 \<and> s2 < r2"
  shows "a1 < n1 \<and> (a1 < r1 \<or> c1 = k1) \<or> a2 < n2 \<and> (a2 < r2 \<or> c2 = k2) \<or> s1 < a1 \<and> c2 < k2 \<or> s2 < a2 \<and> c1 < k1 \<or>
    a1 = n1 \<and> a2 = n2 \<and> c1 = k1 \<and> c2 = k2"
  using assms unfolding position_def by presburger

lemma straight_ends:
  assumes 1: "straight dlv view1 P1 M1 b1 n1 s1 r1 D12 D21" and 2: "straight dlv view2 P2 M2 b2 n2 s2 r2 D21 D12"
    and "position b1 n1 r1 s2 (length D21) a1 a2 c1 c2" and "position b2 n2 r2 s1 (length D12) a2 a1 c2 c1"
  shows "ends_in (opair_step True dlv view1 view2) (\<lambda>s. s = opair_of (P1 n1) (M1 n1 (length D21)) (P2 n2) (M2 n2 (length D12)))
    (grid P1 M1 P2 M2 s1 s2 D12 D21 a1 a2 c1 c2)"
  using assms(3,4)
proof (induction "(n1 - a1) + (n2 - a2) + (length D21 - c1) + (length D12 - c2)" arbitrary: a1 a2 c1 c2 rule: less_induct)
  case less
  let ?e = "ends_in (opair_step True dlv view1 view2) (\<lambda>s. s = opair_of (P1 n1) (M1 n1 (length D21)) (P2 n2) (M2 n2 (length D12)))"
  note p = less.prems [unfolded position_def]
  have m1: "moves view1 (P1 a1) (M1 a1 c1) = (if a1 < n1 \<and> (a1 < r1 \<or> c1 = length D21)
      then {(P1 (Suc a1), M1 (Suc a1) c1, if a1 = s1 then D12 else [])} else {})"
    by (rule straight_moves [OF 1]) (use p in auto)
  have m2: "moves view2 (P2 a2) (M2 a2 c2) = (if a2 < n2 \<and> (a2 < r2 \<or> c2 = length D12)
      then {(P2 (Suc a2), M2 (Suc a2) c2, if a2 = s2 then D21 else [])} else {})"
    by (rule straight_moves [OF 2]) (use p in auto)
  have go: "a1 < n1 \<and> (a1 < r1 \<or> c1 = length D21) \<or> a2 < n2 \<and> (a2 < r2 \<or> c2 = length D12) \<or> s1 < a1 \<and> c2 < length D12 \<or>
      s2 < a2 \<and> c1 < length D21 \<or> a1 = n1 \<and> a2 = n2 \<and> c1 = length D21 \<and> c2 = length D12"
    by (rule position_goes_on [OF less.prems]) (use straight_order [OF 1] straight_order [OF 2] in auto)
  let ?q = "if a1 \<le> s1 then [] else drop c2 D12" and ?r = "if a2 \<le> s2 then [] else drop c1 D21"
  show ?case
    unfolding grid_def
  proof (rule ordered_ends)
    fix q m ds
    assume "(q, m, ds) \<in> moves view1 (P1 a1) (M1 a1 c1)"
    then have s: "a1 < n1" "a1 < r1 \<or> c1 = length D21" "q = P1 (Suc a1)" "m = M1 (Suc a1) c1" "ds = (if a1 = s1 then D12 else [])"
      by (simp_all add: m1 split: if_splits)
    have "?e (grid P1 M1 P2 M2 s1 s2 D12 D21 (Suc a1) a2 c1 c2)"
      by (rule less.hyps) (use s p in \<open>auto simp: position_def\<close>)
    then show "?e (ostate q m (P2 a2) (M2 a2 c2) (?q @ ds) ?r)"
      using p s by (auto simp: grid_def split: if_splits)
  next
    fix q m ds
    assume "(q, m, ds) \<in> moves view2 (P2 a2) (M2 a2 c2)"
    then have s: "a2 < n2" "a2 < r2 \<or> c2 = length D12" "q = P2 (Suc a2)" "m = M2 (Suc a2) c2" "ds = (if a2 = s2 then D21 else [])"
      by (simp_all add: m2 split: if_splits)
    have "?e (grid P1 M1 P2 M2 s1 s2 D12 D21 a1 (Suc a2) c1 c2)"
      by (rule less.hyps) (use s p in \<open>auto simp: position_def\<close>)
    then show "?e (ostate (P1 a1) (M1 a1 c1) q m ?q (?r @ ds))"
      using p s by (auto simp: grid_def split: if_splits)
  next
    fix d ds
    assume d: "?q = d # ds"
    then have s: "s1 < a1" "c2 < length D12" "d = D12 ! c2" "ds = drop (Suc c2) D12"
      by (auto dest: Cons_eq_drop split: if_splits)
    have "?e (grid P1 M1 P2 M2 s1 s2 D12 D21 a1 a2 c1 (Suc c2))"
      by (rule less.hyps) (use s p in \<open>auto simp: position_def\<close>)
    then show "?e (ostate (P1 a1) (M1 a1 c1) (P2 a2) (dlv d (M2 a2 c2)) ds ?r)"
      using p s straight_deliver [OF 2, of a2 c2] by (auto simp: grid_def)
  next
    fix d ds
    assume d: "?r = d # ds"
    then have s: "s2 < a2" "c1 < length D21" "d = D21 ! c1" "ds = drop (Suc c1) D21"
      by (auto dest: Cons_eq_drop split: if_splits)
    have "?e (grid P1 M1 P2 M2 s1 s2 D12 D21 a1 a2 (Suc c1) c2)"
      by (rule less.hyps) (use s p in \<open>auto simp: position_def\<close>)
    then show "?e (ostate (P1 a1) (dlv d (M1 a1 c1)) (P2 a2) (M2 a2 c2) ?q ds)"
      using p s straight_deliver [OF 1, of a1 c1] by (auto simp: grid_def)
  next
    show "moves view1 (P1 a1) (M1 a1 c1) \<noteq> {} \<or> moves view2 (P2 a2) (M2 a2 c2) \<noteq> {} \<or> ?q \<noteq> [] \<or> ?r \<noteq> [] \<or> (\<exists>c. at_fence view1 (P1 a1) c) \<or>
      ostate (P1 a1) (M1 a1 c1) (P2 a2) (M2 a2 c2) ?q ?r = opair_of (P1 n1) (M1 n1 (length D21)) (P2 n2) (M2 n2 (length D12))"
      unfolding m1 m2 by (rule disjE [OF go]) (auto simp: not_le)
  qed (use p straight_local [OF 1] straight_local [OF 2] in blast)+
qed

end
