(* ===== verification/Lapi.thy ===== *)
theory Lapi
  imports Exchange
begin

text \<open>
  The LAPI module \<open>lapi.c\<close>.  Messages are puts into the memory of the other task.  The arrival of a
  put is announced by a counter at the target, on which the receiver waits; the addresses of
  counters, variables and buffers are exchanged by the collective \<open>LAPI_Address_init\<close>.
\<close>

section \<open>Calls and state\<close>

text \<open>
  Counters and variables are named by their addresses.  The source of a put lies in memory or is
  a local variable, given by its bytes.  \<open>Poll_cntr\<close> is the loop that calls \<open>LAPI_Probe\<close> and
  \<open>LAPI_Getcntr\<close> until the counter is not below the given value.
\<close>

datatype put_source = Mem addr | Local "byte list"

datatype lapi_call =
    LAPI_Init
  | LAPI_Msg_string int
  | LAPI_Qenv_TASK_ID nat
  | LAPI_Qenv_NUM_TASKS nat
  | LAPI_Senv_ERROR_CHK nat int
  | LAPI_Setcntr nat addr int
  | LAPI_Address_init nat addr
  | LAPI_Gfence nat
  | LAPI_Put nat int int addr put_source addr addr addr
  | LAPI_Waitcntr nat addr int
  | Poll_cntr nat addr int
  | LAPI_Term nat

record LapiProt =
  lnbor :: int

text \<open>
  The global variables.  For those that LAPI accesses by address (the counters, \<open>npRepeat\<close> and \<open>nbor_r_buff_offset\<close>)
  the record has the address; the arrays have one entry per task.
\<close>

record lapi_glob =
  t_hndl :: nat
  l_cntr :: addr
  t_cntr :: addr
  c_cntr :: addr
  global_addr :: "addr \<times> addr"
  tgt_addr :: "addr \<times> addr"
  rpt_addr :: "addr \<times> addr"
  time_addr :: "addr \<times> addr"
  offset_addr :: "addr \<times> addr"
  npRepeat :: addr
  nbor_r_buff_offset :: addr

type_synonym lapi_world = "(LapiProt, lapi_glob) world"
type_synonym 'a lapi_prog = "(lapi_call, 'a) os_prog"

definition upd_lapi :: "(lapi_glob \<Rightarrow> lapi_glob) \<Rightarrow> lapi_world \<Rightarrow> lapi_world" where
  "upd_lapi f w = w\<lparr>glob := f (glob w)\<rparr>"

definition entry :: "addr \<times> addr \<Rightarrow> int \<Rightarrow> addr" where
  "entry t i = (if i = 0 then fst t else snd t)"

definition table :: "os_reply \<Rightarrow> addr \<times> addr" where
  "table r = (onum r 0, onum r 1)"

section \<open>The functions\<close>

definition lapi_Init :: "lapi_world \<Rightarrow> lapi_world lapi_prog" where
  "lapi_Init w = Ret w"

definition lapi_Setup :: "lapi_world \<Rightarrow> lapi_world lapi_prog" where
  "lapi_Setup w =
     Call (Lib LAPI_Init) (\<lambda>r.
     let w = upd_lapi (\<lambda>g. g\<lparr>t_hndl := onum r 0\<rparr>) w; h = t_hndl (glob w) in
     if oval r \<noteq> 0 then Call (Lib (LAPI_Msg_string (oval r))) (\<lambda>_. Abort (Exit (oval r)))
     else
     Call (Lib (LAPI_Qenv_TASK_ID h)) (\<lambda>r. let task_id = int (onum r 0) in
     Call (Lib (LAPI_Qenv_NUM_TASKS h)) (\<lambda>r. let num_tasks = int (onum r 0) in
     if num_tasks \<noteq> 2 then Abort (Exit 1)
     else
     Call (Lib (LAPI_Senv_ERROR_CHK h 0)) (\<lambda>_.
     Call (Lib (LAPI_Setcntr h (l_cntr (glob w)) 0)) (\<lambda>_.
     Call (Lib (LAPI_Setcntr h (t_cntr (glob w)) 0)) (\<lambda>_.
     Call (Lib (LAPI_Setcntr h (c_cntr (glob w)) 0)) (\<lambda>_.
     Call (Lib (LAPI_Address_init h (t_cntr (glob w)))) (\<lambda>r.
     let w = upd_lapi (\<lambda>g. g\<lparr>tgt_addr := table r\<rparr>) w in
     Call (Lib (LAPI_Address_init h (npRepeat (glob w)))) (\<lambda>r.
     let w = upd_lapi (\<lambda>g. g\<lparr>rpt_addr := table r\<rparr>) w in
     Call (Lib (LAPI_Address_init h (nbor_r_buff_offset (glob w)))) (\<lambda>r.
     let w = upd_lapi (\<lambda>g. g\<lparr>offset_addr := table r\<rparr>) w;
         w = upd_args (\<lambda>p. p\<lparr>tr := 0, rcv := 0\<rparr>) w in
     Ret (if task_id = 0 then upd_args (\<lambda>p. p\<lparr>tr := 1, prot := (prot p)\<lparr>lnbor := 1\<rparr>\<rparr>) w
          else upd_args (\<lambda>p. p\<lparr>rcv := 1, prot := (prot p)\<lparr>lnbor := 0\<rparr>\<rparr>) w)))))))))))"

definition lapi_Sync :: "lapi_world \<Rightarrow> lapi_world lapi_prog" where
  "lapi_Sync w = Call (Lib (LAPI_Gfence (t_hndl (glob w)))) (\<lambda>_. Ret w)"

text \<open>
  The put that all sending functions make, and the wait for its local completion; and the wait of
  the receiving functions for the target counter.
\<close>

definition put_and_wait :: "int \<Rightarrow> addr \<Rightarrow> put_source \<Rightarrow> lapi_world \<Rightarrow> 'a lapi_prog \<Rightarrow> 'a lapi_prog" where
  "put_and_wait n dest src w p =
     (let g = glob w; nb = lnbor (prot (p_of w)) in
     Call (Lib (LAPI_Put (t_hndl g) nb n dest src (entry (tgt_addr g) nb) (l_cntr g) (c_cntr g))) (\<lambda>_.
     Call (Lib (LAPI_Waitcntr (t_hndl g) (l_cntr g) 1)) (\<lambda>_. p)))"

definition poll_t :: "lapi_world \<Rightarrow> 'a lapi_prog \<Rightarrow> 'a lapi_prog" where
  "poll_t w p = Call (Lib (Poll_cntr (t_hndl (glob w)) (t_cntr (glob w)) 1)) (\<lambda>_. p)"

definition clear_t :: "lapi_world \<Rightarrow> 'a lapi_prog \<Rightarrow> 'a lapi_prog" where
  "clear_t w p = Call (Lib (LAPI_Waitcntr (t_hndl (glob w)) (t_cntr (glob w)) 1)) (\<lambda>_. p)"

definition lapi_SendData :: "lapi_world \<Rightarrow> lapi_world lapi_prog" where
  "lapi_SendData w =
     (let offset = int (s_ptr (p_of w)) - int (s_buff (p_of w)) in
     Call (Load (nbor_r_buff_offset (glob w)) 4) (\<lambda>r.
     let dest = nat (int (entry (global_addr (glob w)) (lnbor (prot (p_of w)))) + sint (le_word (obytes r)) + offset) in
     put_and_wait (bufflen (p_of w)) dest (Mem (s_ptr (p_of w))) w (Ret w)))"

definition lapi_RecvData :: "lapi_world \<Rightarrow> lapi_world lapi_prog" where
  "lapi_RecvData w = poll_t w (clear_t w (Ret w))"

text \<open>The time lies at the address \<open>t\<close> that the caller passes.\<close>

definition lapi_SendTime :: "addr \<Rightarrow> lapi_world \<Rightarrow> lapi_world lapi_prog" where
  "lapi_SendTime t w =
     Call (Lib (LAPI_Address_init (t_hndl (glob w)) t)) (\<lambda>r.
     let w = upd_lapi (\<lambda>g. g\<lparr>time_addr := table r\<rparr>) w in
     put_and_wait 8 (entry (time_addr (glob w)) (lnbor (prot (p_of w)))) (Mem t) w (Ret w))"

definition lapi_RecvTime :: "addr \<Rightarrow> lapi_world \<Rightarrow> lapi_world lapi_prog" where
  "lapi_RecvTime t w =
     Call (Lib (LAPI_Address_init (t_hndl (glob w)) t)) (\<lambda>r.
     let w = upd_lapi (\<lambda>g. g\<lparr>time_addr := table r\<rparr>) w in
     poll_t w (clear_t w (Ret w)))"

definition lapi_SendRepeat :: "u32 \<Rightarrow> lapi_world \<Rightarrow> lapi_world lapi_prog" where
  "lapi_SendRepeat rpt w =
     put_and_wait 4 (entry (rpt_addr (glob w)) (lnbor (prot (p_of w)))) (Local (le_bytes rpt)) w (Ret w)"

definition lapi_RecvRepeat :: "lapi_world \<Rightarrow> (u32 \<times> lapi_world) lapi_prog" where
  "lapi_RecvRepeat w =
     poll_t w (Call (Load (npRepeat (glob w)) 4) (\<lambda>r. clear_t w (Ret (le_word (obytes r), w))))"

definition lapi_CleanUp :: "lapi_world \<Rightarrow> lapi_world lapi_prog" where
  "lapi_CleanUp w =
     Call (Lib (LAPI_Gfence (t_hndl (glob w)))) (\<lambda>_. Call (Lib (LAPI_Term (t_hndl (glob w)))) (\<lambda>_. Ret w))"

definition lapi_AfterAlignmentInit :: "lapi_world \<Rightarrow> lapi_world lapi_prog" where
  "lapi_AfterAlignmentInit w =
     (let my_r_buff_offset = int (r_buff (p_of w)) - int (r_buff_orig (p_of w)) in
     put_and_wait 4 (entry (offset_addr (glob w)) (lnbor (prot (p_of w)))) (Local (int_bytes my_r_buff_offset)) w
       (poll_t w (clear_t w (Ret w))))"

definition lapi_MyMalloc :: "allocator \<Rightarrow> int \<Rightarrow> int \<Rightarrow> int \<Rightarrow> lapi_world \<Rightarrow> lapi_world lapi_prog" where
  "lapi_MyMalloc alloc len soff roff w =
     andThen (malloc_shared alloc (unat (size_t (len + CMAX soff roff)))) (\<lambda>p.
     let w = upd_args (\<lambda>a. a\<lparr>r_buff := p\<rparr>) w in
     if r_buff (p_of w) = NULL then Abort (Exit (- 1))
     else
     Call (Lib (LAPI_Address_init (t_hndl (glob w)) (r_buff (p_of w)))) (\<lambda>r.
     let w = upd_lapi (\<lambda>g. g\<lparr>global_addr := table r\<rparr>) w in
     if cache (p_of w) \<noteq> 0 then Ret w
     else andThen (malloc_shared alloc (unat (size_t (len + soff)))) (\<lambda>q.
          let w = upd_args (\<lambda>a. a\<lparr>s_buff := q\<rparr>) w in
          if s_buff (p_of w) = NULL then Abort (Exit (- 1)) else Ret w)))"

definition lapi_FreeBuff :: "addr \<Rightarrow> addr \<Rightarrow> lapi_world \<Rightarrow> lapi_world lapi_prog" where
  "lapi_FreeBuff buff1 buff2 w =
     andThen (if buff1 \<noteq> NULL then free_shared buff1 else Ret ()) (\<lambda>_.
     andThen (if buff2 \<noteq> NULL then free_shared buff2 else Ret ()) (\<lambda>_. Ret w))"

text \<open>\<open>PrepareToReceive\<close> and \<open>Reset\<close> do nothing.\<close>

definition lapi_module :: "allocator \<Rightarrow> lfsr \<Rightarrow> (lapi_call os_ev, os_reply, LapiProt, lapi_glob) comm_module" where
  "lapi_module alloc L =
     \<lparr>mInit = lapi_Init, mSetup = lapi_Setup, mSendRepeat = lapi_SendRepeat, mRecvRepeat = lapi_RecvRepeat,
      mMyMalloc = lapi_MyMalloc alloc, mInitBufferData = (\<lambda>n so ro. on_shared (InitBufferData L n so ro)),
      mAfterAlignmentInit = lapi_AfterAlignmentInit, mPrepareToReceive = Ret, mSync = lapi_Sync,
      mSendData = lapi_SendData, mRecvData = lapi_RecvData,
      mCheckBufferData = (\<lambda>n so ro. on_shared (CheckBufferData L n so ro)),
      mFreeBuff = lapi_FreeBuff\<rparr>"

lemma lapi_module_simps [simp]:
  "mSendRepeat (lapi_module alloc L) = lapi_SendRepeat" "mRecvRepeat (lapi_module alloc L) = lapi_RecvRepeat"
  "mMyMalloc (lapi_module alloc L) = lapi_MyMalloc alloc"
  by (simp_all add: lapi_module_def)

section \<open>What the calls do\<close>

text \<open>
  A task's memory and its counters.  A put takes its data from the source at once and counts the
  origin counter up; the data arrives in pieces, and behind it the target counter is counted up.
  The completion counter, which nobody reads, is left out.  \<open>tab\<close> gives the addresses that the
  two tasks have passed to \<open>LAPI_Address_init\<close>.
\<close>

record lapi_mem =
  lheap :: cheap
  cntr :: "addr \<Rightarrow> int"

datatype lapi_dlv = Data addr "byte list" | Bump addr

definition add_cntr :: "addr \<Rightarrow> int \<Rightarrow> lapi_mem \<Rightarrow> lapi_mem" where
  "add_cntr c i m = m\<lparr>cntr := (cntr m)(c := cntr m c + i)\<rparr>"

fun lapi_deliver :: "lapi_dlv \<Rightarrow> lapi_mem \<Rightarrow> lapi_mem" where
  "lapi_deliver (Data a bs) m = m\<lparr>lheap := store (lheap m) a bs\<rparr>"
| "lapi_deliver (Bump c) m = add_cntr c 1 m"

fun source_is :: "put_source \<Rightarrow> nat \<Rightarrow> cheap \<Rightarrow> byte list \<Rightarrow> bool" where
  "source_is (Mem a) n h bs \<longleftrightarrow> valid h a n \<and> load h a n = bs"
| "source_is (Local xs) n h bs \<longleftrightarrow> length xs = n \<and> xs = bs"

fun lapi_view :: "(addr \<Rightarrow> addr \<times> addr) \<Rightarrow> int \<Rightarrow> lapi_call os_ev \<Rightarrow> (lapi_mem, lapi_dlv, os_reply) oview" where
  "lapi_view tab peer (Load a n) =
     OAct (\<lambda>m. if valid (lheap m) a n then Some (os_ok\<lparr>obytes := load (lheap m) a n\<rparr>, m) else None)"
| "lapi_view tab peer (Routine f) = OAct (\<lambda>m. case f (lheap m) of (r, h) \<Rightarrow> Some (r, m\<lparr>lheap := h\<rparr>))"
| "lapi_view tab peer (Lib (LAPI_Setcntr h c i)) = OAct (\<lambda>m. Some (os_ok, m\<lparr>cntr := (cntr m)(c := i)\<rparr>))"
| "lapi_view tab peer (Lib (LAPI_Address_init h a)) = OSync (os_ok\<lparr>oaddrs := [fst (tab a), snd (tab a)]\<rparr>)"
| "lapi_view tab peer (Lib (LAPI_Gfence h)) = OSync os_ok"
| "lapi_view tab peer (Lib (LAPI_Put h t n dest src tc lc cc)) = (if t = peer
     then OSend (\<lambda>m ds. \<exists>bs ps. source_is src (nat n) (lheap m) bs \<and> arrives_as dest bs ps \<and>
            ds = map (\<lambda>(a, x). Data a x) ps @ [Bump tc]) (add_cntr lc 1) os_ok
     else ONone)"
| "lapi_view tab peer (Lib (LAPI_Waitcntr h c i)) = OAct (\<lambda>m. if i \<le> cntr m c then Some (os_ok, add_cntr c (- i) m) else None)"
| "lapi_view tab peer (Lib (Poll_cntr h c i)) = OAct (\<lambda>m. if i \<le> cntr m c then Some (os_ok, m) else None)"
| "lapi_view tab peer _ = ONone"

section \<open>Messages on their way\<close>

text \<open>A put of \<open>bs\<close>, and the memory after some of its pieces.\<close>

definition message :: "delivery list \<Rightarrow> addr \<Rightarrow> lapi_dlv list" where
  "message ps tc = map (\<lambda>(a, x). Data a x) ps @ [Bump tc]"

definition arr :: "lapi_dlv list \<Rightarrow> lapi_mem \<Rightarrow> lapi_mem" where
  "arr ds m = fold lapi_deliver ds m"

lemma message_simps [simp]: "length (message ps tc) = Suc (length ps)" "message ps tc \<noteq> []"
  by (simp_all add: message_def)

lemma arr_nil [simp]: "arr [] m = m"
  by (simp add: arr_def)

lemma arr_next: "c < length ds \<Longrightarrow> lapi_deliver (ds ! c) (arr (take c ds) m) = arr (take (Suc c) ds) m"
  by (simp add: arr_def take_Suc_conv_app_nth)

lemma deliver_add_cntr: "lapi_deliver d (add_cntr c i m) = add_cntr c i (lapi_deliver d m)"
  by (cases d; cases m) (auto simp: add_cntr_def fun_eq_iff)

lemma arr_add_cntr: "arr ds (add_cntr c i m) = add_cntr c i (arr ds m)"
  by (induction ds arbitrary: m) (simp_all add: arr_def deliver_add_cntr)

lemma cntr_data: "cntr (arr (map (\<lambda>(a, x). Data a x) ps) m) = cntr m"
  by (induction ps arbitrary: m) (auto simp: arr_def)

lemma cntr_arr:
  assumes "c \<le> Suc (length ps)"
  shows "cntr (arr (take c (message ps tc)) m) x = cntr m x + (if x = tc \<and> c = Suc (length ps) then 1 else 0)"
proof (cases "c = Suc (length ps)")
  case True
  then show ?thesis using cntr_data [of ps m] by (simp add: message_def arr_def add_cntr_def)
next
  case False
  then have "take c (message ps tc) = map (\<lambda>(a, x). Data a x) (take c ps)" using assms by (simp add: message_def take_map)
  then show ?thesis using False by (simp add: cntr_data)
qed

lemma pieces_stored: "pieces a bs ps \<Longrightarrow> lheap (arr (map (\<lambda>(a, x). Data a x) ps) m) = store (lheap m) a bs"
proof (induction ps arbitrary: a bs m)
  case (Cons p ps)
  obtain b x where p: "p = (b, x)" by (cases p)
  with Cons.prems have *: "b = a" "take (length x) bs = x" "pieces (a + length x) (drop (length x) bs) ps" by simp_all
  have "store (store (lheap m) a x) (a + length x) (drop (length x) bs) = store (lheap m) a (x @ drop (length x) bs)"
    using store_append' [of "a + length x" a x "lheap m" "drop (length x) bs"] by simp
  also have "x @ drop (length x) bs = bs" using *(2) append_take_drop_id [of "length x" bs] by simp
  finally show ?case
    using Cons.IH [OF *(3), of "m\<lparr>lheap := store (lheap m) a x\<rparr>"] *(1) by (simp add: p arr_def)
qed (simp add: arr_def)

lemma message_stored:
  assumes "arrives_as a bs ps"
  shows "arr (message ps tc) m = add_cntr tc 1 (m\<lparr>lheap := store (lheap m) a bs\<rparr>)"
proof -
  have "lheap (arr (map (\<lambda>(a, x). Data a x) ps) m) = store (lheap m) a bs"
  proof (cases "length bs \<le> 8")
    case True
    then show ?thesis using assms by (simp add: arrives_as_def arr_def)
  next
    case False
    then show ?thesis using assms pieces_stored by (simp add: arrives_as_def)
  qed
  then have "arr (map (\<lambda>(a, x). Data a x) ps) m = m\<lparr>lheap := store (lheap m) a bs\<rparr>" using cntr_data [of ps m] by simp
  then show ?thesis by (simp add: message_def arr_def)
qed

lemma add_cntr_simps [simp]:
  "add_cntr c (- 1) (add_cntr c 1 m) = m" "cntr (add_cntr c i m) x = cntr m x + (if x = c then i else 0)"
  "lheap (add_cntr c i m) = lheap m"
  by (simp_all add: add_cntr_def)

section \<open>Correctness\<close>

text \<open>Each task has the addresses of the other's counter and variables; no message is on its way.\<close>

definition knows :: "lapi_world \<Rightarrow> lapi_world \<Rightarrow> bool" where
  "knows w w' \<longleftrightarrow> (let nb = lnbor (prot (p_of w)) in entry (tgt_addr (glob w)) nb = t_cntr (glob w') \<and>
     entry (rpt_addr (glob w)) nb = npRepeat (glob w') \<and> entry (offset_addr (glob w)) nb = nbor_r_buff_offset (glob w'))"

definition lapi_idle :: "lapi_world \<Rightarrow> lapi_mem \<Rightarrow> bool" where
  "lapi_idle w m \<longleftrightarrow> cntr m (l_cntr (glob w)) = 0 \<and> cntr m (t_cntr (glob w)) = 0 \<and> l_cntr (glob w) \<noteq> t_cntr (glob w) \<and>
     valid (lheap m) (npRepeat (glob w)) 4 \<and> valid (lheap m) (nbor_r_buff_offset (glob w)) 4"

abbreviation lview :: "(addr \<Rightarrow> addr \<times> addr) \<Rightarrow> lapi_world \<Rightarrow> lapi_call os_ev \<Rightarrow> (lapi_mem, lapi_dlv, os_reply) oview" where
  "lview tab w \<equiv> lapi_view tab (lnbor (prot (p_of w)))"

definition wait_l :: "lapi_world \<Rightarrow> 'a lapi_prog \<Rightarrow> 'a lapi_prog" where
  "wait_l w p = Call (Lib (LAPI_Waitcntr (t_hndl (glob w)) (l_cntr (glob w)) 1)) (\<lambda>_. p)"

lemma moves_put:
  assumes "source_is src (nat n) (lheap m) bs" and "knows w w'"
  shows "moves (lview tab w) (put_and_wait n dest src w p) m =
    {(wait_l w p, add_cntr (l_cntr (glob w)) 1 m, message ps (t_cntr (glob w'))) |ps. arrives_as dest bs ps}"
proof -
  have "source_is src (nat n) (lheap m) xs \<longleftrightarrow> xs = bs" for xs using assms(1) by (cases src) auto
  then show ?thesis
    using assms(2) by (simp add: put_and_wait_def Let_def knows_def wait_l_def message_def) blast
qed

lemma moves_cntr [simp]:
  "moves (lview tab w) (wait_l w p) m = (if 1 \<le> cntr m (l_cntr (glob w)) then {(p, add_cntr (l_cntr (glob w)) (- 1) m, [])} else {})"
  "moves (lview tab w) (clear_t w p) m = (if 1 \<le> cntr m (t_cntr (glob w)) then {(p, add_cntr (t_cntr (glob w)) (- 1) m, [])} else {})"
  "moves (lview tab w) (poll_t w p) m = (if 1 \<le> cntr m (t_cntr (glob w)) then {(p, m, [])} else {})"
  by (simp_all add: wait_l_def clear_t_def poll_t_def)

lemma not_collective [simp]:
  "wait_l w p = Call e k \<Longrightarrow> lapi_view tab nb e \<noteq> OFence x \<and> lapi_view tab nb e \<noteq> OSync x"
  "clear_t w p = Call e k \<Longrightarrow> lapi_view tab nb e \<noteq> OFence x \<and> lapi_view tab nb e \<noteq> OSync x"
  "poll_t w p = Call e k \<Longrightarrow> lapi_view tab nb e \<noteq> OFence x \<and> lapi_view tab nb e \<noteq> OSync x"
  "put_and_wait n d src w p = Call e k \<Longrightarrow> lapi_view tab nb e \<noteq> OFence x \<and> lapi_view tab nb e \<noteq> OSync x"
  by (auto simp: wait_l_def clear_t_def poll_t_def put_and_wait_def Let_def split: if_splits)

text \<open>A sender from its put on.\<close>

lemma sender_straight:
  assumes "lapi_idle w m" and "knows w w'" and "source_is src (nat n) (lheap m) bs" and "b = 0 \<longrightarrow> length bs \<le> 8" and "arrives_as dest bs ps"
  shows "straight lapi_deliver (lview tab w) (\<lambda>a. [put_and_wait n dest src w (Ret x), wait_l w (Ret x), Ret x] ! a)
    (\<lambda>a c. if a = 1 then add_cntr (l_cntr (glob w)) 1 m else m) b 2 0 2 (message ps (t_cntr (glob w'))) []"
proof -
  have m0: "moves (lview tab w) (put_and_wait n dest src w (Ret x)) m =
    {(wait_l w (Ret x), add_cntr (l_cntr (glob w)) 1 m, message ps (t_cntr (glob w')))}" if "length bs \<le> 8"
    unfolding moves_put [OF assms(3,2)] using assms(5) that by (auto simp: arrives_short)
  have l: "cntr m (l_cntr (glob w)) = 0" using assms(1) by (simp add: lapi_idle_def)
  show ?thesis
    unfolding straight_def
  proof (intro conjI allI impI)
    fix a assume "b \<le> a" "a \<le> 2"
    then have "a = 0 \<and> b = 0 \<or> a = 1 \<or> a = 2" by auto
    then show "moves (lview tab w) ([put_and_wait n dest src w (Ret x), wait_l w (Ret x), Ret x] ! a) (if a = 1 then add_cntr (l_cntr (glob w)) 1 m else m) =
      (if a < 2 \<and> (a < 2 \<or> c = length [])
       then {([put_and_wait n dest src w (Ret x), wait_l w (Ret x), Ret x] ! Suc a, if Suc a = 1 then add_cntr (l_cntr (glob w)) 1 m else m,
              if a = 0 then message ps (t_cntr (glob w')) else [])} else {})" for c :: nat
      using m0 assms(4) l by auto
  qed (use not_collective in \<open>auto simp: less_Suc_eq_le le_Suc_eq numeral_2_eq_2\<close>)
qed

text \<open>A receiver that waits for its counter, and one that then reads the variable.\<close>

lemma receiver_straight:
  assumes "lapi_idle w m"
  shows "straight lapi_deliver (lview tab w) (\<lambda>a. [poll_t w (clear_t w (Ret x)), clear_t w (Ret x), Ret x] ! a)
    (\<lambda>a c. (if a = 2 then add_cntr (t_cntr (glob w)) (- 1) else id) (arr (take c (message ps (t_cntr (glob w)))) m))
    0 2 3 0 [] (message ps (t_cntr (glob w)))"
proof -
  have t: "cntr m (t_cntr (glob w)) = 0" using assms by (simp add: lapi_idle_def)
  have c: "1 \<le> cntr (arr (take c (message ps (t_cntr (glob w)))) m) (t_cntr (glob w)) \<longleftrightarrow> c = Suc (length ps)"
    if "c \<le> Suc (length ps)" for c using cntr_arr [OF that, of "t_cntr (glob w)"] t by simp
  show ?thesis
    unfolding straight_def
  proof (intro conjI allI impI)
    fix a c assume a: "0 \<le> a" "a \<le> (2 :: nat)" and "c \<le> length (message ps (t_cntr (glob w)))"
      "0 < a \<longrightarrow> c = length (message ps (t_cntr (glob w)))"
    moreover have "a = 0 \<or> a = 1 \<or> a = 2" using a by auto
    ultimately show "moves (lview tab w) ([poll_t w (clear_t w (Ret x)), clear_t w (Ret x), Ret x] ! a)
        ((if a = 2 then add_cntr (t_cntr (glob w)) (- 1) else id) (arr (take c (message ps (t_cntr (glob w)))) m)) =
      (if a < 2 \<and> (a < 0 \<or> c = length (message ps (t_cntr (glob w))))
       then {([poll_t w (clear_t w (Ret x)), clear_t w (Ret x), Ret x] ! Suc a,
              (if Suc a = 2 then add_cntr (t_cntr (glob w)) (- 1) else id) (arr (take c (message ps (t_cntr (glob w)))) m),
              if a = 3 then [] else [])} else {})"
      using c [of c] by auto
  qed (use not_collective in \<open>auto simp: arr_next less_Suc_eq_le le_Suc_eq numeral_2_eq_2\<close>)
qed

definition read_var :: "lapi_world \<Rightarrow> (u32 \<times> lapi_world) lapi_prog" where
  "read_var w = Call (Load (npRepeat (glob w)) 4) (\<lambda>r. clear_t w (Ret (le_word (obytes r), w)))"

lemma RecvRepeat_reads: "lapi_RecvRepeat w = poll_t w (read_var w)"
  by (simp add: lapi_RecvRepeat_def read_var_def)

lemma moves_read_var [simp]:
  "moves (lview tab w) (read_var w) m = (if valid (lheap m) (npRepeat (glob w)) 4
     then {(clear_t w (Ret (le_word (load (lheap m) (npRepeat (glob w)) 4), w)), m, [])} else {})"
  "read_var w = Call e k \<Longrightarrow> lapi_view tab nb e \<noteq> OFence x \<and> lapi_view tab nb e \<noteq> OSync x"
  by (auto simp: read_var_def)

lemma reader_straight:
  assumes "lapi_idle w m" and "arrives_as (npRepeat (glob w)) (le_bytes n) ps"
  shows "straight lapi_deliver (lview tab w) (\<lambda>a. [lapi_RecvRepeat w, read_var w, clear_t w (Ret (n, w)), Ret (n, w)] ! a)
    (\<lambda>a c. (if a = 3 then add_cntr (t_cntr (glob w)) (- 1) else id) (arr (take c (message ps (t_cntr (glob w)))) m))
    0 3 4 0 [] (message ps (t_cntr (glob w)))"
proof -
  let ?In = "message ps (t_cntr (glob w))"
  have t: "cntr m (t_cntr (glob w)) = 0" and v: "valid (lheap m) (npRepeat (glob w)) 4" using assms by (simp_all add: lapi_idle_def)
  have c: "1 \<le> cntr (arr (take c ?In) m) (t_cntr (glob w)) \<longleftrightarrow> c = Suc (length ps)"
    if "c \<le> Suc (length ps)" for c using cntr_arr [OF that, of "t_cntr (glob w)"] t by simp
  have all: "take (Suc (length ps)) ?In = ?In" by simp
  have rd: "valid (lheap (arr ?In m)) (npRepeat (glob w)) 4" "le_word (load (lheap (arr ?In m)) (npRepeat (glob w)) 4) = n"
    using v message_stored [OF assms(2), of "t_cntr (glob w)" m] load_store_same [of "lheap m" "npRepeat (glob w)" "le_bytes n"]
    by simp_all
  show ?thesis
    unfolding straight_def RecvRepeat_reads
  proof (intro conjI allI impI)
    fix a c assume a: "0 \<le> a" "a \<le> (3 :: nat)" and "c \<le> length ?In" "0 < a \<longrightarrow> c = length ?In"
    moreover have "a = 0 \<or> a = 1 \<or> a = 2 \<or> a = 3" using a by auto
    ultimately show "moves (lview tab w) ([poll_t w (read_var w), read_var w, clear_t w (Ret (n, w)), Ret (n, w)] ! a)
        ((if a = 3 then add_cntr (t_cntr (glob w)) (- 1) else id) (arr (take c ?In) m)) =
      (if a < 3 \<and> (a < 0 \<or> c = length ?In)
       then {([poll_t w (read_var w), read_var w, clear_t w (Ret (n, w)), Ret (n, w)] ! Suc a,
              (if Suc a = 3 then add_cntr (t_cntr (glob w)) (- 1) else id) (arr (take c ?In) m), if a = 4 then [] else [])} else {})"
      using c [of c] rd all by auto
  qed (use not_collective in \<open>auto simp: arr_next less_Suc_eq_le le_Suc_eq numeral_3_eq_3\<close>)
qed

text \<open>\<open>AfterAlignmentInit\<close> sends and receives.\<close>

lemma exchange_straight:
  assumes "lapi_idle w m" and "knows w w'" and "length bs = 4" and In_def: "In = message ps (t_cntr (glob w))"
  shows "straight lapi_deliver (lview tab w)
    (\<lambda>a. [put_and_wait 4 dest (Local bs) w (poll_t w (clear_t w (Ret x))), wait_l w (poll_t w (clear_t w (Ret x))),
          poll_t w (clear_t w (Ret x)), clear_t w (Ret x), Ret x] ! a)
    (\<lambda>a c. (if a = 1 then add_cntr (l_cntr (glob w)) 1 else if a = 4 then add_cntr (t_cntr (glob w)) (- 1) else id) (arr (take c In) m))
    0 4 0 2 (message [(dest, bs)] (t_cntr (glob w'))) In" (is "straight _ _ ?P ?M _ _ _ _ _ _")
proof -
  have i: "cntr m (t_cntr (glob w)) = 0" "cntr m (l_cntr (glob w)) = 0" "l_cntr (glob w) \<noteq> t_cntr (glob w)"
    using assms(1) by (simp_all add: lapi_idle_def)
  have c: "1 \<le> cntr (arr (take c In) m) (t_cntr (glob w)) \<longleftrightarrow> c = Suc (length ps)" "cntr (arr (take c In) m) (l_cntr (glob w)) = 0"
    if "c \<le> Suc (length ps)" for c
    using cntr_arr [OF that, of "t_cntr (glob w)" m] i unfolding In_def by simp_all
  have m0: "moves (lview tab w) (put_and_wait 4 dest (Local bs) w p) m' =
    {(wait_l w p, add_cntr (l_cntr (glob w)) 1 m', message [(dest, bs)] (t_cntr (glob w')))}" for p :: "'a lapi_prog" and m'
    using moves_put [of "Local bs" 4 m' bs w w' tab dest p] assms(2,3) by (simp add: arrives_short)
  show ?thesis
    unfolding straight_def
  proof (intro conjI allI impI)
    fix a c assume a: "0 \<le> a" "a \<le> (4 :: nat)" and "c \<le> length In" "2 < a \<longrightarrow> c = length In"
    moreover have "a = 0 \<or> a = 1 \<or> a = 2 \<or> a = 3 \<or> a = 4" using a by auto
    ultimately show "moves (lview tab w) (?P a) (?M a c) = (if a < 4 \<and> (a < 2 \<or> c = length In)
       then {(?P (Suc a), ?M (Suc a) c, if a = 0 then message [(dest, bs)] (t_cntr (glob w')) else [])} else {})"
      using c [of c] by (auto simp: m0 In_def)
  next
    show "\<And>a c. 0 \<le> a \<Longrightarrow> a \<le> 2 \<Longrightarrow> a \<le> 4 \<Longrightarrow> c < length In \<Longrightarrow> lapi_deliver (In ! c) (?M a c) = ?M a (Suc c)"
      by (auto simp: arr_next deliver_add_cntr)
    fix a e k y assume "0 \<le> a" "a \<le> (4 :: nat)" and *: "?P a = Call e k"
    then have "a = 0 \<or> a = 1 \<or> a = 2 \<or> a = 3 \<or> a = 4" by auto
    with * show "lview tab w e \<noteq> OFence y" "lview tab w e \<noteq> OSync y" by (auto dest: not_collective)
  qed simp_all
qed

abbreviation lapi_step where
  "lapi_step tab w1 w2 \<equiv> opair_step True lapi_deliver (lview tab w1) (lview tab w2)"

lemma repeat_arrives:
  assumes "lapi_idle w1 m1" "lapi_idle w2 m2" "knows w1 w2"
  shows "ends_in (lapi_step tab w1 w2)
    (\<lambda>s. s = opair_of (Ret w1) m1 (Ret (n, w2)) (m2\<lparr>lheap := store (lheap m2) (npRepeat (glob w2)) (le_bytes n)\<rparr>))
    (opair_of (lapi_SendRepeat n w1) m1 (lapi_RecvRepeat w2) m2)"
proof -
  let ?d = "npRepeat (glob w2)"
  have k: "entry (rpt_addr (glob w1)) (lnbor (prot (p_of w1))) = ?d" using assms(3) by (simp add: knows_def Let_def)
  have a: "arrives_as ?d (le_bytes n) [(?d, le_bytes n)]" by (simp add: arrives_short)
  show ?thesis
    using straight_ends [OF sender_straight [OF assms(1,3), of "Local (le_bytes n)" 4 "le_bytes n" 0 ?d "[(?d, le_bytes n)]" tab w1]
        reader_straight [OF assms(2) a, of tab], of 0 0 0 0]
    by (simp add: a position_def grid_def lapi_SendRepeat_def k message_stored [OF a])
qed

lemma offsets_arrive:
  assumes "lapi_idle w1 m1" "lapi_idle w2 m2" "knows w1 w2" "knows w2 w1"
  shows "ends_in (lapi_step tab w1 w2)
    (\<lambda>s. s = opair_of
       (Ret w1) (m1\<lparr>lheap := store (lheap m1) (nbor_r_buff_offset (glob w1)) (int_bytes (int (r_buff (p_of w2)) - int (r_buff_orig (p_of w2))))\<rparr>)
       (Ret w2) (m2\<lparr>lheap := store (lheap m2) (nbor_r_buff_offset (glob w2)) (int_bytes (int (r_buff (p_of w1)) - int (r_buff_orig (p_of w1))))\<rparr>))
    (opair_of (lapi_AfterAlignmentInit w1) m1 (lapi_AfterAlignmentInit w2) m2)"
proof -
  let ?o = "\<lambda>w. int (r_buff (p_of w)) - int (r_buff_orig (p_of w))"
  let ?b = "\<lambda>w. int_bytes (?o w)" and ?d = "\<lambda>w. nbor_r_buff_offset (glob w)"
  have k: "entry (offset_addr (glob w1)) (lnbor (prot (p_of w1))) = ?d w2" "entry (offset_addr (glob w2)) (lnbor (prot (p_of w2))) = ?d w1"
    using assms(3,4) by (simp_all add: knows_def Let_def)
  have a: "arrives_as (?d w1) (?b w2) [(?d w1, ?b w2)]" "arrives_as (?d w2) (?b w1) [(?d w2, ?b w1)]" by (simp_all add: arrives_short)
  show ?thesis
    using straight_ends [OF exchange_straight [OF assms(1,3) length_int_bytes [of "?o w1"] refl, where tab = tab and dest = "?d w2" and x = w1 and ps = "[(?d w1, ?b w2)]"]
        exchange_straight [OF assms(2,4) length_int_bytes [of "?o w2"] refl, where tab = tab and dest = "?d w1" and x = w2 and ps = "[(?d w2, ?b w1)]"], of 0 0 0 0]
    by (simp add: position_def grid_def lapi_AfterAlignmentInit_def k message_stored [OF a(1)] message_stored [OF a(2)])
qed

lemma data_arrives:
  assumes "lapi_idle w1 m1" "lapi_idle w2 m2" "knows w1 w2" and "bufflen (p_of w1) = int n" and "valid (lheap m1) (s_ptr (p_of w1)) n"
    and "load (lheap m1) (nbor_r_buff_offset (glob w1)) 4 = int_bytes off" and "- (2 ^ 31) \<le> off" "off < 2 ^ 31"
    and "int dest = int (entry (global_addr (glob w1)) (lnbor (prot (p_of w1)))) + off + (int (s_ptr (p_of w1)) - int (s_buff (p_of w1)))"
  shows "ends_in (lapi_step tab w1 w2)
    (\<lambda>s. s = opair_of (Ret w1) m1 (Ret w2) (m2\<lparr>lheap := store (lheap m2) dest (load (lheap m1) (s_ptr (p_of w1)) n)\<rparr>))
    (opair_of (lapi_SendData w1) m1 (lapi_RecvData w2) m2)" (is "?e (opair_of _ _ _ _)")
proof -
  let ?bs = "load (lheap m1) (s_ptr (p_of w1)) n" and ?tc = "t_cntr (glob w2)"
  let ?p = "put_and_wait (int n) dest (Mem (s_ptr (p_of w1))) w1 (Ret w1)"
  have i: "valid (lheap m1) (nbor_r_buff_offset (glob w1)) 4" "cntr m2 (t_cntr (glob w2)) = 0"
    using assms(1,2) by (simp_all add: lapi_idle_def)
  have src: "source_is (Mem (s_ptr (p_of w1))) (nat (int n)) (lheap m1) ?bs" using assms(5) by simp
  have "sint (le_word (int_bytes off)) = off"
    using assms(7,8) by (simp add: int_bytes_def sint_sbintrunc' signed_take_bit_int_eq_self)
  then have S: "moves (lview tab w1) (lapi_SendData w1) m1 = {(?p, m1, [])}"
    using i assms(4,6,9) by (simp add: lapi_SendData_def Let_def flip: assms(9))
  have R: "moves (lview tab w2) (lapi_RecvData w2) m2 = {}" using i by (simp add: lapi_RecvData_def)
  have fly: "?e (ostate (wait_l w1 (Ret w1)) (add_cntr (l_cntr (glob w1)) 1 m1) (lapi_RecvData w2) m2 (message ps ?tc) [])"
    if "arrives_as dest ?bs ps" for ps
    using straight_ends [OF sender_straight [OF assms(1,3) src, of 1 dest ps tab w1] receiver_straight [OF assms(2), of tab w2 ps], of 1 0 0 0] that
    by (simp add: position_def grid_def lapi_RecvData_def message_stored [OF that])
  have ex: "\<exists>ps. arrives_as dest ?bs ps"
    by (rule exI [of _ "[(dest, ?bs)]"]) (auto simp: arrives_as_def load_def)
  have nc: "lapi_SendData w1 = Call e k \<Longrightarrow> lapi_view tab nb e \<noteq> OFence x \<and> lapi_view tab nb e \<noteq> OSync x"
    "lapi_RecvData w2 = Call e k' \<Longrightarrow> lapi_view tab nb e \<noteq> OFence x \<and> lapi_view tab nb e \<noteq> OSync x"
    "?p = Call e k \<Longrightarrow> lapi_view tab nb e \<noteq> OFence x \<and> lapi_view tab nb e \<noteq> OSync x" for e k k' nb x
    using not_collective by (auto simp: lapi_SendData_def lapi_RecvData_def)
  have put: "?e (ostate ?p m1 (lapi_RecvData w2) m2 [] [])"
    by (rule ordered_ends) (simp_all only: R moves_put [OF src assms(3)], (use ex fly nc in fastforce)+)
  show ?thesis
    by (rule ordered_ends) (simp_all only: R S, (use put nc in fastforce)+)
qed

text \<open>
  C35: Messages over LAPI.  Two tasks that know each other's addresses and have no message on its way, in
  every run: a repeat count sent is the one received; \<open>AfterAlignmentInit\<close> on both sides ends with each
  having the other's offset in its variable; and a message sent to a task with a known offset ends up,
  whole, in its buffer at that offset, whatever the pieces it arrives in.  Nothing else changes, and
  the counters are back at zero.
\<close>

theorem lapi_messages_arrive:
  assumes "lapi_idle w1 m1" "lapi_idle w2 m2" "knows w1 w2" "knows w2 w1" and "bufflen (p_of w1) = int n"
    and "valid (lheap m1) (s_ptr (p_of w1)) n"
    and "load (lheap m1) (nbor_r_buff_offset (glob w1)) 4 = int_bytes off" and "- (2 ^ 31) \<le> off" "off < 2 ^ 31"
    and "int dest = int (entry (global_addr (glob w1)) (lnbor (prot (p_of w1)))) + off + (int (s_ptr (p_of w1)) - int (s_buff (p_of w1)))"
  shows "ends_in (lapi_step tab w1 w2)
      (\<lambda>s. s = opair_of (Ret w1) m1 (Ret (k, w2)) (m2\<lparr>lheap := store (lheap m2) (npRepeat (glob w2)) (le_bytes k)\<rparr>))
      (opair_of (lapi_SendRepeat k w1) m1 (lapi_RecvRepeat w2) m2) \<and>
    ends_in (lapi_step tab w1 w2)
      (\<lambda>s. s = opair_of
       (Ret w1) (m1\<lparr>lheap := store (lheap m1) (nbor_r_buff_offset (glob w1)) (int_bytes (int (r_buff (p_of w2)) - int (r_buff_orig (p_of w2))))\<rparr>)
       (Ret w2) (m2\<lparr>lheap := store (lheap m2) (nbor_r_buff_offset (glob w2)) (int_bytes (int (r_buff (p_of w1)) - int (r_buff_orig (p_of w1))))\<rparr>))
      (opair_of (lapi_AfterAlignmentInit w1) m1 (lapi_AfterAlignmentInit w2) m2) \<and>
    ends_in (lapi_step tab w1 w2)
      (\<lambda>s. s = opair_of (Ret w1) m1 (Ret w2) (m2\<lparr>lheap := store (lheap m2) dest (load (lheap m1) (s_ptr (p_of w1)) n)\<rparr>))
      (opair_of (lapi_SendData w1) m1 (lapi_RecvData w2) m2)"
  by (intro conjI repeat_arrives offsets_arrive data_arrives) (use assms in simp_all)

text \<open>Two announcements in a row: the sender's four steps, the arrivals, and the receiver's six.\<close>

lemma run_announce:
  assumes "lapi_idle w1 m1" "knows w1 w2"
    and "(lapi_step tab w1 w2)\<^sup>*\<^sup>* (ostate p m1 q m2 (r @ message [(npRepeat (glob w2), le_bytes n)] (t_cntr (glob w2))) []) s"
  shows "(lapi_step tab w1 w2)\<^sup>*\<^sup>* (ostate (andThen (lapi_SendRepeat n w1) (\<lambda>w. p)) m1 q m2 r []) s"
proof -
  let ?m = "message [(npRepeat (glob w2), le_bytes n)] (t_cntr (glob w2))"
  have S: "andThen (lapi_SendRepeat n w1) (\<lambda>w. p) = put_and_wait 4 (npRepeat (glob w2)) (Local (le_bytes n)) w1 p"
    using assms(2) by (simp add: lapi_SendRepeat_def put_and_wait_def knows_def Let_def)
  have 1: "(wait_l w1 p, add_cntr (l_cntr (glob w1)) 1 m1, ?m) \<in> moves (lview tab w1) (put_and_wait 4 (npRepeat (glob w2)) (Local (le_bytes n)) w1 p) m1"
    using moves_put [of "Local (le_bytes n)" 4 m1 "le_bytes n" w1 w2 tab "npRepeat (glob w2)" p] assms(2) by (simp add: arrives_short)
  have 2: "(p, m1, []) \<in> moves (lview tab w1) (wait_l w1 p) (add_cntr (l_cntr (glob w1)) 1 m1)"
    using assms(1) by (simp add: lapi_idle_def)
  show ?thesis
    unfolding S by (rule run_left [OF 1], rule run_left [OF 2]) (use assms(3) in simp)
qed

lemma run_reads:
  assumes "valid (lheap m2) (npRepeat (glob w2)) 4" and "1 \<le> cntr m2 (t_cntr (glob w2))"
    and "(lapi_step tab w1 w2)\<^sup>*\<^sup>* (ostate p m1 (f (le_word (load (lheap m2) (npRepeat (glob w2)) 4), w2))
       (add_cntr (t_cntr (glob w2)) (- 1) m2) [] []) s"
  shows "(lapi_step tab w1 w2)\<^sup>*\<^sup>* (ostate p m1 (andThen (lapi_RecvRepeat w2) f) m2 [] []) s"
proof -
  let ?n = "le_word (load (lheap m2) (npRepeat (glob w2)) 4)"
  let ?C = "clear_t w2 (f (?n, w2))"
  let ?L = "Call (Load (npRepeat (glob w2)) 4) (\<lambda>r. clear_t w2 (f (le_word (obytes r), w2)))"
  have R: "andThen (lapi_RecvRepeat w2) f = poll_t w2 ?L"
    by (simp add: lapi_RecvRepeat_def poll_t_def clear_t_def)
  have 1: "(?L, m2, []) \<in> moves (lview tab w2) (poll_t w2 ?L) m2" and 2: "(?C, m2, []) \<in> moves (lview tab w2) ?L m2"
    and 3: "(f (?n, w2), add_cntr (t_cntr (glob w2)) (- 1) m2, []) \<in> moves (lview tab w2) ?C m2"
    using assms(1,2) by simp_all
  show ?thesis
    unfolding R by (rule run_right [OF 1], rule run_right [OF 2], rule run_right [OF 3]) (use assms(3) in simp)
qed

text \<open>
  C36: The driver announces the size and the repeat count back to back, into the same variable.  There is
  a run of the two \<open>run_iters\<close> in which the repeat count overwrites the size before the receiver reads it: the
  receiver takes the repeat count for both.
\<close>

theorem lapi_announcement_lost:
  assumes "lapi_idle w1 m1" "lapi_idle w2 m2" "knows w1 w2" and "tr (p_of w1) \<noteq> 0" and "rcv (p_of w2) \<noteq> 0"
  shows "\<exists>s. (lapi_step tab w1 w2)\<^sup>*\<^sup>*
      (opair_of (netpipe_run_iters (lapi_module alloc L) fl1 (Some (sz, nrepeat)) w1) m1
                (netpipe_run_iters (lapi_module alloc L) fl2 None w2) m2) s \<and>
    oprog2 s = (if nrepeat = 0 then Ret (PyBuildNone, w2) else run_sized (lapi_module alloc L) fl2 nrepeat nrepeat w2)"
proof -
  let ?M = "lapi_module alloc L" and ?d = "npRepeat (glob w2)" and ?t = "t_cntr (glob w2)"
  define K where "K = (\<lambda>a (b, w). if a = 0 then Ret (PyBuildNone, w) else run_sized ?M fl2 a b w)"
  define B where "B = andThen (lapi_MyMalloc alloc (sint (size_bytes sz)) 0 0 (upd_args (\<lambda>a. a\<lparr>bufflen := sint (size_bytes sz)\<rparr>) w1))
     (allocated ?M fl1 sz nrepeat)"
  define m where "m = add_cntr ?t 1 (add_cntr ?t 1 (m2\<lparr>lheap := store (store (lheap m2) ?d (le_bytes sz)) ?d (le_bytes nrepeat)\<rparr>))"
  have i: "valid (lheap m2) ?d 4" "cntr m2 ?t = 0" using assms(2) by (simp_all add: lapi_idle_def)
  have ld: "load (lheap m) ?d 4 = le_bytes nrepeat" "valid (lheap m) ?d 4" "cntr m ?t = 2"
    using i load_store_same [of "store (lheap m2) ?d (le_bytes sz)" ?d "le_bytes nrepeat"] by (simp_all add: m_def)
  have T: "netpipe_run_iters ?M fl1 (Some (sz, nrepeat)) w1 = andThen (lapi_SendRepeat sz w1) (\<lambda>_. andThen (lapi_SendRepeat nrepeat w1) (\<lambda>_. B))"
    unfolding run_iters_begins [OF assms(4)] B_def by (simp add: lapi_SendRepeat_def put_and_wait_def Let_def)
  have R: "netpipe_run_iters ?M fl2 None w2 = andThen (lapi_RecvRepeat w2) (\<lambda>(a, w). andThen (lapi_RecvRepeat w) (K a))"
    using assms(5) by (simp add: netpipe_run_iters_def K_def)
  let ?s = "ostate B m1 (K nrepeat (nrepeat, w2)) (add_cntr ?t (- 1) (add_cntr ?t (- 1) m)) [] []"
  have "(lapi_step tab w1 w2)\<^sup>*\<^sup>* (ostate B m1 (andThen (lapi_RecvRepeat w2) (\<lambda>(a, w). andThen (lapi_RecvRepeat w) (K a))) m [] []) ?s"
    by (rule run_reads, simp_all add: ld, rule run_reads) (simp_all add: ld)
  then have "(lapi_step tab w1 w2)\<^sup>*\<^sup>* (ostate B m1 (andThen (lapi_RecvRepeat w2) (\<lambda>(a, w). andThen (lapi_RecvRepeat w) (K a))) m2
      (message [(?d, le_bytes sz)] ?t @ message [(?d, le_bytes nrepeat)] ?t) []) ?s"
    unfolding message_def by (simp, intro run_first) (simp add: m_def add_cntr_def)
  then have "(lapi_step tab w1 w2)\<^sup>*\<^sup>* (opair_of (netpipe_run_iters ?M fl1 (Some (sz, nrepeat)) w1) m1 (netpipe_run_iters ?M fl2 None w2) m2) ?s"
    unfolding T R by (intro run_announce [OF assms(1,3)]) simp
  then show ?thesis by (intro exI [of _ ?s]) (simp add: K_def)
qed

section \<open>Examples\<close>

text \<open>
  Two tasks after \<open>Setup\<close> and \<open>MyMalloc\<close>: the counters at 1, 2 and 3, the repeat count at 16, the offset at 24, the receive
  buffer at 64, the send buffer at 32.
\<close>

definition lapi_start :: "int \<Rightarrow> lapi_world" where
  "lapi_start i = \<lparr>self = \<lparr>args = (zero_args \<lparr>lnbor = 1 - i\<rparr>)\<lparr>tr := 1 - i, rcv := i, bufflen := 10, r_buff := 64, r_buff_orig := 64,
       s_buff := 32, s_ptr := 32, r_ptr := 64\<rparr>,
     outname = [], len_buf_align = 0, asyncReceive = 0, bufalign = 0, streamopt = 0, integCheck = 0\<rparr>,
     heap = \<lparr>hbytes = (\<lambda>_. 0), hblocks = []\<rparr>, lfsr_data = 0, fcflag = 0,
     glob = \<lparr>t_hndl = 9, l_cntr = 1, t_cntr = 2, c_cntr = 3, global_addr = (64, 64), tgt_addr = (2, 2), rpt_addr = (16, 16), time_addr = (0, 0),
       offset_addr = (24, 24), npRepeat = 16, nbor_r_buff_offset = 24\<rparr>, out = []\<rparr>"

definition lapi_memory :: "nat \<Rightarrow> lapi_mem" where
  "lapi_memory x = \<lparr>lheap = \<lparr>hbytes = (\<lambda>a. if 32 \<le> a \<and> a < 42 then of_nat (x * a) else 0), hblocks = [(16, 4), (24, 4), (32, 10), (64, 10)]\<rparr>,
     cntr = (\<lambda>_. 0)\<rparr>"

lemma lapi_start_ready:
  "lapi_idle (lapi_start i) (lapi_memory x)" "knows (lapi_start i) (lapi_start j)"
  by (simp_all add: lapi_idle_def lapi_start_def lapi_memory_def knows_def entry_def valid_def)

lemma lapi_start_simps:
  "tr (p_of (lapi_start i)) = 1 - i" "rcv (p_of (lapi_start i)) = i" "bufflen (p_of (lapi_start i)) = 10" "s_ptr (p_of (lapi_start i)) = 32"
  "s_buff (p_of (lapi_start i)) = 32" "nbor_r_buff_offset (glob (lapi_start i)) = 24"
  "entry (global_addr (glob (lapi_start i))) (lnbor (prot (p_of (lapi_start i)))) = 64"
  by (simp_all add: lapi_start_def zero_args_def entry_def)

theorem lapi_messages_arrive_witness:
  "ends_in (lapi_step (\<lambda>_. (0, 0)) (lapi_start 0) (lapi_start 1))
      (\<lambda>s. s = opair_of (Ret (lapi_start 0)) (lapi_memory 1) (Ret (lapi_start 1))
         ((lapi_memory 0)\<lparr>lheap := store (lheap (lapi_memory 0)) 64 (map of_nat [32..<42])\<rparr>))
      (opair_of (lapi_SendData (lapi_start 0)) (lapi_memory 1) (lapi_RecvData (lapi_start 1)) (lapi_memory 0))"
proof -
  have "load (lheap (lapi_memory 1)) 32 10 = map of_nat [32..<42]" "load (lheap (lapi_memory 1)) 24 4 = int_bytes 0"
    "valid (lheap (lapi_memory 1)) 32 10"
    by (simp_all add: load_def lapi_memory_def upt_rec valid_def int_bytes_def le_bytes_def)
  then show ?thesis
    using lapi_messages_arrive [where ?w1.0 = "lapi_start 0" and ?w2.0 = "lapi_start 1" and ?m1.0 = "lapi_memory 1" and ?m2.0 = "lapi_memory 0"
        and n = 10 and off = 0 and dest = 64 and tab = "\<lambda>_. (0, 0)"] lapi_start_ready
    by (simp add: lapi_start_simps)
qed

theorem lapi_announcement_lost_witness:
  "\<exists>s. (lapi_step (\<lambda>_. (0, 0)) (lapi_start 0) (lapi_start 1))\<^sup>*\<^sup>*
      (opair_of (netpipe_run_iters (lapi_module bump lfsr23) id (Some (800, 3)) (lapi_start 0)) (lapi_memory 0)
                (netpipe_run_iters (lapi_module bump lfsr23) id None (lapi_start 1)) (lapi_memory 0)) s \<and>
    oprog2 s = run_sized (lapi_module bump lfsr23) id 3 3 (lapi_start 1)"
  using lapi_announcement_lost [where ?w1.0 = "lapi_start 0" and ?w2.0 = "lapi_start 1" and ?m1.0 = "lapi_memory 0" and ?m2.0 = "lapi_memory 0"
      and tab = "\<lambda>_. (0, 0)" and alloc = bump and L = lfsr23 and ?fl1.0 = id and ?fl2.0 = id and sz = 800 and nrepeat = 3]
    lapi_start_ready by (simp add: lapi_start_simps)

end
