(* ===== verification/Gm.thy ===== *)
theory Gm
  imports Onesided
begin

text \<open>
  The Myrinet module \<open>gm.c\<close>.  Messages are sent from and received into memory that the adapter can
  reach; a receiver provides a buffer and then polls for events.  Short messages come in the event
  itself and have to be copied out, longer ones are in the buffer when the event comes.
\<close>

section \<open>Calls and state\<close>

text \<open>
  The calls of the GM library.  The priority and the callback, which are always the same, are left out.
  The reply to \<open>Gm_receive\<close> is the event: \<open>oval\<close> shows its type (0 no event, 1 a message, 2 a message from a
  peer, 3 a fast message from a peer, anything else another event), the first number is the length,
  the second the sender's node, and the bytes are those of the message.
\<close>

datatype gm_call =
    Gm_open
  | Gm_host_name_to_node_id nat string
  | Gm_num_send_tokens nat
  | Gm_free_send_tokens nat int
  | Gm_dma_malloc nat nat
  | Gm_dma_calloc nat nat nat
  | Gm_dma_free nat addr
  | Gm_min_size_for_length int
  | Gm_send_to_peer nat addr int int "16 word"
  | Gm_provide_receive_buffer nat addr int
  | Gm_receive nat
  | Gm_unknown nat
  | Gm_perror int
  | Sleep int
  | Gm_close nat
  | Gm_exit
  | Gm_finalize

datatype gm_status = GM_SUCCESS | GM_SEND_DROPPED | GM_FAILED int

record GmProt =
  num_stokens :: int
  host_id :: "16 word"

record gm_glob =
  gm_p :: nat
  ltime :: addr
  lrpt :: addr
  sync :: addr
  sync1 :: addr

type_synonym gm_world = "(GmProt, gm_glob) world"
type_synonym 'a gm_prog = "(gm_call, 'a) os_prog"

definition upd_gm :: "(gm_glob \<Rightarrow> gm_glob) \<Rightarrow> gm_world \<Rightarrow> gm_world" where
  "upd_gm f w = w\<lparr>glob := f (glob w)\<rparr>"

definition upd_gprot :: "(GmProt \<Rightarrow> GmProt) \<Rightarrow> gm_world \<Rightarrow> gm_world" where
  "upd_gprot f = upd_args (\<lambda>a. a\<lparr>prot := f (prot a)\<rparr>)"

text \<open>The bytes of an \<open>unsigned long\<close>, and of a C string.\<close>

definition ulong_bytes :: "64 word \<Rightarrow> byte list" where
  "ulong_bytes x = le_bytes (ucast x) @ le_bytes (ucast (drop_bit 32 x))"

definition bytes_ulong :: "byte list \<Rightarrow> 64 word" where
  "bytes_ulong bs = ucast (le_word (take 4 bs)) + push_bit 32 (ucast (le_word (drop 4 bs)))"

definition chars :: "string \<Rightarrow> byte list" where
  "chars s = map of_char s"

definition strlen :: "byte list \<Rightarrow> nat" where
  "strlen bs = length (takeWhile (\<lambda>b. b \<noteq> 0) bs)"

definition double_to_ulong :: "real \<Rightarrow> 64 word res" where
  "double_to_ulong x = (if - 1 < x \<and> x < 2 ^ 64
     then Inr (word_of_int (if 0 \<le> x then \<lfloor>x\<rfloor> else \<lceil>x\<rceil>)) else Inl BadConversion)"

section \<open>Events\<close>

definition my_send_callback :: "gm_status \<Rightarrow> unit gm_prog" where
  "my_send_callback status = (case status of
       GM_SUCCESS \<Rightarrow> Ret ()
     | GM_SEND_DROPPED \<Rightarrow> Ret ()
     | GM_FAILED n \<Rightarrow> Call (Lib (Gm_perror n)) (\<lambda>_. Ret ()))"

definition recv_length :: "os_reply \<Rightarrow> int" where
  "recv_length r = sint (word_of_nat (onum r 0) :: u32)"

text \<open>
  The loop of \<open>readFully\<close>; the first argument bounds the number of events.  A fast message is copied to the
  beginning of the buffer, whatever came before.
\<close>

primrec readFully_events :: "nat \<Rightarrow> nat \<Rightarrow> addr \<Rightarrow> int \<Rightarrow> unit gm_prog" where
  "readFully_events 0 gm buff bytesLeft = (if bytesLeft \<le> 0 then Ret () else Abort OutOfFuel)"
| "readFully_events (Suc n) gm buff bytesLeft =
     (if bytesLeft \<le> 0 then Ret ()
      else Call (Lib (Gm_receive gm)) (\<lambda>e.
      if oval e = 3
      then let bytesRead = recv_length e in
           if bytesRead < 0 then Abort BadAccess
           else Call (Store buff (take (nat bytesRead) (obytes e))) (\<lambda>_. readFully_events n gm buff (bytesLeft - bytesRead))
      else if oval e = 1 \<or> oval e = 2 then readFully_events n gm buff (bytesLeft - recv_length e)
      else if oval e = 0 then readFully_events n gm buff bytesLeft
      else Call (Lib (Gm_unknown gm)) (\<lambda>_. readFully_events n gm buff bytesLeft)))"

definition gm_readFully :: "nat \<Rightarrow> addr \<Rightarrow> int \<Rightarrow> gm_world \<Rightarrow> unit gm_prog" where
  "gm_readFully fuel buff len w = readFully_events fuel (gm_p (glob w)) buff len"

text \<open>The loop of \<open>establish\<close>: wait for the first message and keep its sender.\<close>

primrec first_message :: "nat \<Rightarrow> gm_world \<Rightarrow> gm_world gm_prog" where
  "first_message 0 w = Abort OutOfFuel"
| "first_message (Suc n) w =
     Call (Lib (Gm_receive (gm_p (glob w)))) (\<lambda>e.
     if oval e = 1 \<or> oval e = 2 \<or> oval e = 3 then Ret (upd_gprot (\<lambda>q. q\<lparr>host_id := word_of_nat (onum e 1)\<rparr>) w)
     else if oval e = 0 then first_message n w
     else Call (Lib (Gm_unknown (gm_p (glob w)))) (\<lambda>_. first_message n w))"

section \<open>The functions\<close>

definition gm_Init :: "gm_world \<Rightarrow> gm_world gm_prog" where
  "gm_Init w = Ret (upd_args (\<lambda>p. p\<lparr>tr := 0, rcv := 1\<rparr>) w)"

definition gm_establish :: "nat \<Rightarrow> gm_world \<Rightarrow> gm_world gm_prog" where
  "gm_establish fuel w =
     Call (Lib (Gm_dma_calloc (gm_p (glob w)) 1 64)) (\<lambda>r.
     let w = upd_args (\<lambda>p. p\<lparr>r_buff := nat (oval r)\<rparr>) w in
     if r_buff (p_of w) = 0 then Abort (Exit 0)
     else
     Call (Lib (Gm_dma_calloc (gm_p (glob w)) 1 64)) (\<lambda>r.
     let w = upd_args (\<lambda>p. p\<lparr>s_buff := nat (oval r)\<rparr>) w in
     if s_buff (p_of w) = 0 then Abort (Exit 0)
     else if tr (p_of w) \<noteq> 0
     then Call (Store (s_buff (p_of w)) (chars ''this is the sender!!'' @ [0])) (\<lambda>_.
          Call (Lib (Gm_send_to_peer (gm_p (glob w)) (s_buff (p_of w)) 7 20 (host_id (prot (p_of w))))) (\<lambda>_. Ret w))
     else Call (Lib (Gm_provide_receive_buffer (gm_p (glob w)) (r_buff (p_of w)) 7)) (\<lambda>_. first_message fuel w)))"

definition gm_Setup :: "nat \<Rightarrow> gm_world \<Rightarrow> gm_world gm_prog" where
  "gm_Setup fuel w =
     Call (Lib Gm_open) (\<lambda>r.
     let w = upd_gm (\<lambda>g. g\<lparr>gm_p := onum r 0\<rparr>) w in
     if oval r \<noteq> 0 then Abort (Exit (- 1))
     else
     andThen (if tr (p_of w) \<noteq> 0
              then Call (Lib (Gm_host_name_to_node_id (gm_p (glob w)) (host (p_of w)))) (\<lambda>r.
                   Ret (upd_gprot (\<lambda>q. q\<lparr>host_id := word_of_int (oval r)\<rparr>) w))
              else Ret w) (\<lambda>w.
     Call (Lib (Gm_num_send_tokens (gm_p (glob w)))) (\<lambda>r.
     Call (Lib (Gm_free_send_tokens (gm_p (glob w)) (oval r))) (\<lambda>_.
     Call (Lib (Gm_dma_malloc (gm_p (glob w)) 8)) (\<lambda>r. let w = upd_gm (\<lambda>g. g\<lparr>ltime := nat (oval r)\<rparr>) w in
     Call (Lib (Gm_dma_malloc (gm_p (glob w)) 8)) (\<lambda>r. let w = upd_gm (\<lambda>g. g\<lparr>lrpt := nat (oval r)\<rparr>) w in
     Call (Lib (Gm_dma_malloc (gm_p (glob w)) 64)) (\<lambda>r. let w = upd_gm (\<lambda>g. g\<lparr>sync := nat (oval r)\<rparr>) w in
     Call (Lib (Gm_dma_malloc (gm_p (glob w)) 64)) (\<lambda>r. let w = upd_gm (\<lambda>g. g\<lparr>sync1 := nat (oval r)\<rparr>) w in
     Call (Store (sync (glob w)) (chars ''Syncme'' @ [0])) (\<lambda>_.
     andThen (gm_establish fuel w) (\<lambda>w.
     Call (Lib (Gm_num_send_tokens (gm_p (glob w)))) (\<lambda>r.
     Ret (upd_gprot (\<lambda>q. q\<lparr>num_stokens := oval r\<rparr>) w))))))))))))"

text \<open>Send \<open>len\<close> bytes in a message of the size class for \<open>n\<close>; provide a buffer of that class.\<close>

definition gm_send :: "addr \<Rightarrow> int \<Rightarrow> int \<Rightarrow> gm_world \<Rightarrow> unit gm_prog" where
  "gm_send a n len w =
     Call (Lib (Gm_min_size_for_length n)) (\<lambda>r.
     Call (Lib (Gm_send_to_peer (gm_p (glob w)) a (oval r) len (host_id (prot (p_of w))))) (\<lambda>_. Ret ()))"

definition gm_provide :: "addr \<Rightarrow> int \<Rightarrow> gm_world \<Rightarrow> unit gm_prog" where
  "gm_provide a n w =
     Call (Lib (Gm_min_size_for_length n)) (\<lambda>r.
     Call (Lib (Gm_provide_receive_buffer (gm_p (glob w)) a (oval r))) (\<lambda>_. Ret ()))"

definition gm_Sync :: "nat \<Rightarrow> gm_world \<Rightarrow> gm_world gm_prog" where
  "gm_Sync fuel w =
     Call (Load (sync (glob w)) 64) (\<lambda>r.
     let len = int (strlen (obytes r)) in
     andThen (gm_send (sync (glob w)) len (len + 1) w) (\<lambda>_.
     andThen (gm_provide (sync1 (glob w)) len w) (\<lambda>_.
     andThen (gm_readFully fuel (sync1 (glob w)) (len + 1) w) (\<lambda>_. Ret w))))"

definition gm_SendData :: "gm_world \<Rightarrow> gm_world gm_prog" where
  "gm_SendData w = andThen (gm_send (s_ptr (p_of w)) (bufflen (p_of w)) (bufflen (p_of w)) w) (\<lambda>_. Ret w)"

definition gm_RecvData :: "nat \<Rightarrow> gm_world \<Rightarrow> gm_world gm_prog" where
  "gm_RecvData fuel w =
     andThen (gm_provide (r_ptr (p_of w)) (bufflen (p_of w)) w) (\<lambda>_.
     andThen (gm_readFully fuel (r_ptr (p_of w)) (bufflen (p_of w)) w) (\<lambda>_. Ret w))"

definition gm_SendTime :: "(real \<Rightarrow> real) \<Rightarrow> real \<Rightarrow> gm_world \<Rightarrow> gm_world gm_prog" where
  "gm_SendTime fl t w =
     andThen (lift (double_to_ulong (fl (t * 10 ^ 6)))) (\<lambda>x.
     Call (Store (ltime (glob w)) (ulong_bytes x)) (\<lambda>_.
     andThen (gm_send (ltime (glob w)) 8 8 w) (\<lambda>_. Ret w)))"

definition gm_RecvTime :: "(real \<Rightarrow> real) \<Rightarrow> nat \<Rightarrow> gm_world \<Rightarrow> (real \<times> gm_world) gm_prog" where
  "gm_RecvTime fl fuel w =
     andThen (gm_provide (ltime (glob w)) 8 w) (\<lambda>_.
     andThen (gm_readFully fuel (ltime (glob w)) 8 w) (\<lambda>_.
     Call (Load (ltime (glob w)) 8) (\<lambda>r.
     Ret (fl (fl (real (unat (bytes_ulong (obytes r)))) / 10 ^ 6), w))))"

definition gm_SendRepeat :: "u32 \<Rightarrow> gm_world \<Rightarrow> gm_world gm_prog" where
  "gm_SendRepeat rpt w =
     Call (Store (lrpt (glob w)) (ulong_bytes (scast rpt))) (\<lambda>_.
     andThen (gm_send (lrpt (glob w)) 8 8 w) (\<lambda>_. Ret w))"

definition gm_RecvRepeat :: "nat \<Rightarrow> gm_world \<Rightarrow> (u32 \<times> gm_world) gm_prog" where
  "gm_RecvRepeat fuel w =
     andThen (gm_provide (lrpt (glob w)) 8 w) (\<lambda>_.
     andThen (gm_readFully fuel (lrpt (glob w)) 8 w) (\<lambda>_.
     Call (Load (lrpt (glob w)) 8) (\<lambda>r. Ret (ucast (bytes_ulong (obytes r)), w))))"

definition gm_CleanUp :: "gm_world \<Rightarrow> gm_world gm_prog" where
  "gm_CleanUp w =
     Call (Lib (Sleep 2)) (\<lambda>_. Call (Lib (Gm_close (gm_p (glob w)))) (\<lambda>_.
     Call (Lib Gm_exit) (\<lambda>_. Call (Lib Gm_finalize) (\<lambda>_. Ret w))))"

definition gm_MyMalloc :: "int \<Rightarrow> int \<Rightarrow> int \<Rightarrow> gm_world \<Rightarrow> gm_world gm_prog" where
  "gm_MyMalloc len soff roff w =
     Call (Lib (Gm_dma_malloc (gm_p (glob w)) (unat (size_t (len + CMAX soff roff))))) (\<lambda>r.
     let w = upd_args (\<lambda>a. a\<lparr>r_buff := nat (oval r)\<rparr>) w in
     if r_buff (p_of w) = NULL then Abort (Exit (- 1))
     else if cache (p_of w) \<noteq> 0 then Ret w
     else Call (Lib (Gm_dma_malloc (gm_p (glob w)) (unat (size_t (len + soff))))) (\<lambda>r.
          let w = upd_args (\<lambda>a. a\<lparr>s_buff := nat (oval r)\<rparr>) w in
          if s_buff (p_of w) = NULL then Abort (Exit (- 1)) else Ret w))"

definition gm_FreeBuff :: "addr \<Rightarrow> addr \<Rightarrow> gm_world \<Rightarrow> gm_world gm_prog" where
  "gm_FreeBuff buff1 buff2 w =
     andThen (if buff1 \<noteq> NULL then Call (Lib (Gm_dma_free (gm_p (glob w)) buff1)) (\<lambda>_. Ret ()) else Ret ()) (\<lambda>_.
     andThen (if buff2 \<noteq> NULL then Call (Lib (Gm_dma_free (gm_p (glob w)) buff2)) (\<lambda>_. Ret ()) else Ret ()) (\<lambda>_. Ret w))"

text \<open>\<open>PrepareToReceive\<close>, \<open>Reset\<close> and \<open>AfterAlignmentInit\<close> do nothing.\<close>

definition gm_module :: "lfsr \<Rightarrow> nat \<Rightarrow> (gm_call os_ev, os_reply, GmProt, gm_glob) comm_module" where
  "gm_module L fuel =
     \<lparr>mInit = gm_Init, mSetup = gm_Setup fuel, mSendRepeat = gm_SendRepeat, mRecvRepeat = gm_RecvRepeat fuel,
      mMyMalloc = gm_MyMalloc, mInitBufferData = (\<lambda>n so ro. on_shared (InitBufferData L n so ro)),
      mAfterAlignmentInit = Ret, mPrepareToReceive = Ret, mSync = gm_Sync fuel,
      mSendData = gm_SendData, mRecvData = gm_RecvData fuel,
      mCheckBufferData = (\<lambda>n so ro. on_shared (CheckBufferData L n so ro)),
      mFreeBuff = gm_FreeBuff\<rparr>"

section \<open>The adapter\<close>

text \<open>
  What \<open>gm_receive\<close> finds: nothing, a message that the adapter has written into the first buffer provided,
  a short message that comes with the event, or something that is not a message.
\<close>

datatype gm_event = NoEvent | Peer "byte list" | Fast "byte list" | OtherEvent

definition event_reply :: "int \<Rightarrow> byte list \<Rightarrow> os_reply" where
  "event_reply i bs = os_ok\<lparr>oval := i, oaddrs := [length bs], obytes := bs\<rparr>"

text \<open>
  A program run against a list of events: the rest of the program, of the events and of the buffers
  provided, and the memory.  It stops when it needs an event and there is none, or at an invalid access.
\<close>

type_synonym 'a gm_state = "'a gm_prog \<times> gm_event list \<times> addr list \<times> cheap"

primrec gm_exec :: "'a gm_prog \<Rightarrow> gm_event list \<Rightarrow> addr list \<Rightarrow> cheap \<Rightarrow> 'a gm_state" where
  "gm_exec (Ret x) es bufs h = (Ret x, es, bufs, h)"
| "gm_exec (Abort e) es bufs h = (Abort e, es, bufs, h)"
| "gm_exec (Clock k) es bufs h = (Clock k, es, bufs, h)"
| "gm_exec (Call e k) es bufs h =
     (case e of
        Load a n \<Rightarrow> if valid h a n then gm_exec (k (os_ok\<lparr>obytes := load h a n\<rparr>)) es bufs h else (Call e k, es, bufs, h)
      | Store a bs \<Rightarrow> if valid h a (length bs) then gm_exec (k os_ok) es bufs (store h a bs) else (Call e k, es, bufs, h)
      | Lib (Gm_provide_receive_buffer gm a n) \<Rightarrow> gm_exec (k os_ok) es (bufs @ [a]) h
      | Lib (Gm_receive gm) \<Rightarrow> (case es of
            [] \<Rightarrow> (Call e k, es, bufs, h)
          | NoEvent # es' \<Rightarrow> gm_exec (k (event_reply 0 [])) es' bufs h
          | OtherEvent # es' \<Rightarrow> gm_exec (k (event_reply 4 [])) es' bufs h
          | Fast bs # es' \<Rightarrow> gm_exec (k (event_reply 3 bs)) es' (tl bufs) h
          | Peer bs # es' \<Rightarrow> if bufs = [] \<or> \<not> valid h (hd bufs) (length bs) then (Call e k, es, bufs, h)
              else gm_exec (k (event_reply 2 bs)) es' (tl bufs) (store h (hd bufs) bs))
      | Lib c \<Rightarrow> gm_exec (k os_ok) es bufs h
      | _ \<Rightarrow> (Call e k, es, bufs, h))"

text \<open>The bytes that come with a list of events, and the memory when all that come fast are copied to the same place.\<close>

fun ev_len :: "gm_event \<Rightarrow> nat" where
  "ev_len (Fast bs) = length bs"
| "ev_len (Peer bs) = length bs"
| "ev_len _ = 0"

fun noise :: "gm_event \<Rightarrow> bool" where
  "noise NoEvent = True"
| "noise OtherEvent = True"
| "noise _ = False"

fun fast_ok :: "cheap \<Rightarrow> addr \<Rightarrow> gm_event \<Rightarrow> bool" where
  "fast_ok h a (Fast bs) \<longleftrightarrow> valid h a (length bs) \<and> length bs < 2 ^ 31"
| "fast_ok h a e \<longleftrightarrow> noise e"

fun copied :: "addr \<Rightarrow> gm_event \<Rightarrow> cheap \<Rightarrow> cheap" where
  "copied a (Fast bs) h = store h a bs"
| "copied a _ h = h"

lemma recv_length_event [simp]: "length bs < 2 ^ 31 \<Longrightarrow> recv_length (event_reply i bs) = int (length bs)"
proof -
  assume l: "length bs < 2 ^ 31"
  have "sint (word_of_int (int (length bs)) :: u32) = int (length bs)"
    unfolding sint_sbintrunc' by (rule signed_take_bit_int_eq_self) (use l in simp_all)
  then show ?thesis by (simp add: recv_length_def event_reply_def onum_def)
qed

lemma event_reply_simps [simp]: "oval (event_reply i bs) = i" "obytes (event_reply i bs) = bs"
  by (simp_all add: event_reply_def)

lemma fast_ok_copied: "fast_ok (copied a e h) b x = fast_ok h b x"
  by (cases e; cases x) simp_all

lemma gm_exec_andThen:
  "gm_exec p es bufs h = (Ret x, es', bufs', h') \<Longrightarrow> gm_exec (andThen p f) es bufs h = gm_exec (f x) es' bufs' h'"
  by (induction p arbitrary: es bufs h) (auto split: os_ev.splits gm_call.splits list.splits gm_event.splits if_splits)

lemma readFully_fast:
  assumes "\<forall>e \<in> set es. fast_ok h a e" and "es \<noteq> []" and "length es \<le> fuel"
    and "int (sum_list (map ev_len (butlast es))) < n" and "n \<le> int (sum_list (map ev_len es))"
  shows "\<exists>bufs'. gm_exec (readFully_events fuel gm a n) (es @ rest) bufs h = (Ret (), rest, bufs', fold (copied a) es h)"
  using assms
proof (induction es arbitrary: n fuel h bufs)
  case (Cons e es)
  then obtain m where f: "fuel = Suc m" "length es \<le> m" by (cases fuel) auto
  have n: "0 < n" using Cons.prems(4) by (cases es) auto
  have last: "n \<le> int (ev_len e)" if "es = []" using Cons.prems(5) that by simp
  have ih: "\<exists>bufs'. gm_exec (readFully_events m gm a (n - int (ev_len e))) (es @ rest) bufs (copied a e h) =
      (Ret (), rest, bufs', fold (copied a) es (copied a e h))" for bufs
  proof (cases "es = []")
    case True
    then show ?thesis using last by (cases m) simp_all
  next
    case False
    show ?thesis
      by (rule Cons.IH) (use Cons.prems f False in \<open>auto simp: fast_ok_copied\<close>)
  qed
  show ?case
  proof (cases e)
    case (Fast bs)
    then show ?thesis using n f(1) Cons.prems(1) ih [of "tl bufs"] by simp
  next
    case NoEvent
    then show ?thesis using n f(1) ih [of bufs] by simp
  next
    case OtherEvent
    then show ?thesis using n f(1) ih [of bufs] by simp
  next
    case (Peer bs)
    then show ?thesis using Cons.prems(1) by simp
  qed
qed simp

lemma readFully_peer:
  assumes "\<forall>e \<in> set es. noise e" and "length es < fuel" and "0 < length bs" and "length bs < 2 ^ 31" and "valid h a (length bs)"
  shows "gm_exec (readFully_events fuel gm b (int (length bs))) (es @ Peer bs # rest) [a] h = (Ret (), rest, [], store h a bs)"
  using assms(1,2)
proof (induction es arbitrary: fuel)
  case Nil
  then obtain m where "fuel = Suc m" by (cases fuel) auto
  with assms(3-5) show ?case by (cases m) auto
next
  case (Cons e es)
  then obtain m where f: "fuel = Suc m" "length es < m" by (cases fuel) auto
  with Cons assms(3) show ?case by (cases e) (simp_all add: assms(3))
qed

lemma readFully_waits:
  assumes "\<forall>e \<in> set es. fast_ok h a e" and "length es < fuel" and "int (sum_list (map ev_len es)) < n"
  shows "\<exists>k. fst (gm_exec (readFully_events fuel gm a n) es bufs h) = Call (Lib (Gm_receive gm)) k"
  using assms
proof (induction es arbitrary: n fuel h bufs)
  case Nil
  then obtain m where "fuel = Suc m" by (cases fuel) auto
  with Nil show ?case by simp
next
  case (Cons e es)
  then obtain m where f: "fuel = Suc m" "length es < m" by (cases fuel) auto
  have ih: "\<exists>k. fst (gm_exec (readFully_events m gm a (n - int (ev_len e))) es bufs (copied a e h)) = Call (Lib (Gm_receive gm)) k" for bufs
    by (rule Cons.IH) (use Cons.prems f in \<open>auto simp: fast_ok_copied\<close>)
  have n: "0 < n" using Cons.prems(3) by simp
  show ?case
  proof (cases e)
    case (Fast bs)
    then show ?thesis using n f(1) Cons.prems(1) ih [of "tl bufs"] by simp
  next
    case NoEvent
    then show ?thesis using n f(1) ih [of bufs] by simp
  next
    case OtherEvent
    then show ?thesis using n f(1) ih [of bufs] by simp
  next
    case (Peer bs)
    then show ?thesis using Cons.prems(1) by simp
  qed
qed

lemma waits_andThen:
  "fst (gm_exec p es bufs h) = Call (Lib (Gm_receive gm)) k \<Longrightarrow>
   fst (gm_exec (andThen p f) es bufs h) = Call (Lib (Gm_receive gm)) (\<lambda>r. andThen (k r) f)"
  by (induction p arbitrary: es bufs h) (auto split: os_ev.splits gm_call.splits list.splits gm_event.splits if_splits)

lemma RecvData_reads:
  "gm_exec (gm_RecvData fuel w) es [] h =
     gm_exec (andThen (readFully_events fuel (gm_p (glob w)) (r_ptr (p_of w)) (bufflen (p_of w))) (\<lambda>_. Ret w)) es [r_ptr (p_of w)] h"
  by (simp add: gm_RecvData_def gm_provide_def gm_readFully_def)


section \<open>Examples\<close>

text \<open>A receiver with a buffer of two bytes at 64.\<close>

definition gm_start :: gm_world where
  "gm_start = \<lparr>self = \<lparr>args = (zero_args \<lparr>num_stokens = 0, host_id = 5\<rparr>)\<lparr>rcv := 1, bufflen := 2, r_ptr := 64\<rparr>,
     outname = [], len_buf_align = 0, asyncReceive = 0, bufalign = 0, streamopt = 0, integCheck = 0\<rparr>,
     heap = \<lparr>hbytes = (\<lambda>_. 0), hblocks = []\<rparr>, lfsr_data = 0, fcflag = 0,
     glob = \<lparr>gm_p = 3, ltime = 16, lrpt = 24, sync = 128, sync1 = 192\<rparr>, out = []\<rparr>"

definition gm_memory :: cheap where
  "gm_memory = \<lparr>hbytes = (\<lambda>_. 0), hblocks = [(64, 2)]\<rparr>"


end
