(* ===== verification/Spec2Isabelle.thy ===== *)
theory Spec2Isabelle
  imports Tcp_Paths Memcpy_Run Mpi Mpi2 Mpi_Atoa Pvm Tcgmsg Gpshmem Armci Ibv_Run Vapi_Run Lapi Gm
begin

text \<open>
  \<^bold>\<open>NetPIPE 5.\<close>  NetPIPE measures the time that messages of given sizes take between two processes.  The
  program is a Python extension module: \<open>src/netpipe.c\<close> defines a Python object with a method
  \<open>run_iters\<close>, and is linked with one communication module (\<open>tcp.c\<close>, \<open>mpi.c\<close>, ...) that supplies the functions
  declared in \<open>netpipe.h\<close> (\<open>Init\<close>, \<open>Setup\<close>, \<open>Sync\<close>, \<open>SendData\<close>, \<open>RecvData\<close>, \<open>SendRepeat\<close>, \<open>RecvRepeat\<close>, ...).  One call of \<open>run_iters\<close> announces
  size and repeat count to the other side, allocates and fills buffers, synchronises, exchanges
  the message the given number of times, checks the received pattern and releases the buffers.

  \<^bold>\<open>How C code is modelled.\<close>  A function that makes no external call is a HOL function on the process's
  state with a result \<open>'a res\<close> (an error or a value); one that does is an interaction program
  \<open>('e, 'r, 'a) prog\<close> (\<open>NP_Prog\<close>): a tree of external calls, each with a continuation for every possible reply.
  \<open>exit\<close>, undefined accesses and the like are values of \<open>cerr\<close>.  Memory is a byte-addressed
  heap with blocks (\<open>NP_Prelude\<close>); machine integers are words; \<open>double\<close> arithmetic is real arithmetic followed by an arbitrary
  rounding \<open>fl\<close>.  The libraries outside the repository (sockets, MPI, PVM, SHMEM, verbs, ...) are never defined: a theorem
  either quantifies over all replies, or states in a step relation or a device what the library's
  documentation says its calls do.

  \<^bold>\<open>Theories.\<close>
  \<^item> \<open>NP_Prelude\<close>, \<open>NP_Prog\<close>, \<open>NP_Types\<close>: bytes, words, heap and allocator; interaction programs with scripts, bounds on calls,
    weakest preconditions on a device with a state, and runs that end; the structures of \<open>netpipe.h\<close>.
  \<^item> \<open>Lfsr\<close>, \<open>Buffers\<close>: the shift registers and the pattern they write and check, and the other buffer routines of \<open>netpipe.c\<close>.  A
    pattern that is set passes the check, damage is reported, allocation gives disjoint buffers
    that are released, the walking pointers stay inside.
  \<^item> \<open>Netpipe\<close>, \<open>Driver\<close>: the Python object and \<open>run_iters\<close> over a record of module functions; the locales
    \<open>buffer_module\<close>, \<open>timed_module\<close>, \<open>exchange_module\<close> and \<open>transfer_module\<close> say what the driver relies on, and inside them the script of \<open>run_iters\<close> is
    derived once.  Every module below that keeps to them is an interpretation.
  \<^item> \<open>Sockets\<close>, \<open>Tcp\<close>, \<open>Tcp_Run\<close>, \<open>Tcp_Paths\<close>: \<open>tcp.c\<close> over stream sockets.  Two processes running \<open>run_iters\<close> end, under every schedule and
    every cutting of the streams, with the pattern received; termination of the transfer loops in
    every environment, error paths, connection set-up, precision of the times.
  \<^item> \<open>Messages\<close>, \<open>Message_Run\<close>, \<open>Mpi\<close>, \<open>Pvm\<close>, \<open>Tcgmsg\<close>, \<open>Mpi2\<close>, \<open>Mpi_Atoa\<close>: the message-passing modules, buffered or not, the one-sided MPI-2 module with
    fences and the collective module.
  \<^item> \<open>Mp_Memcpy\<close>, \<open>Memcpy_Run\<close>: the copy routines of \<open>MP_memcpy.c\<close>, equivalent to \<open>memcpy\<close>, and the single-process module \<open>memcpy.c\<close>.
  \<^item> \<open>Onesided\<close>, \<open>Shmem\<close>, \<open>Gpshmem\<close>, \<open>Armci\<close>: processes that put into each other's memory.  The hand-over of single values is correct
    with ordered puts; the announcements of \<open>run_iters\<close> can overtake the receiver; the rounds of
    \<open>gpshmem.c\<close> hand the turn to and fro correctly; the list of remote segments of \<open>armci.c\<close> refines a table.
  \<^item> \<open>Exchange\<close>, \<open>Lapi\<close>: straight-line processes that exchange one message each, and \<open>lapi.c\<close> with its counters: messages, repeat
    counts and offsets arrive in every run, two announcements in a row may not.
  \<^item> \<open>Gm\<close>: \<open>gm.c\<close> and its events; what \<open>RecvData\<close> leaves in the buffer for every sequence of events.
  \<^item> \<open>Verbs\<close>, \<open>Ibv\<close>, \<open>Ibv_Safety\<close>, \<open>Ibv_Run\<close>: \<open>ibv.c\<close>, and the verbs library as a device with live objects, states of queue pairs and
    registered regions.  \<open>Setup\<close>, clean-up on every error path and \<open>run_iters\<close> make legal calls only; the
    exchange of addresses ends; the outcome of RDMA writes; the flag shared with the event thread
    and the interleaving that loses a wake-up.
  \<^item> \<open>Vapi\<close>, \<open>Vapi_Port\<close>, \<open>Vapi_Setup\<close>, \<open>Vapi_Run\<close>: \<open>ib.c\<close>, the module for the older VAPI library; \<open>Setup\<close> against that library as a
    device, with the illegal clean-up in event mode; and a translation of the calls, replies and
    structures of VAPI into those of verbs.  Under it every function from the allocation to the
    clean-up is that of \<open>ibv.c\<close>, and so is a whole \<open>run_iters\<close>.

  \<^bold>\<open>Bounds and fuel.\<close>  A polling loop that makes no call but the poll is one waiting call (\<open>Spin\<close>, \<open>Poll_cntr\<close>, \<open>Rc_wait_set\<close>), which is taken only when
    its condition holds.  Loops that call a library in every round (\<open>poll_cq\<close>, \<open>vapi_poll\<close>, \<open>event_handler\<close>, \<open>vapi_event_handler\<close>, \<open>EventThread\<close>, \<open>readFully_events\<close>, the connect
    loop of \<open>tcp.c\<close>, the poll loop of \<open>mpi2.c\<close>) carry fuel and end in \<open>OutOfFuel\<close> without it; the theorems about them say how much
    is enough, or hold for every amount.  All other loops are total functions.

  \<^bold>\<open>Not modelled.\<close>  The Python glue of \<open>netpipe.c\<close> (type object, argument parsing, module table), the log files of
  the InfiniBand modules and the text of error messages are left out.  In \<open>MP_memcpy.c\<close> the
  header of one loop is unreadable and is a parameter.  \<open>gpshmem.c\<close> cannot be compiled as it is: it uses two fields that
  \<open>netpipe.h\<close> does not have, which are kept beside the protocol structure, and lacks \<open>AfterAlignmentInit\<close>, which is a parameter.
\<close>

end
